(* ===== verification/Prelude.thy ===== *)
theory Prelude
  imports Complex_Main "HOL-Library.Multiset"
begin

section \<open>Prelude: shared collections, types and list lemmas\<close>

text \<open>
  The prelude of the inventory-check development. It declares the
  collections the component theories fill, names the model's basic types,
  and holds the generic facts about lists and association lists that the
  components share: the data set is a list of rows, each row a list of
  cells aligned with the column names, and the session keeps the scanned
  rows as a list of indices.
\<close>

named_theorems handler_defs "definitions of the request handlers, unfolded by the handler proofs"
named_theorems inv_defs "definitions of the invariants, unfolded by the preservation proofs"

type_synonym column_name = string
type_synonym row_index = nat
type_synonym session_id = string

subsection \<open>Interleaving schedules\<close>

text \<open>
  Concurrent requests as a family of components: a list of requests, the
  state they share, and a schedule, the list of the indices of the
  requests whose next atomic phase runs, in order. A phase of request
  \<open>i\<close> changes request \<open>i\<close> and the shared state and no other request; an
  index out of range does nothing.
\<close>

fun sched :: "('r \<Rightarrow> 'g \<Rightarrow> 'r \<times> 'g) \<Rightarrow> nat list \<Rightarrow> 'r list \<Rightarrow> 'g \<Rightarrow> 'r list \<times> 'g" where
  "sched step [] rs g = (rs, g)"
| "sched step (i # js) rs g =
     (if i < length rs
      then (case step (rs ! i) g of (r', g') \<Rightarrow> sched step js (rs[i := r']) g')
      else sched step js rs g)"

subsection \<open>Association lists built by zipping names with values\<close>

lemma lookup_zip_distinct:
  assumes "distinct cs" and "length r = length cs"
  shows "map (\<lambda>c. case map_of (zip cs r) c of None \<Rightarrow> d | Some v \<Rightarrow> v) cs = r"
proof (rule nth_equalityI)
  show "length (map (\<lambda>c. case map_of (zip cs r) c of None \<Rightarrow> d | Some v \<Rightarrow> v) cs) = length r"
    using assms(2) by simp
next
  fix i assume "i < length (map (\<lambda>c. case map_of (zip cs r) c of None \<Rightarrow> d | Some v \<Rightarrow> v) cs)"
  then have i: "i < length cs" by simp
  have "map_of (zip cs r) (cs ! i) = Some (r ! i)"
    using assms i by (intro map_of_zip_nth) simp_all
  with i show "map (\<lambda>c. case map_of (zip cs r) c of None \<Rightarrow> d | Some v \<Rightarrow> v) cs ! i = r ! i"
    by simp
qed

lemma map_of_zip_notin [simp]: "c \<notin> set cs \<Longrightarrow> map_of (zip cs r) c = None"
  by (auto simp: map_of_eq_None_iff dest: set_zip_leftD)

subsection \<open>Duplicates\<close>

lemma remdups_concat_same:
  assumes "distinct cs" and "xss \<noteq> []" and "\<forall>xs \<in> set xss. xs = cs"
  shows "remdups (concat xss) = cs"
  using assms
proof (induction xss)
  case Nil
  then show ?case by simp
next
  case (Cons xs xss)
  then have xs: "xs = cs" by simp
  show ?case
  proof (cases "xss = []")
    case True
    with xs Cons.prems(1) show ?thesis by simp
  next
    case False
    with Cons have "remdups (concat xss) = cs" by simp
    moreover have "set (concat xss) = set cs"
      using False Cons.prems(3) by (induction xss) auto
    ultimately show ?thesis
      using xs by (simp add: remdups_append)
  qed
qed

lemma count_list_distinct: "distinct xs \<Longrightarrow> count_list xs x = (if x \<in> set xs then 1 else 0)"
  by (induction xs) auto

lemma sum_list_indicator: "sum_list (map (\<lambda>c. if P c then 1 else 0) cs) = length (filter P cs)"
  by (induction cs) simp_all

lemma filter_upt_bound [simp]:
  "i \<in> set (filter P [0..<n]) \<longleftrightarrow> i < n \<and> P i"
  by auto

subsection \<open>Sorted association lists and permutations\<close>

text \<open>
  A dictionary serialized with sorted keys is its association list sorted
  by key; two lists that are permutations of each other have the same
  multiset and the same sorted form.
\<close>

lemma mset_concat_map_perm:
  "mset xs = mset ys \<Longrightarrow> mset (concat (map h xs)) = mset (concat (map h ys))"
proof -
  have sum: "mset (concat (map h zs)) = sum_list (map (mset \<circ> h) zs)" for zs
    by (induction zs) simp_all
  assume "mset xs = mset ys"
  then show ?thesis unfolding sum by (metis mset_map sum_mset_sum_list)
qed

lemma map_fst_insort_key: "map fst (insort_key fst x xs) = insort (fst x) (map fst xs)"
  by (induction xs) simp_all

lemma map_fst_sort_key: "map fst (sort_key fst xs) = sort (map fst xs)"
  by (induction xs) (simp_all add: map_fst_insort_key)

lemma map_of_filter_key: "map_of (filter (\<lambda>y. fst y = k) xs) k = map_of xs k"
  by (induction xs) auto

text \<open>The sort is stable, so the first entry of each key stays the first.\<close>

lemma map_of_sort_key: "map_of (sort_key fst xs) = map_of xs"
proof
  fix k
  have "map_of (sort_key fst xs) k = map_of (filter (\<lambda>y. fst y = k) (sort_key fst xs)) k"
    by (rule map_of_filter_key [symmetric])
  also have "\<dots> = map_of (filter (\<lambda>y. fst y = k) xs) k" by (simp only: sort_key_stable)
  also have "\<dots> = map_of xs k" by (rule map_of_filter_key)
  finally show "map_of (sort_key fst xs) k = map_of xs k" .
qed

lemma sort_key_fst_eq:
  assumes "distinct (map fst xs)" and "distinct (map fst ys)" and "map_of xs = map_of ys"
  shows "sort_key fst xs = sort_key fst ys"
proof -
  have "set xs = set ys" using assms map_of_inject_set by blast
  moreover have "distinct xs" "distinct ys" using assms(1,2) distinct_map by blast+
  ultimately have "mset xs = mset ys" by (simp add: set_eq_iff_mset_eq_distinct)
  moreover have "inj_on fst (set xs)" using assms(1) distinct_map by blast
  ultimately show ?thesis by (rule sort_key_eq_sort_key)
qed

lemma sort_mset_eq: "mset xs = mset ys \<Longrightarrow> sort xs = sort ys"
  by (rule sort_key_eq_sort_key) simp_all

subsection \<open>Schedules\<close>

lemma length_sched [simp]: "length (fst (sched step js rs g)) = length rs"
  by (induction js arbitrary: rs g) (simp_all split: prod.split)

text \<open>An invariant that every phase of every request keeps holds after every schedule.\<close>

lemma sched_inv:
  assumes "P rs g"
    and step: "\<And>rs g i. P rs g \<Longrightarrow> i < length rs \<Longrightarrow> P (rs[i := fst (step (rs ! i) g)]) (snd (step (rs ! i) g))"
  shows "P (fst (sched step js rs g)) (snd (sched step js rs g))"
  using assms(1)
proof (induction js arbitrary: rs g)
  case Nil
  then show ?case by simp
next
  case (Cons j js)
  show ?case
  proof (cases "j < length rs")
    case True
    obtain r' g' where st: "step (rs ! j) g = (r', g')" by fastforce
    have "P (rs[j := r']) g'" using step [OF Cons.prems True] st by simp
    with Cons.IH True st show ?thesis by simp
  next
    case False
    with Cons show ?thesis by simp
  qed
qed

text \<open>
  Simulation: when a coupling \<open>R\<close> between the requests and the shared state
  is kept by every phase, and under it a phase of the first system is a
  phase of the second on the abstracted shared state, every schedule of the
  first is the same schedule of the second.
\<close>

lemma sched_sim:
  assumes "R rs g"
    and keep: "\<And>rs g i. R rs g \<Longrightarrow> i < length rs \<Longrightarrow> R (rs[i := fst (step1 (rs ! i) g)]) (snd (step1 (rs ! i) g))"
    and sim: "\<And>rs g i. R rs g \<Longrightarrow> i < length rs \<Longrightarrow> map_prod id \<alpha> (step1 (rs ! i) g) = step2 (rs ! i) (\<alpha> g)"
  shows "map_prod id \<alpha> (sched step1 js rs g) = sched step2 js rs (\<alpha> g)"
  using assms(1)
proof (induction js arbitrary: rs g)
  case Nil
  then show ?case by simp
next
  case (Cons j js)
  show ?case
  proof (cases "j < length rs")
    case True
    obtain r' g' where st: "step1 (rs ! j) g = (r', g')" by fastforce
    have s2: "step2 (rs ! j) (\<alpha> g) = (r', \<alpha> g')" using sim [OF Cons.prems True] st by simp
    have "R (rs[j := r']) g'" using keep [OF Cons.prems True] st by simp
    then have "map_prod id \<alpha> (sched step1 js (rs[j := r']) g') = sched step2 js (rs[j := r']) (\<alpha> g')"
      by (rule Cons.IH)
    with True st s2 show ?thesis by (simp add: id_def)
  next
    case False
    with Cons show ?thesis by simp
  qed
qed

end
