(* ===== verification/Py_Builtins.thy ===== *)
theory Py_Builtins
  imports Prelude
begin

section \<open>The Python builtins the handlers call\<close>

text \<open>
  The handlers of both applications call a handful of Python string and
  number builtins: \<open>str.strip()\<close> on the scanned code, \<open>str.rsplit('.', 1)\<close>
  and \<open>str.lower()\<close> on the uploaded file name, \<open>str()\<close> of an integer
  (inside pandas' \<open>astype(str)\<close>), and \<open>round(x, 2)\<close> on the progress
  percentage. A Python \<open>str\<close> is a sequence of code points; the model's
  \<open>string\<close> is a list of 8-bit \<open>char\<close>s, read as the code points
  U+0000 to U+00FF (Latin-1), and the builtins below are exact there.
\<close>

subsection \<open>Whitespace and \<open>str.strip()\<close>\<close>

text \<open>
  \<open>str.isspace\<close> restricted to Latin-1: the ASCII controls 9--13, the
  separators 28--31, the space, NEXT LINE (133) and NO-BREAK SPACE (160).
\<close>

definition py_isspace :: "char \<Rightarrow> bool" where
  "py_isspace c \<longleftrightarrow> (of_char c :: nat) \<in> {9, 10, 11, 12, 13, 28, 29, 30, 31, 32, 133, 160}"

text \<open>\<open>s.strip()\<close>: drop whitespace from the front, then from the back.\<close>

definition py_strip :: "string \<Rightarrow> string" where
  "py_strip s = rev (dropWhile py_isspace (rev (dropWhile py_isspace s)))"

subsection \<open>\<open>str.lower()\<close> and \<open>str.rsplit(sep, 1)\<close>\<close>

text \<open>
  \<open>str.lower\<close> on Latin-1: \<open>A\<close>--\<open>Z\<close> and the upper-case letters
  192--222 except the multiplication sign 215 move up by 32.
\<close>

definition py_lower_char :: "char \<Rightarrow> char" where
  "py_lower_char c =
     (let n = (of_char c :: nat)
      in if (65 \<le> n \<and> n \<le> 90) \<or> (192 \<le> n \<and> n \<le> 222 \<and> n \<noteq> 215) then char_of (n + 32) else c)"

definition py_lower :: "string \<Rightarrow> string" where
  "py_lower s = map py_lower_char s"

text \<open>
  \<open>s.rsplit(d, 1)\<close>: the one-element list \<open>[s]\<close> when \<open>d\<close> does not occur,
  otherwise the part before the last \<open>d\<close> and the part after it.
\<close>

definition py_rsplit1 :: "char \<Rightarrow> string \<Rightarrow> string list" where
  "py_rsplit1 d s =
     (if d \<in> set s
      then [rev (tl (dropWhile (\<lambda>c. c \<noteq> d) (rev s))), rev (takeWhile (\<lambda>c. c \<noteq> d) (rev s))]
      else [s])"

text \<open>Python's \<open>xs[i]\<close> for \<open>i \<ge> 0\<close>: \<open>None\<close> is the \<open>IndexError\<close>.\<close>

definition py_index :: "'a list \<Rightarrow> nat \<Rightarrow> 'a option" where
  "py_index xs i = (if i < length xs then Some (xs ! i) else None)"

subsection \<open>\<open>str()\<close> of an integer\<close>

definition digit_char :: "nat \<Rightarrow> char" where
  "digit_char d = char_of (48 + d)"

fun nat_str :: "nat \<Rightarrow> string" where
  "nat_str n = (if n < 10 then [digit_char n] else nat_str (n div 10) @ [digit_char (n mod 10)])"

declare nat_str.simps [simp del]

definition int_str :: "int \<Rightarrow> string" where
  "int_str i = (if i < 0 then CHR ''-'' # nat_str (nat (- i)) else nat_str (nat i))"

text \<open>
  The inverse, Python's \<open>int()\<close> on the strings \<open>str()\<close> prints. It is not
  code of the application: it is the witness that \<open>str()\<close> of an integer
  loses nothing, so that comparing printed integers compares the integers.
\<close>

definition parse_nat :: "string \<Rightarrow> nat" where
  "parse_nat s = foldl (\<lambda>acc c. 10 * acc + (of_char c - 48)) 0 s"

definition parse_int :: "string \<Rightarrow> int" where
  "parse_int s =
     (if s \<noteq> [] \<and> hd s = CHR ''-'' then - int (parse_nat (tl s)) else int (parse_nat s))"

subsection \<open>\<open>round(x, 2)\<close>\<close>

text \<open>
  Python rounds half to even. The model rounds the exact rational value;
  the binary floating-point error of the division before the rounding is
  not modelled.
\<close>

definition round_half_even :: "rat \<Rightarrow> int" where
  "round_half_even q =
     (let f = \<lfloor>q\<rfloor>; d = q - of_int f
      in if d < 1/2 then f else if 1/2 < d then f + 1 else if even f then f else f + 1)"

definition py_round2 :: "rat \<Rightarrow> rat" where
  "py_round2 x = of_int (round_half_even (x * 100)) / 100"

subsection \<open>Lemmas: \<open>strip\<close>\<close>

lemma all_set_dropWhile: "(\<forall>x \<in> set (dropWhile P s). P x) \<longleftrightarrow> (\<forall>x \<in> set s. P x)"
  by (induction s) auto

lemma dropWhile_hd_keep: "xs \<noteq> [] \<Longrightarrow> \<not> P (hd xs) \<Longrightarrow> dropWhile P xs = xs"
  by (cases xs) auto

lemma py_strip_Nil_iff: "py_strip s = [] \<longleftrightarrow> (\<forall>c \<in> set s. py_isspace c)"
  by (simp add: py_strip_def dropWhile_eq_Nil_conv all_set_dropWhile)

subsection \<open>Lemmas: \<open>rsplit\<close>\<close>

text \<open>Splitting at the last separator and joining again gives the input back.\<close>

lemma py_rsplit1_join:
  assumes "d \<in> set s"
  shows "\<exists>a b. py_rsplit1 d s = [a, b] \<and> s = a @ d # b \<and> d \<notin> set b"
proof -
  define t where "t = takeWhile (\<lambda>c. c \<noteq> d) (rev s)"
  define u where "u = dropWhile (\<lambda>c. c \<noteq> d) (rev s)"
  have r: "rev s = t @ u" by (simp add: t_def u_def)
  have "u \<noteq> []" using assms by (simp add: u_def dropWhile_eq_Nil_conv)
  moreover have "u \<noteq> [] \<Longrightarrow> hd u = d"
    unfolding u_def using hd_dropWhile[of "\<lambda>c. c \<noteq> d" "rev s"] by simp
  ultimately have u: "u = d # tl u" by (metis list.exhaust_sel)
  have "s = rev (rev s)" by simp
  also have "\<dots> = rev (tl u) @ d # rev t"
    using r u by (metis rev.simps(2) rev_append append_assoc append_Cons append_Nil)
  finally have "s = rev (tl u) @ d # rev t" .
  moreover have "d \<notin> set (rev t)" by (auto simp: t_def dest: set_takeWhileD)
  ultimately show ?thesis using assms by (simp add: py_rsplit1_def t_def u_def)
qed

lemma py_rsplit1_length: "length (py_rsplit1 d s) = (if d \<in> set s then 2 else 1)"
  by (simp add: py_rsplit1_def)

subsection \<open>Lemmas: \<open>str()\<close> of an integer\<close>

lemma of_char_digit_char [simp]: "d < 10 \<Longrightarrow> of_char (digit_char d) = 48 + d"
  by (simp add: digit_char_def)

lemma parse_nat_snoc: "parse_nat (s @ [c]) = 10 * parse_nat s + (of_char c - 48)"
  by (simp add: parse_nat_def)

lemma parse_nat_nat_str: "parse_nat (nat_str n) = n"
proof (induction n rule: nat_str.induct)
  case (1 n)
  show ?case
  proof (cases "n < 10")
    case True
    then show ?thesis by (simp add: nat_str.simps [of n] parse_nat_def)
  next
    case False
    then have "parse_nat (nat_str n) = 10 * parse_nat (nat_str (n div 10)) + n mod 10"
      by (simp add: nat_str.simps [of n] parse_nat_snoc)
    with "1.IH" False show ?thesis by simp
  qed
qed

lemma nat_str_digits: "c \<in> set (nat_str n) \<Longrightarrow> \<exists>d < 10. c = digit_char d"
proof (induction n rule: nat_str.induct)
  case (1 n)
  show ?case
  proof (cases "n < 10")
    case True
    with "1.prems" show ?thesis by (auto simp: nat_str.simps [of n])
  next
    case False
    with "1.prems" have "c \<in> set (nat_str (n div 10)) \<or> c = digit_char (n mod 10)"
      by (auto simp: nat_str.simps [of n])
    then show ?thesis
    proof
      assume "c \<in> set (nat_str (n div 10))"
      with "1.IH" False show ?thesis by blast
    next
      assume "c = digit_char (n mod 10)"
      then show ?thesis by (intro exI [of _ "n mod 10"]) simp
    qed
  qed
qed

lemma nat_str_ne: "nat_str n \<noteq> []"
  by (simp add: nat_str.simps [of n])

lemma digit_char_not_minus: "d < 10 \<Longrightarrow> digit_char d \<noteq> CHR ''-''"
proof
  assume "d < 10" "digit_char d = CHR ''-''"
  then have "of_char (digit_char d) = (of_char (CHR ''-'') :: nat)" by simp
  with \<open>d < 10\<close> show False by simp
qed

subsection \<open>Lemmas: \<open>round(x, 2)\<close>\<close>

lemma round_half_even_floor: "\<lfloor>q\<rfloor> \<le> round_half_even q"
  by (simp add: round_half_even_def Let_def)

lemma round_half_even_le:
  assumes "q \<le> of_int m" shows "round_half_even q \<le> m"
proof -
  have fm: "\<lfloor>q\<rfloor> \<le> m"
    using floor_mono[OF assms] by simp
  show ?thesis
  proof (cases "q = of_int \<lfloor>q\<rfloor>")
    case True
    then show ?thesis using fm by (simp add: round_half_even_def Let_def)
  next
    case False
    then have "of_int \<lfloor>q\<rfloor> < q" using of_int_floor_le[of q] by linarith
    with assms have "of_int \<lfloor>q\<rfloor> < (of_int m :: rat)" by linarith
    then have "\<lfloor>q\<rfloor> < m" by (simp only: of_int_less_iff)
    then show ?thesis by (simp add: round_half_even_def Let_def)
  qed
qed

lemma round_half_even_ge: "of_int m \<le> q \<Longrightarrow> m \<le> round_half_even q"
  using round_half_even_floor le_floor_iff order_trans by blast

lemma round_half_even_of_int [simp]: "round_half_even (of_int k) = k"
  by (simp add: round_half_even_def)

lemma py_round2_bounds:
  assumes "0 \<le> x" and "x \<le> 100"
  shows "0 \<le> py_round2 x \<and> py_round2 x \<le> 100"
proof -
  have "0 \<le> round_half_even (x * 100)"
    using assms(1) by (intro round_half_even_ge) simp
  moreover have "round_half_even (x * 100) \<le> 10000"
    using assms(2) by (intro round_half_even_le) simp
  ultimately show ?thesis by (simp add: py_round2_def)
qed

subsection \<open>Properties of the builtins\<close>

lemma digit_char_not_dot: "d < 10 \<Longrightarrow> digit_char d \<noteq> CHR ''.''"
proof
  assume "d < 10" "digit_char d = CHR ''.''"
  then have "of_char (digit_char d) = (of_char (CHR ''.'') :: nat)" by simp
  with \<open>d < 10\<close> show False by (simp add: digit_char_def)
qed

lemma dot_notin_nat_str: "CHR ''.'' \<notin> set (nat_str n)"
proof
  assume "CHR ''.'' \<in> set (nat_str n)"
  then obtain d where "d < 10" "CHR ''.'' = digit_char d" using nat_str_digits by blast
  with digit_char_not_dot show False by metis
qed

lemma dot_notin_int_str: "CHR ''.'' \<notin> set (int_str k)"
  by (simp add: int_str_def dot_notin_nat_str)

text \<open>
  What \<open>str.strip()\<close> computes: the input is the result with only whitespace before and after it, and a non-empty result neither starts nor ends with whitespace.
\<close>

lemma py_strip_spec:
  "\<exists>pre suf. s = pre @ py_strip s @ suf \<and> (\<forall>c \<in> set pre \<union> set suf. py_isspace c) \<and>
     (py_strip s \<noteq> [] \<longrightarrow> \<not> py_isspace (hd (py_strip s)) \<and> \<not> py_isspace (last (py_strip s)))"
proof -
  define l where "l = dropWhile py_isspace s"
  define m where "m = dropWhile py_isspace (rev l)"
  have strip: "py_strip s = rev m" by (simp add: py_strip_def l_def m_def)
  have s: "s = takeWhile py_isspace s @ l" by (simp add: l_def)
  have "rev l = takeWhile py_isspace (rev l) @ m" by (simp add: m_def)
  then have l: "l = rev m @ rev (takeWhile py_isspace (rev l))"
    by (metis rev_append rev_rev_ident)
  have ends: "\<not> py_isspace (hd (rev m)) \<and> \<not> py_isspace (last (rev m))" if "rev m \<noteq> []"
  proof -
    have "m \<noteq> []" using that by simp
    then have last: "\<not> py_isspace (last (rev m))"
      by (simp add: m_def hd_dropWhile last_rev)
    have "l \<noteq> []" using l that by auto
    then have "\<not> py_isspace (hd l)" by (simp add: l_def hd_dropWhile)
    moreover have "hd l = hd (rev m)" using l that by (metis hd_append2)
    ultimately show ?thesis using last by simp
  qed
  have eq: "s = takeWhile py_isspace s @ py_strip s @ rev (takeWhile py_isspace (rev l))"
    using s l strip by simp
  have ws: "\<forall>c \<in> set (takeWhile py_isspace s) \<union> set (rev (takeWhile py_isspace (rev l))). py_isspace c"
    by (auto dest: set_takeWhileD)
  have "py_strip s \<noteq> [] \<longrightarrow> \<not> py_isspace (hd (py_strip s)) \<and> \<not> py_isspace (last (py_strip s))"
    using ends strip by simp
  with eq ws show ?thesis by blast
qed

text \<open>
  \<open>str()\<close> of an integer is parsed back to the integer.
\<close>

lemma parse_int_int_str: "parse_int (int_str i) = i"
proof (cases "i < 0")
  case True
  then show ?thesis by (simp add: int_str_def parse_int_def parse_nat_nat_str)
next
  case False
  have "hd (nat_str (nat i)) \<in> set (nat_str (nat i))" using nat_str_ne by simp
  then have "hd (nat_str (nat i)) \<noteq> CHR ''-''"
    by (metis digit_char_not_minus nat_str_digits)
  with False show ?thesis by (simp add: int_str_def parse_int_def parse_nat_nat_str)
qed

end
