(* ===== verification/Frame.thy ===== *)
theory Frame
  imports Py_Builtins
begin

section \<open>The data set: a pandas DataFrame of the uploaded sheet\<close>

text \<open>
  Both applications hold the uploaded sheet as a pandas \<open>DataFrame\<close> with
  the default \<open>RangeIndex\<close>, so a row's index is its position. The model is
  a record of the column names and the rows, each row a list of cells
  aligned with the columns. The operations are the DataFrame calls the
  handlers make: \<open>len(df)\<close>, \<open>df[col]\<close>, \<open>df[col].astype(str)\<close>,
  \<open>df.to_dict('records')\<close>, \<open>pd.DataFrame(records)\<close> (the in-session
  variant rebuilds the frame from the records it keeps in the cookie),
  \<open>df.head(100)\<close>, and the column assignment \<open>df[name] = values\<close> of the
  exporter.
\<close>

subsection \<open>Cells and their text\<close>

text \<open>
  The cells \<open>read_excel\<close> produces: text, integers, integral floats (an
  integer column with an empty cell becomes a float column), booleans, and
  \<open>NaN\<close> for an empty cell. \<open>astype(str)\<close> prints them as Python's
  \<open>str()\<close> does: \<open>str(12345.0) = '12345.0'\<close>, \<open>str(nan) = 'nan'\<close>.
  A \<open>CFloat k\<close> stands for the float \<open>k.0\<close> with \<open>|k| < 10^16\<close>, where
  Python prints no exponent.
\<close>

datatype cell = CStr string | CInt int | CFloat int | CBool bool | CNaN

fun cell_str :: "cell \<Rightarrow> string" where
  "cell_str (CStr s) = s"
| "cell_str (CInt i) = int_str i"
| "cell_str (CFloat k) = int_str k @ ''.0''"
| "cell_str (CBool b) = (if b then ''True'' else ''False'')"
| "cell_str CNaN = ''nan''"

subsection \<open>Frames and records\<close>

record frame =
  columns :: "column_name list"
  rows :: "cell list list"

text \<open>A record of \<open>to_dict('records')\<close>: the row as a dictionary, in column order.\<close>

type_synonym record_row = "(column_name \<times> cell) list"

definition nrows :: "frame \<Rightarrow> nat" where
  "nrows f = length (rows f)"

definition to_records :: "frame \<Rightarrow> record_row list" where
  "to_records f = map (zip (columns f)) (rows f)"

text \<open>A key missing from a record becomes \<open>NaN\<close> when pandas builds the frame.\<close>

definition record_get :: "record_row \<Rightarrow> column_name \<Rightarrow> cell" where
  "record_get r c = (case map_of r c of None \<Rightarrow> CNaN | Some v \<Rightarrow> v)"

text \<open>
  \<open>pd.DataFrame(records)\<close>: the columns are the keys in the order they first
  occur, and every row is read at every column.
\<close>

definition frame_of_records :: "record_row list \<Rightarrow> frame" where
  "frame_of_records rs =
     (let cs = remdups (concat (map (map fst) rs))
      in \<lparr>columns = cs, rows = map (\<lambda>r. map (record_get r) cs) rs\<rparr>)"

text \<open>\<open>df[col]\<close>: the column's cells, row by row.\<close>

definition series :: "frame \<Rightarrow> column_name \<Rightarrow> cell list" where
  "series f c = map (\<lambda>r. record_get (zip (columns f) r) c) (rows f)"

definition head_records :: "nat \<Rightarrow> frame \<Rightarrow> record_row list" where
  "head_records n f = take n (to_records f)"

text \<open>
  \<open>df[name] = values\<close>: an existing column is overwritten in place, a new one
  is appended after the others.
\<close>

fun col_pos :: "'a \<Rightarrow> 'a list \<Rightarrow> nat" where
  "col_pos x [] = 0"
| "col_pos x (y # ys) = (if x = y then 0 else Suc (col_pos x ys))"

definition set_column :: "column_name \<Rightarrow> cell list \<Rightarrow> frame \<Rightarrow> frame" where
  "set_column name vals f =
     (if name \<in> set (columns f)
      then f\<lparr>rows := map2 (\<lambda>r v. r[col_pos name (columns f) := v]) (rows f) vals\<rparr>
      else f\<lparr>columns := columns f @ [name], rows := map2 (\<lambda>r v. r @ [v]) (rows f) vals\<rparr>)"

text \<open>
  A well-formed frame, as \<open>read_excel\<close> returns one: distinct column names
  and every row as long as the header.
\<close>

definition wf_frame :: "frame \<Rightarrow> bool" where
  "wf_frame f \<longleftrightarrow> distinct (columns f) \<and> (\<forall>r \<in> set (rows f). length r = length (columns f))"

subsection \<open>Lemmas\<close>

lemma length_to_records [simp]: "length (to_records f) = nrows f"
  by (simp add: to_records_def nrows_def)

lemma nth_to_records: "i < nrows f \<Longrightarrow> to_records f ! i = zip (columns f) (rows f ! i)"
  by (simp add: to_records_def nrows_def)

lemma nrows_frame_of_records [simp]: "nrows (frame_of_records rs) = length rs"
  by (simp add: frame_of_records_def nrows_def Let_def)

lemma wf_frame_of_records: "wf_frame (frame_of_records rs)"
  by (simp add: frame_of_records_def wf_frame_def Let_def)

lemma record_get_zip_distinct:
  "distinct cs \<Longrightarrow> length r = length cs \<Longrightarrow> map (record_get (zip cs r)) cs = r"
  unfolding record_get_def by (rule lookup_zip_distinct)

lemma record_get_not_key: "c \<notin> set cs \<Longrightarrow> record_get (zip cs r) c = CNaN"
  by (simp add: record_get_def)

lemma record_get_zip_nth:
  "distinct cs \<Longrightarrow> length r = length cs \<Longrightarrow> j < length cs \<Longrightarrow> record_get (zip cs r) (cs ! j) = r ! j"
  by (simp add: record_get_def map_of_zip_nth)

lemma record_get_zip_update:
  assumes "distinct cs" and "length r = length cs" and "j < length cs" and "c \<noteq> cs ! j"
  shows "record_get (zip cs (r[j := v])) c = record_get (zip cs r) c"
proof (cases "c \<in> set cs")
  case True
  then obtain k where k: "k < length cs" "cs ! k = c" by (auto simp: in_set_conv_nth)
  with assms(4) have "k \<noteq> j" by auto
  have "record_get (zip cs (r[j := v])) (cs ! k) = r[j := v] ! k"
    using assms k by (intro record_get_zip_nth) simp_all
  moreover have "record_get (zip cs r) (cs ! k) = r ! k"
    using assms k by (intro record_get_zip_nth) simp_all
  ultimately show ?thesis using k \<open>k \<noteq> j\<close> by simp
next
  case False
  then show ?thesis by (simp add: record_get_not_key)
qed

lemma frame_of_records_to_records:
  assumes "wf_frame f" and "rows f \<noteq> []"
  shows "frame_of_records (to_records f) = f"
proof -
  have d: "distinct (columns f)" and len: "\<forall>r \<in> set (rows f). length r = length (columns f)"
    using assms(1) by (auto simp: wf_frame_def)
  have keys: "\<forall>ks \<in> set (map (map fst) (to_records f)). ks = columns f"
    using len by (auto simp: to_records_def)
  have "map (map fst) (to_records f) \<noteq> []" using assms(2) by (simp add: to_records_def)
  then have cs: "remdups (concat (map (map fst) (to_records f))) = columns f"
    by (rule remdups_concat_same [OF d _ keys])
  have "map (\<lambda>r. map (record_get r) (columns f)) (to_records f) = rows f"
    using d len by (auto simp: to_records_def record_get_zip_distinct intro!: map_idI)
  with cs show ?thesis by (simp add: frame_of_records_def Let_def)
qed

lemma length_series [simp]: "length (series f c) = nrows f"
  by (simp add: series_def nrows_def)

lemma nth_series: "i < nrows f \<Longrightarrow> series f c ! i = record_get (zip (columns f) (rows f ! i)) c"
  by (simp add: series_def nrows_def)

lemma col_pos_nth: "x \<in> set xs \<Longrightarrow> col_pos x xs < length xs \<and> xs ! col_pos x xs = x"
  by (induction xs) auto

lemma columns_set_column:
  "columns (set_column name vals f) = (if name \<in> set (columns f) then columns f else columns f @ [name])"
  by (simp add: set_column_def)

lemma nrows_set_column [simp]:
  "length vals = nrows f \<Longrightarrow> nrows (set_column name vals f) = nrows f"
  by (simp add: set_column_def nrows_def)

lemma wf_set_column:
  assumes "wf_frame f" and "length vals = nrows f"
  shows "wf_frame (set_column name vals f)"
  using assms by (auto simp: set_column_def wf_frame_def nrows_def set_zip)

lemma rows_set_column_nth:
  assumes "length vals = nrows f" and "i < nrows f"
  shows "rows (set_column name vals f) ! i =
    (if name \<in> set (columns f) then (rows f ! i)[col_pos name (columns f) := vals ! i]
     else rows f ! i @ [vals ! i])"
  using assms by (simp add: set_column_def nrows_def)

text \<open>The assigned column reads back the values, row by row.\<close>

lemma record_get_set_column_same:
  assumes "wf_frame f" and "length vals = nrows f" and "i < nrows f"
  shows "record_get (to_records (set_column name vals f) ! i) name = vals ! i"
proof -
  have d: "distinct (columns f)" and len: "length (rows f ! i) = length (columns f)"
    using assms by (auto simp: wf_frame_def nrows_def)
  have i': "i < nrows (set_column name vals f)" using assms by simp
  show ?thesis
  proof (cases "name \<in> set (columns f)")
    case True
    let ?j = "col_pos name (columns f)"
    have j: "?j < length (columns f)" and cj: "columns f ! ?j = name"
      using col_pos_nth[OF True] by auto
    have "record_get (zip (columns f) ((rows f ! i)[?j := vals ! i])) (columns f ! ?j)
        = (rows f ! i)[?j := vals ! i] ! ?j"
      using d len j by (intro record_get_zip_nth) simp_all
    then show ?thesis
      using True assms(2,3) i' j len cj
      by (simp add: nth_to_records rows_set_column_nth columns_set_column)
  next
    case False
    have "map_of (zip (columns f) (rows f ! i)) name = None"
      using False by (auto simp: map_of_eq_None_iff dest: set_zip_leftD)
    then have "map_of (zip (columns f @ [name]) (rows f ! i @ [vals ! i])) name = Some (vals ! i)"
      using len by (simp add: map_of_append zip_append map_add_def)
    then show ?thesis
      using False assms(2,3) i'
      by (simp add: nth_to_records rows_set_column_nth columns_set_column record_get_def)
  qed
qed

text \<open>The other columns are left as they were.\<close>

lemma record_get_set_column_other:
  assumes "wf_frame f" and "length vals = nrows f" and "i < nrows f" and "c \<noteq> name"
  shows "record_get (to_records (set_column name vals f) ! i) c = record_get (to_records f ! i) c"
proof -
  have d: "distinct (columns f)" and len: "length (rows f ! i) = length (columns f)"
    using assms by (auto simp: wf_frame_def nrows_def)
  have i': "i < nrows (set_column name vals f)" using assms by simp
  show ?thesis
  proof (cases "name \<in> set (columns f)")
    case True
    let ?j = "col_pos name (columns f)"
    have j: "?j < length (columns f)" and cj: "columns f ! ?j = name"
      using col_pos_nth[OF True] by auto
    have "record_get (zip (columns f) ((rows f ! i)[?j := vals ! i])) c = record_get (zip (columns f) (rows f ! i)) c"
      using d len j cj assms(4) by (intro record_get_zip_update) simp_all
    then show ?thesis
      using True assms(2,3) i'
      by (simp add: nth_to_records rows_set_column_nth columns_set_column)
  next
    case False
    have "map_of (zip (columns f @ [name]) (rows f ! i @ [vals ! i])) c = map_of (zip (columns f) (rows f ! i)) c"
      using len assms(4) by (auto simp: map_of_append zip_append map_add_def split: option.split)
    then show ?thesis
      using False assms(2,3) i'
      by (simp add: nth_to_records rows_set_column_nth columns_set_column record_get_def)
  qed
qed

lemma to_records_no_rows: "rows f = [] \<Longrightarrow> to_records f = []"
  by (simp add: to_records_def)

lemma record_get_frame_of_records:
  "i < length rs \<Longrightarrow> record_get (to_records (frame_of_records rs) ! i) c = record_get (rs ! i) c"
proof -
  assume i: "i < length rs"
  let ?cs = "remdups (concat (map (map fst) rs))"
  have row: "to_records (frame_of_records rs) ! i = zip ?cs (map (record_get (rs ! i)) ?cs)"
    using i by (simp add: to_records_def frame_of_records_def Let_def)
  show ?thesis
  proof (cases "c \<in> set ?cs")
    case True
    then obtain j where j: "j < length ?cs" "?cs ! j = c" by (metis in_set_conv_nth)
    have "record_get (zip ?cs (map (record_get (rs ! i)) ?cs)) (?cs ! j) = map (record_get (rs ! i)) ?cs ! j"
      using j by (intro record_get_zip_nth) simp_all
    with j row show ?thesis by simp
  next
    case False
    then have "c \<notin> fst ` set (rs ! i)" using nth_mem [OF i] by auto
    then have "map_of (rs ! i) c = None" by (simp add: map_of_eq_None_iff)
    with False row show ?thesis by (simp add: record_get_not_key record_get_def)
  qed
qed

subsection \<open>Properties of the frame model\<close>

text \<open>
  Within one request, \<open>pd.DataFrame(df.to_dict('records'))\<close> of a well-formed sheet has the sheet's records.
\<close>

theorem records_roundtrip:
  assumes "wf_frame f"
  shows "to_records (frame_of_records (to_records f)) = to_records f"
proof (cases "rows f = []")
  case True
  then show ?thesis by (simp add: to_records_def frame_of_records_def Let_def)
next
  case False
  with assms show ?thesis by (simp add: frame_of_records_to_records)
qed

end
