(* ===== verification/Upload.thy ===== *)
theory Upload
  imports Frame
begin

section \<open>The upload guards and the upload summary\<close>

text \<open>
  \<open>allowed_file\<close> (\<open>src/App.py\<close> lines 23--24,
  \<open>src/inventory_flask_app.py\<close> lines 18--19) and the guards of
  \<open>upload_file\<close> that both applications share: a request without a
  \<open>file\<close> part or with an empty file name is refused, then a name whose
  extension is not allowed. \<open>secure_filename\<close> (werkzeug) and
  \<open>read_excel\<close> (pandas) are library calls: the handlers take the first as
  a function parameter and the outcome of the second as an input.
\<close>

subsection \<open>Errors\<close>

text \<open>
  Every failure response of the two applications, with its HTTP status.
  \<open>Exception\<close> is the \<open>except Exception\<close> branch every handler ends with
  (status 500).
\<close>

datatype error =
    NoFileSelected
  | FileTypeNotAllowed
  | SaveFailed
  | EmptyBarcode
  | NoDataLoaded
  | LoadFailed
  | Exception

fun status_code :: "error \<Rightarrow> nat" where
  "status_code NoFileSelected = 400"
| "status_code FileTypeNotAllowed = 400"
| "status_code SaveFailed = 500"
| "status_code EmptyBarcode = 400"
| "status_code NoDataLoaded = 400"
| "status_code LoadFailed = 500"
| "status_code Exception = 500"

subsection \<open>Allowed extensions\<close>

definition ALLOWED_EXTENSIONS :: "string set" where
  "ALLOWED_EXTENSIONS = {''xlsx'', ''xls''}"

text \<open>
  \<open>'.' in filename and filename.rsplit('.', 1)[1].lower() in
  ALLOWED_EXTENSIONS\<close>: the index \<open>[1]\<close> could raise \<open>IndexError\<close>
  (\<open>Inl\<close>), which the first conjunct rules out.
\<close>

definition allowed_file :: "string \<Rightarrow> error + bool" where
  "allowed_file fn =
     (if CHR ''.'' \<in> set fn
      then (case py_index (py_rsplit1 CHR ''.'' fn) 1 of
              None \<Rightarrow> Inl Exception
            | Some ext \<Rightarrow> Inr (py_lower ext \<in> ALLOWED_EXTENSIONS))
      else Inr False)"

subsection \<open>The request and its guards\<close>

text \<open>\<open>request.files\<close>: no \<open>file\<close> part, or a part with its file name.\<close>

datatype file_field = NoFilePart | FilePart string

text \<open>
  Lines 71--79 and 117 of \<open>App.py\<close> (27--36 and 61 of the other file):
  the file name that passed the guards, or the error response.
\<close>

definition upload_check :: "file_field \<Rightarrow> error + string" where
  "upload_check ff =
     (case ff of
        NoFilePart \<Rightarrow> Inl NoFileSelected
      | FilePart fn \<Rightarrow>
          if fn = [] then Inl NoFileSelected
          else (case allowed_file fn of
                  Inl e \<Rightarrow> Inl e
                | Inr ok \<Rightarrow> if ok then Inr fn else Inl FileTypeNotAllowed))"

subsection \<open>The upload summary\<close>

record upload_info =
  records_count :: nat
  info_columns :: "column_name list"
  preview :: "record_row list"

text \<open>\<open>df.head(n)\<close>.\<close>

definition frame_head :: "nat \<Rightarrow> frame \<Rightarrow> frame" where
  "frame_head n f = f\<lparr>rows := take n (rows f)\<rparr>"

text \<open>\<open>App.py\<close> lines 107--113: the preview is \<open>df.head(100).to_dict('records')\<close>.\<close>

definition app_upload_info :: "frame \<Rightarrow> upload_info" where
  "app_upload_info f =
     \<lparr>records_count = nrows f, info_columns = columns f, preview = to_records (frame_head 100 f)\<rparr>"

text \<open>
  \<open>inventory_flask_app.py\<close> lines 53--59: the preview is
  \<open>df.to_dict('records')[:100]\<close>.
\<close>

definition upload_summary :: "frame \<Rightarrow> upload_info" where
  "upload_summary f =
     \<lparr>records_count = nrows f, info_columns = columns f, preview = head_records 100 f\<rparr>"

subsection \<open>Lemmas\<close>

lemma allowed_file_nonempty: "allowed_file fn = Inr True \<Longrightarrow> fn \<noteq> []"
  by (auto simp: allowed_file_def)

lemma takeWhile_upto_sep: "d \<notin> set xs \<Longrightarrow> takeWhile (\<lambda>c. c \<noteq> d) (xs @ d # ys) = xs"
  by (induction xs) auto

text \<open>
  C19: \<open>allowed_file\<close> accepts a name exactly when it has a dot and the part after the last dot, lower-cased, is \<open>xlsx\<close> or \<open>xls\<close>.
\<close>

theorem allowed_file_iff:
  "allowed_file fn = Inr True \<longleftrightarrow>
     (\<exists>base ext. fn = base @ CHR ''.'' # ext \<and> CHR ''.'' \<notin> set ext \<and> py_lower ext \<in> ALLOWED_EXTENSIONS)"
proof
  assume a: "allowed_file fn = Inr True"
  then have dot: "CHR ''.'' \<in> set fn" by (auto simp: allowed_file_def split: if_splits)
  obtain base ext where sp: "py_rsplit1 CHR ''.'' fn = [base, ext]" "fn = base @ CHR ''.'' # ext"
      "CHR ''.'' \<notin> set ext"
    using py_rsplit1_join [OF dot] by blast
  have "py_lower ext \<in> ALLOWED_EXTENSIONS" using a dot sp(1) by (simp add: allowed_file_def py_index_def)
  with sp show "\<exists>base ext. fn = base @ CHR ''.'' # ext \<and> CHR ''.'' \<notin> set ext \<and> py_lower ext \<in> ALLOWED_EXTENSIONS"
    by blast
next
  assume "\<exists>base ext. fn = base @ CHR ''.'' # ext \<and> CHR ''.'' \<notin> set ext \<and> py_lower ext \<in> ALLOWED_EXTENSIONS"
  then obtain base ext where e: "fn = base @ CHR ''.'' # ext" "CHR ''.'' \<notin> set ext"
      "py_lower ext \<in> ALLOWED_EXTENSIONS" by blast
  then have dot: "CHR ''.'' \<in> set fn" by simp
  obtain b' e' where sp: "py_rsplit1 CHR ''.'' fn = [b', e']" "fn = b' @ CHR ''.'' # e'" "CHR ''.'' \<notin> set e'"
    using py_rsplit1_join [OF dot] by blast
  have "rev e' = takeWhile (\<lambda>c. c \<noteq> CHR ''.'') (rev fn)"
    using sp(2,3) by (simp add: takeWhile_upto_sep)
  moreover have "rev ext = takeWhile (\<lambda>c. c \<noteq> CHR ''.'') (rev fn)"
    using e(1,2) by (simp add: takeWhile_upto_sep)
  ultimately have "e' = ext" by (metis rev_rev_ident)
  with sp(1) dot e(3) show "allowed_file fn = Inr True" by (simp add: allowed_file_def py_index_def)
qed

text \<open>
  \<open>allowed_file\<close> never raises: the index \<open>[1]\<close> after \<open>rsplit\<close> is always in range behind the dot test.
\<close>

lemma allowed_file_total: "\<exists>ok. allowed_file fn = Inr ok"
proof (cases "CHR ''.'' \<in> set fn")
  case True
  then obtain b e where "py_rsplit1 CHR ''.'' fn = [b, e]" using py_rsplit1_join by blast
  with True show ?thesis by (simp add: allowed_file_def py_index_def)
next
  case False
  then have "allowed_file fn = Inr False" by (simp add: allowed_file_def)
  then show ?thesis by blast
qed

end
