(* ===== verification/Scan.thy ===== *)
theory Scan
  imports Frame
begin

section \<open>The scan matcher\<close>

text \<open>
  The body of \<open>search_barcode\<close>, the same in both applications
  (\<open>src/App.py\<close> lines 142--171, \<open>src/inventory_flask_app.py\<close> lines
  82--115): for each column in order, the column is printed with
  \<open>astype(str)\<close>, compared with the code, and the index of every matching
  row is appended to \<open>found_indices\<close>; then each found index not yet in
  \<open>scanned_items\<close> is appended to it and to \<open>new_scanned\<close>. A row that
  matches in two columns is found twice.
\<close>

subsection \<open>Searching the columns\<close>

text \<open>\<open>matches = col_str == barcode\<close>, then \<open>df[matches].index.tolist()\<close>.\<close>

definition matches_of :: "string \<Rightarrow> cell list \<Rightarrow> row_index list" where
  "matches_of code cs = filter (\<lambda>i. cell_str (cs ! i) = code) [0..<length cs]"

text \<open>The \<open>for col in df.columns\<close> loop, with \<open>found_indices\<close> as accumulator.\<close>

fun search_columns :: "frame \<Rightarrow> string \<Rightarrow> column_name list \<Rightarrow> row_index list \<Rightarrow> row_index list" where
  "search_columns f code [] acc = acc"
| "search_columns f code (c # cs) acc =
     (let ms = matches_of code (series f c)
      in search_columns f code cs (if ms \<noteq> [] then acc @ ms else acc))"

definition found_indices :: "frame \<Rightarrow> string \<Rightarrow> row_index list" where
  "found_indices f code = search_columns f code (columns f) []"

subsection \<open>Adding the found rows to the scanned list\<close>

text \<open>
  The \<open>for idx in found_indices\<close> loop: the scanned list and
  \<open>new_scanned\<close> are its two accumulators.
\<close>

fun add_scanned :: "row_index list \<Rightarrow> row_index list \<Rightarrow> row_index list \<Rightarrow> row_index list \<times> row_index list" where
  "add_scanned [] sc new = (sc, new)"
| "add_scanned (i # is) sc new =
     (if i \<notin> set sc then add_scanned is (sc @ [i]) (new @ [i]) else add_scanned is sc new)"

text \<open>
  The outcome of a search that got past the guards: \<open>Found matched new
  total\<close> is the JSON of lines 164--171 (\<open>matched_indices\<close>,
  \<open>new_scanned\<close>, \<open>total_scanned\<close>; the message counts \<open>matched\<close>),
  \<open>NotFound code\<close> that of lines 173--177.
\<close>

datatype search_outcome = Found "row_index list" "row_index list" nat | NotFound string

definition search_core :: "frame \<Rightarrow> string \<Rightarrow> row_index list \<Rightarrow> search_outcome \<times> row_index list" where
  "search_core f code sc =
     (let found = found_indices f code
      in if found \<noteq> []
         then (case add_scanned found sc [] of (sc', new) \<Rightarrow> (Found found new (length sc'), sc'))
         else (NotFound code, sc))"

subsection \<open>Reference definitions\<close>

text \<open>
  What the two loops compute, stated without loops: the found rows are the
  rows with a matching cell, column after column; the new rows are the
  found ones not scanned before, each once, in the order first found.
\<close>

fun dedup_first :: "'a list \<Rightarrow> 'a list" where
  "dedup_first [] = []"
| "dedup_first (x # xs) = x # dedup_first (filter (\<lambda>y. y \<noteq> x) xs)"

definition found_spec :: "frame \<Rightarrow> string \<Rightarrow> row_index list" where
  "found_spec f code = concat (map (\<lambda>c. matches_of code (series f c)) (columns f))"

definition new_spec :: "row_index list \<Rightarrow> row_index list \<Rightarrow> row_index list" where
  "new_spec found sc = dedup_first (filter (\<lambda>i. i \<notin> set sc) found)"

subsection \<open>The scanned-set invariant\<close>

text \<open>
  The data model's invariant on \<open>scanned_items\<close>: no index twice, and
  every index a row of the current data set.
\<close>

definition valid_scanned :: "nat \<Rightarrow> row_index list \<Rightarrow> bool" where
  "valid_scanned n sc \<longleftrightarrow> distinct sc \<and> (\<forall>i \<in> set sc. i < n)"

subsection \<open>Lemmas\<close>

lemma search_columns_append:
  "search_columns f code cs acc = acc @ concat (map (\<lambda>c. matches_of code (series f c)) cs)"
  by (induction cs arbitrary: acc) (simp_all add: Let_def)

lemma found_indices_eq_spec: "found_indices f code = found_spec f code"
  by (simp add: found_indices_def found_spec_def search_columns_append)

lemma set_matches_of: "set (matches_of code cs) = {i. i < length cs \<and> cell_str (cs ! i) = code}"
  by (auto simp: matches_of_def)

lemma set_found_indices:
  "set (found_indices f code) =
     {i. i < nrows f \<and> (\<exists>c \<in> set (columns f). cell_str (series f c ! i) = code)}"
  by (auto simp: found_indices_eq_spec found_spec_def set_matches_of)

lemma found_indices_bound: "i \<in> set (found_indices f code) \<Longrightarrow> i < nrows f"
  by (simp add: set_found_indices)

lemma set_dedup_first [simp]: "set (dedup_first xs) = set xs"
  by (induction xs rule: dedup_first.induct) auto

lemma distinct_dedup_first: "distinct (dedup_first xs)"
  by (induction xs rule: dedup_first.induct) auto

lemma add_scanned_acc:
  "add_scanned is sc new = (sc @ new_spec is sc, new @ new_spec is sc)"
proof (induction "is" arbitrary: sc new)
  case Nil
  then show ?case by (simp add: new_spec_def)
next
  case (Cons i "is")
  show ?case
  proof (cases "i \<in> set sc")
    case True
    with Cons.IH show ?thesis by (simp add: new_spec_def)
  next
    case False
    have "filter (\<lambda>y. y \<noteq> i) (filter (\<lambda>j. j \<notin> set sc) is) = filter (\<lambda>j. j \<notin> set (sc @ [i])) is"
      by (auto intro: filter_cong)
    then have "new_spec (i # is) sc = i # new_spec is (sc @ [i])"
      using False by (simp add: new_spec_def)
    with Cons.IH False show ?thesis by simp
  qed
qed


lemma distinct_new_spec: "distinct (new_spec found sc)"
  by (simp add: new_spec_def distinct_dedup_first)

lemma set_new_spec [simp]: "set (new_spec found sc) = set found - set sc"
  by (auto simp: new_spec_def)

lemma search_core_found:
  "found_indices f code \<noteq> [] \<Longrightarrow>
   search_core f code sc =
     (Found (found_indices f code) (new_spec (found_indices f code) sc)
        (length sc + length (new_spec (found_indices f code) sc)),
      sc @ new_spec (found_indices f code) sc)"
  by (simp add: search_core_def add_scanned_acc Let_def)

lemma search_core_not_found:
  "found_indices f code = [] \<Longrightarrow> search_core f code sc = (NotFound code, sc)"
  by (simp add: search_core_def)

lemma search_core_cases:
  obtains (found) "found_indices f code \<noteq> []"
      "search_core f code sc =
         (Found (found_indices f code) (new_spec (found_indices f code) sc)
            (length sc + length (new_spec (found_indices f code) sc)),
          sc @ new_spec (found_indices f code) sc)"
  | (not_found) "found_indices f code = []" "search_core f code sc = (NotFound code, sc)"
  using search_core_found search_core_not_found by blast

lemma valid_scanned_search_core:
  assumes "valid_scanned (nrows f) sc"
  shows "valid_scanned (nrows f) (snd (search_core f code sc))"
proof (cases rule: search_core_cases [of f code sc])
  case found
  have "distinct (sc @ new_spec (found_indices f code) sc)"
    using assms distinct_new_spec by (auto simp: valid_scanned_def)
  moreover have "\<forall>i \<in> set (new_spec (found_indices f code) sc). i < nrows f"
    using found_indices_bound by auto
  ultimately show ?thesis using assms found(2) by (auto simp: valid_scanned_def)
next
  case not_found
  with assms show ?thesis by simp
qed

lemma valid_scanned_length: "valid_scanned n sc \<Longrightarrow> length sc \<le> n"
proof -
  assume v: "valid_scanned n sc"
  then have "set sc \<subseteq> {..<n}" by (auto simp: valid_scanned_def)
  then have "card (set sc) \<le> n" using card_mono[of "{..<n}"] by fastforce
  with v show ?thesis by (simp add: valid_scanned_def distinct_card)
qed

lemma valid_scanned_complete:
  assumes "valid_scanned n sc" and "{..<n} \<subseteq> set sc"
  shows "length sc = n"
proof -
  have "set sc = {..<n}" using assms by (auto simp: valid_scanned_def)
  moreover have "distinct sc" using assms(1) by (simp add: valid_scanned_def)
  ultimately show ?thesis by (metis card_lessThan distinct_card)
qed

lemma new_spec_found_again:
  "new_spec found (sc @ new_spec found sc) = []"
  by (auto simp: new_spec_def filter_empty_conv)

lemma found_indices_no_rows: "rows f = [] \<Longrightarrow> found_indices f code = []"
proof -
  assume "rows f = []"
  then have "set (found_indices f code) = {}" by (simp add: set_found_indices nrows_def)
  then show ?thesis by simp
qed

lemma search_core_records:
  assumes "wf_frame f"
  shows "search_core (frame_of_records (to_records f)) code sc = search_core f code sc"
proof (cases "rows f = []")
  case True
  then have "rows (frame_of_records (to_records f)) = []"
    by (simp add: frame_of_records_def to_records_def Let_def)
  with True show ?thesis by (simp add: search_core_not_found found_indices_no_rows)
next
  case False
  with assms show ?thesis by (simp add: frame_of_records_to_records)
qed

lemma int_str_not_float: "cell_str x = int_str k \<Longrightarrow> x \<notin> range CFloat"
proof
  assume s: "cell_str x = int_str k" and "x \<in> range CFloat"
  then obtain k' where "x = CFloat k'" by blast
  with s have "set (int_str k' @ ''.0'') = set (int_str k)" by simp
  moreover have "CHR ''.'' \<in> set (int_str k' @ ''.0'')" by simp
  ultimately show False using dot_notin_int_str [of k] by simp
qed

lemma count_matches_of:
  "count_list (matches_of code cs) i = (if i < length cs \<and> cell_str (cs ! i) = code then 1 else 0)"
proof -
  have d: "distinct (matches_of code cs)" by (simp add: matches_of_def)
  then show ?thesis by (simp add: count_list_distinct set_matches_of)
qed

subsection \<open>Properties of the scan matcher\<close>

text \<open>
  C17: The loop that adds found rows (lines 155--158 of \<open>App.py\<close>) computes the reference: the new rows are the found rows not scanned before, each once, in the order first found, and the scanned list becomes the old one followed by them.
\<close>

theorem add_scanned_reference:
  "add_scanned found sc [] =
     (sc @ dedup_first (filter (\<lambda>i. i \<notin> set sc) found), dedup_first (filter (\<lambda>i. i \<notin> set sc) found))"
  by (simp add: add_scanned_acc new_spec_def)

text \<open>
  C18: The search loop finds a row exactly when the row exists and one of its cells, in any column, prints as the code.
\<close>

theorem found_indices_rows:
  "i \<in> set (found_indices f code) \<longleftrightarrow>
     i < nrows f \<and> (\<exists>c \<in> set (columns f). cell_str (record_get (to_records f ! i) c) = code)"
  by (auto simp: set_found_indices nth_series nth_to_records)

text \<open>
  C22: The reported matches count cells, not rows: a row is listed in \<open>matched_indices\<close> once for every column whose cell prints as the code, so a row holding the code in two columns is listed twice and the message's record count counts it twice.
\<close>

theorem duplicate_matches:
  assumes "i < nrows f"
  shows "count_list (found_indices f code) i = length (filter (\<lambda>c. cell_str (series f c ! i) = code) (columns f))"
proof -
  have "count_list (found_indices f code) i =
      sum_list (map (\<lambda>c. count_list (matches_of code (series f c)) i) (columns f))"
    by (simp add: found_indices_eq_spec found_spec_def count_list_concat comp_def)
  also have "\<dots> = sum_list (map (\<lambda>c. if cell_str (series f c ! i) = code then 1 else 0) (columns f))"
    using assms by (simp add: count_matches_of)
  also have "\<dots> = length (filter (\<lambda>c. cell_str (series f c ! i) = code) (columns f))"
    by (rule sum_list_indicator)
  finally show ?thesis .
qed

text \<open>
  C23: An empty cell prints as \<open>nan\<close>: scanning the text \<open>nan\<close> marks every row that has an empty cell in some column.
\<close>

theorem nan_code_matches_empty_cells:
  assumes "wf_frame f" and "i < nrows f" and "c \<in> set (columns f)"
    and "record_get (to_records f ! i) c = CNaN"
  shows "i \<in> set (found_indices f ''nan'')"
proof -
  have "cell_str (series f c ! i) = ''nan''"
    using assms(2,4) by (simp add: nth_series nth_to_records)
  with assms(2,3) show ?thesis by (auto simp: set_found_indices)
qed

text \<open>
  C24: Integer codes never match float cells: an integer cell prints as the integer, but an integral float cell (an integer column with an empty cell is read as floats) prints with a trailing \<open>.0\<close>, so no float cell prints as any integer; the rows an integer code finds are exactly those with a non-float cell printing as it, so a code column read as floats is never matched.
\<close>

theorem float_cells_miss_integer_codes:
  "cell_str (CInt k) = int_str k \<and> cell_str (CFloat k') \<noteq> int_str k \<and>
   set (found_indices f (int_str k)) =
     {i. i < nrows f \<and> (\<exists>c \<in> set (columns f). series f c ! i \<notin> range CFloat \<and> cell_str (series f c ! i) = int_str k)}"
  using int_str_not_float [of "CFloat k'" k] int_str_not_float [of _ k]
  by (auto simp: set_found_indices)

end
