(* ===== verification/Report.thy ===== *)
theory Report
  imports Scan
begin

section \<open>The progress tracker and the exporter\<close>

text \<open>
  The computations of \<open>get_stats\<close> (\<open>src/App.py\<close> lines 193--203,
  \<open>src/inventory_flask_app.py\<close> lines 126--136) and of
  \<open>export_results\<close> (\<open>App.py\<close> lines 219--234, the other file lines
  147--162), once the handler has the data set, the scanned list and the
  file name. The handlers in \<open>Cookie_App\<close> and \<open>Disk_App\<close> differ only
  in where they read these from.
\<close>

subsection \<open>Statistics\<close>

record stats =
  total_items :: nat
  scanned_count :: nat
  pending_items :: int
  progress :: rat

text \<open>
  \<open>pending_items = total_items - scanned_items\<close> is a Python integer and
  could be negative; \<open>progress\<close> is
  \<open>round((scanned / total * 100) if total > 0 else 0, 2)\<close>.
\<close>

definition stats_of :: "nat \<Rightarrow> nat \<Rightarrow> stats" where
  "stats_of n k =
     \<lparr>total_items = n, scanned_count = k,
      pending_items = int n - int k,
      progress = py_round2 (if 0 < n then of_nat k / of_nat n * 100 else 0)\<rparr>"

subsection \<open>Export\<close>

record export_result =
  exp_filename :: string
  exp_data :: "record_row list"
  exp_total :: nat
  exp_scanned :: nat
  exp_pending :: int

definition STATUS_COLUMN :: column_name where
  "STATUS_COLUMN = ''Estado_Revision''"

text \<open>\<open>'Escaneado' if x in scanned_items else 'Pendiente'\<close>.\<close>

definition status_label :: "row_index list \<Rightarrow> row_index \<Rightarrow> string" where
  "status_label sc i = (if i \<in> set sc then ''Escaneado'' else ''Pendiente'')"

text \<open>
  \<open>df['Estado_Revision'] = df.index.map(...)\<close> on a copy, then the records
  and the summary counts.
\<close>

definition export_of :: "string \<Rightarrow> frame \<Rightarrow> row_index list \<Rightarrow> export_result" where
  "export_of fname f sc =
     (let df = set_column STATUS_COLUMN (map (\<lambda>i. CStr (status_label sc i)) [0..<nrows f]) f
      in \<lparr>exp_filename = fname, exp_data = to_records df, exp_total = nrows df,
          exp_scanned = length sc, exp_pending = int (nrows df) - int (length sc)\<rparr>)"

subsection \<open>Lemmas\<close>

lemma export_of_no_rows:
  "rows f = [] \<Longrightarrow> rows g = [] \<Longrightarrow> export_of fn f sc = export_of fn g sc"
  by (simp add: export_of_def set_column_def to_records_def nrows_def Let_def)

lemma export_of_records:
  assumes "wf_frame f"
  shows "export_of fn (frame_of_records (to_records f)) sc = export_of fn f sc"
proof (cases "rows f = []")
  case True
  then have g: "rows (frame_of_records (to_records f)) = []"
    by (simp add: frame_of_records_def to_records_def Let_def)
  show ?thesis by (rule export_of_no_rows [OF g True])
next
  case False
  with assms show ?thesis by (simp add: frame_of_records_to_records)
qed

lemma stats_of_bounds:
  assumes "k \<le> n"
  shows "0 \<le> pending_items (stats_of n k) \<and> 0 \<le> progress (stats_of n k) \<and> progress (stats_of n k) \<le> 100"
proof (cases "0 < n")
  case True
  have kn: "rat_of_nat k * 100 \<le> rat_of_nat n * 100" using assms by simp
  have "rat_of_nat k * 100 / rat_of_nat n \<le> 100"
    using kn True by (simp add: pos_divide_le_eq)
  moreover have "0 \<le> rat_of_nat k * 100 / rat_of_nat n" by simp
  ultimately show ?thesis
    using True assms py_round2_bounds by (simp add: stats_of_def)
next
  case False
  then show ?thesis using assms py_round2_bounds[of 0] by (simp add: stats_of_def)
qed

subsection \<open>Properties of the progress tracker\<close>

lemma py_round2_100: "py_round2 100 = 100"
proof -
  have "round_half_even (100 * 100) = 10000"
    using round_half_even_of_int [of 10000] by simp
  then show ?thesis by (simp add: py_round2_def)
qed

lemma stats_of_complete:
  "0 < n \<Longrightarrow> scanned_count (stats_of n n) = n \<and> pending_items (stats_of n n) = 0 \<and> progress (stats_of n n) = 100"
  by (simp add: stats_of_def py_round2_100)

text \<open>
  C21: Progress of 0 scanned rows is 0 and of all rows is 100 (with the pending count the total and 0), and an empty sheet reports progress 0.
\<close>

theorem progress_endpoints:
  assumes "0 < n"
  shows "progress (stats_of n 0) = 0 \<and> progress (stats_of n n) = 100 \<and>
         pending_items (stats_of n 0) = int n \<and> pending_items (stats_of n n) = 0 \<and>
         progress (stats_of 0 0) = 0"
proof -
  have "py_round2 0 = 0" using round_half_even_of_int [of 0] by (simp add: py_round2_def)
  moreover have "py_round2 100 = 100"
  proof -
    have "round_half_even (100 * 100) = 10000"
      using round_half_even_of_int [of 10000] by simp
    then show ?thesis by (simp add: py_round2_def)
  qed
  ultimately show ?thesis using assms by (simp add: stats_of_def)
qed

end
