(* ===== verification/Session.thy ===== *)
theory Session
  imports Upload Report
begin

section \<open>The session: the abstract specification both applications implement\<close>

text \<open>
  The data model of the specification: a session owns one data set, one
  list of scanned row indices and a file name, or nothing before the first
  upload and after a reset. The requests are the five endpoints; each is a
  function from the session to the response and the next session, built
  from the components both applications share (the upload guards, the scan
  matcher, the statistics and the export). \<open>Cookie_App\<close> and
  \<open>Disk_App\<close> prove that each application implements this step function.
\<close>

subsection \<open>The search request\<close>

text \<open>
  The JSON body of \<open>/search\<close>: not a JSON object (\<open>data.get\<close> raises),
  no \<open>barcode\<close> key (the default \<open>''\<close>), a string, or another JSON value
  (\<open>.strip()\<close> raises).
\<close>

datatype barcode_field = NoJsonObject | NoBarcodeKey | BarcodeStr string | BarcodeNonStr

text \<open>\<open>barcode = data.get('barcode', '').strip()\<close>.\<close>

definition read_barcode :: "barcode_field \<Rightarrow> error + string" where
  "read_barcode b =
     (case b of
        NoJsonObject \<Rightarrow> Inl Exception
      | NoBarcodeKey \<Rightarrow> Inr (py_strip [])
      | BarcodeStr s \<Rightarrow> Inr (py_strip s)
      | BarcodeNonStr \<Rightarrow> Inl Exception)"

subsection \<open>Sessions, requests and responses\<close>

datatype inventory = NoData | Loaded frame "row_index list" string

text \<open>
  A request, with what the environment contributes: the outcome of
  \<open>read_excel\<close> on the uploaded file (\<open>Inl\<close>: it raised).
\<close>

datatype event =
    EUpload file_field "unit + frame"
  | ESearch barcode_field
  | EStats
  | EExport
  | EReset

datatype response =
    RUpload upload_info
  | RSearch search_outcome
  | RStats stats
  | RExport export_result
  | RReset

subsection \<open>The abstract handlers\<close>

definition inv_upload ::
  "(string \<Rightarrow> string) \<Rightarrow> file_field \<Rightarrow> unit + frame \<Rightarrow> inventory \<Rightarrow> (error + response) \<times> inventory" where
  "inv_upload secure ff parsed st =
     (case upload_check ff of
        Inl e \<Rightarrow> (Inl e, st)
      | Inr fn \<Rightarrow>
          (case parsed of
             Inl _ \<Rightarrow> (Inl Exception, st)
           | Inr f \<Rightarrow> (Inr (RUpload (upload_summary f)), Loaded f [] (secure fn))))"

definition inv_search :: "barcode_field \<Rightarrow> inventory \<Rightarrow> (error + response) \<times> inventory" where
  "inv_search b st =
     (case read_barcode b of
        Inl e \<Rightarrow> (Inl e, st)
      | Inr code \<Rightarrow>
          if code = [] then (Inl EmptyBarcode, st)
          else (case st of
                  NoData \<Rightarrow> (Inl NoDataLoaded, st)
                | Loaded f sc fn \<Rightarrow>
                    (case search_core f code sc of (out, sc') \<Rightarrow> (Inr (RSearch out), Loaded f sc' fn))))"

definition inv_stats :: "inventory \<Rightarrow> error + response" where
  "inv_stats st =
     (case st of
        NoData \<Rightarrow> Inl NoDataLoaded
      | Loaded f sc fn \<Rightarrow> Inr (RStats (stats_of (nrows f) (length sc))))"

definition inv_export :: "inventory \<Rightarrow> error + response" where
  "inv_export st =
     (case st of
        NoData \<Rightarrow> Inl NoDataLoaded
      | Loaded f sc fn \<Rightarrow> Inr (RExport (export_of fn f sc)))"

fun inv_step :: "(string \<Rightarrow> string) \<Rightarrow> event \<Rightarrow> inventory \<Rightarrow> (error + response) \<times> inventory" where
  "inv_step secure (EUpload ff parsed) st = inv_upload secure ff parsed st"
| "inv_step secure (ESearch b) st = inv_search b st"
| "inv_step secure EStats st = (inv_stats st, st)"
| "inv_step secure EExport st = (inv_export st, st)"
| "inv_step secure EReset st = (Inr RReset, NoData)"

text \<open>A run: the responses to a sequence of requests, and the final session.\<close>

fun inv_run :: "(string \<Rightarrow> string) \<Rightarrow> event list \<Rightarrow> inventory \<Rightarrow> (error + response) list \<times> inventory" where
  "inv_run secure [] st = ([], st)"
| "inv_run secure (e # es) st =
     (case inv_step secure e st of
        (r, st') \<Rightarrow> (case inv_run secure es st' of (rs, st'') \<Rightarrow> (r # rs, st'')))"

subsection \<open>Invariant and reachable sessions\<close>

text \<open>
  \<open>read_excel\<close> returns well-formed frames; an upload event is admissible
  when its frame is.
\<close>

fun wf_event :: "event \<Rightarrow> bool" where
  "wf_event (EUpload ff (Inr f)) = wf_frame f"
| "wf_event _ = True"

definition inv_ok :: "inventory \<Rightarrow> bool" where
  "inv_ok st =
     (case st of
        NoData \<Rightarrow> True
      | Loaded f sc fn \<Rightarrow> wf_frame f \<and> valid_scanned (nrows f) sc)"

inductive inv_reachable :: "(string \<Rightarrow> string) \<Rightarrow> inventory \<Rightarrow> bool" for secure where
  start: "inv_reachable secure NoData"
| step: "inv_reachable secure st \<Longrightarrow> wf_event e \<Longrightarrow> inv_reachable secure (snd (inv_step secure e st))"

subsection \<open>Lemmas: every step keeps the invariant\<close>

lemma inv_ok_upload:
  "inv_ok st \<Longrightarrow> wf_event (EUpload ff parsed) \<Longrightarrow> inv_ok (snd (inv_upload secure ff parsed st))"
  by (auto simp: inv_upload_def inv_ok_def valid_scanned_def split: sum.split)

lemma inv_ok_search: "inv_ok st \<Longrightarrow> inv_ok (snd (inv_search b st))"
proof -
  assume ok: "inv_ok st"
  show ?thesis
  proof (cases st)
    case NoData
    then show ?thesis by (simp add: inv_search_def inv_ok_def split: sum.split)
  next
    case (Loaded f sc fn)
    with ok have "wf_frame f" "valid_scanned (nrows f) sc" by (simp_all add: inv_ok_def)
    then have "valid_scanned (nrows f) (snd (search_core f code sc))" for code
      by (simp add: valid_scanned_search_core)
    with Loaded ok show ?thesis
      by (auto simp: inv_search_def inv_ok_def split_def split: sum.split)
  qed
qed

lemma inv_ok_step:
  assumes "inv_ok st" and "wf_event e"
  shows "inv_ok (snd (inv_step secure e st))"
proof (cases e)
  case (EUpload ff parsed)
  with assms show ?thesis by (simp add: inv_ok_upload)
next
  case (ESearch b)
  with assms show ?thesis by (simp add: inv_ok_search)
next
  case EStats
  with assms show ?thesis by simp
next
  case EExport
  with assms show ?thesis by simp
next
  case EReset
  then show ?thesis by (simp add: inv_ok_def)
qed

lemma snd_inv_run_Cons:
  "snd (inv_run secure (e # es) st) = snd (inv_run secure es (snd (inv_step secure e st)))"
  by (simp split: prod.split)

lemma inv_run_ok: "inv_ok st \<Longrightarrow> \<forall>e \<in> set es. wf_event e \<Longrightarrow> inv_ok (snd (inv_run secure es st))"
proof (induction es arbitrary: st)
  case Nil
  then show ?case by simp
next
  case (Cons e es)
  then have "inv_ok (snd (inv_step secure e st))" by (simp add: inv_ok_step)
  with Cons.IH Cons.prems(2) show ?case by (simp only: snd_inv_run_Cons) simp
qed

subsection \<open>Properties of the abstract session\<close>

text \<open>
  The invariant holds in every session reachable by requests from the initial one (uploads of well-formed sheets): a loaded session holds a well-formed frame and a scanned list without duplicates whose indices are rows of the frame.
\<close>

lemma inv_reachable_ok: "inv_reachable secure st \<Longrightarrow> inv_ok st"
proof (induction rule: inv_reachable.induct)
  case start
  show ?case by (simp add: inv_ok_def)
next
  case (step st e)
  then show ?case by (simp add: inv_ok_step)
qed

end
