(* ===== verification/Cookie_App.thy ===== *)
theory Cookie_App
  imports Session "HOL-Library.List_Lexorder" "HOL-Library.Char_ord"
begin

section \<open>The in-session application: \<open>src/inventory_flask_app.py\<close>\<close>

text \<open>
  This variant keeps everything in Flask's signed cookie session: the
  records of the sheet (\<open>df_data\<close>), the column names, the scanned indices
  and the file name. Every handler rebuilds the frame with
  \<open>pd.DataFrame(session['df_data'])\<close>. The state is the session
  dictionary, one optional field per key; the handlers return the response
  (an error or a result) and the new session, and \<open>cookie_step\<close> adds the
  JSON round trip the session makes between two requests. The theory
  proves that the application implements the specification of \<open>Session\<close>
  up to the orders that round trip changes, and the properties of the
  handlers one by one.
\<close>

record cookie_session =
  df_data :: "record_row list option"
  df_columns :: "column_name list option"
  scanned_items :: "row_index list option"
  filename :: "string option"

text \<open>A fresh session, and the result of \<open>session.clear()\<close>.\<close>

definition empty_cookie :: cookie_session where
  "empty_cookie = \<lparr>df_data = None, df_columns = None, scanned_items = None, filename = None\<rparr>"

text \<open>\<open>session.get('scanned_items', [])\<close>.\<close>

definition get_scanned :: "cookie_session \<Rightarrow> row_index list" where
  "get_scanned s = (case scanned_items s of None \<Rightarrow> [] | Some sc \<Rightarrow> sc)"

subsection \<open>Handlers\<close>

text \<open>\<open>upload_file\<close>, lines 25--64.\<close>

definition cookie_upload ::
  "(string \<Rightarrow> string) \<Rightarrow> file_field \<Rightarrow> unit + frame \<Rightarrow> cookie_session \<Rightarrow> (error + response) \<times> cookie_session" where
  "cookie_upload secure ff parsed s =
     (case upload_check ff of
        Inl e \<Rightarrow> (Inl e, s)
      | Inr fn \<Rightarrow>
          (case parsed of
             Inl _ \<Rightarrow> (Inl Exception, s)
           | Inr f \<Rightarrow>
               (Inr (RUpload (upload_summary f)),
                s\<lparr>df_data := Some (to_records f), df_columns := Some (columns f),
                  scanned_items := Some [], filename := Some (secure fn)\<rparr>)))"

text \<open>\<open>search_barcode\<close>, lines 66--118.\<close>

definition cookie_search :: "barcode_field \<Rightarrow> cookie_session \<Rightarrow> (error + response) \<times> cookie_session" where
  "cookie_search b s =
     (case read_barcode b of
        Inl e \<Rightarrow> (Inl e, s)
      | Inr code \<Rightarrow>
          if code = [] then (Inl EmptyBarcode, s)
          else (case df_data s of
                  None \<Rightarrow> (Inl NoDataLoaded, s)
                | Some recs \<Rightarrow>
                    (case search_core (frame_of_records recs) code (get_scanned s) of
                       (Found m n t, sc') \<Rightarrow> (Inr (RSearch (Found m n t)), s\<lparr>scanned_items := Some sc'\<rparr>)
                     | (NotFound c, sc') \<Rightarrow> (Inr (RSearch (NotFound c)), s))))"

text \<open>\<open>get_stats\<close>, lines 120--139.\<close>

definition cookie_stats :: "cookie_session \<Rightarrow> error + response" where
  "cookie_stats s =
     (case df_data s of
        None \<Rightarrow> Inl NoDataLoaded
      | Some recs \<Rightarrow> Inr (RStats (stats_of (length recs) (length (get_scanned s)))))"

text \<open>\<open>export_results\<close>, lines 141--167.\<close>

definition cookie_export :: "cookie_session \<Rightarrow> error + response" where
  "cookie_export s =
     (case df_data s of
        None \<Rightarrow> Inl NoDataLoaded
      | Some recs \<Rightarrow>
          Inr (RExport (export_of (case filename s of None \<Rightarrow> ''inventario'' | Some fn \<Rightarrow> fn)
                          (frame_of_records recs) (get_scanned s))))"

text \<open>\<open>reset_session\<close>, lines 169--175.\<close>

definition cookie_reset :: "cookie_session \<Rightarrow> (error + response) \<times> cookie_session" where
  "cookie_reset s = (Inr RReset, empty_cookie)"

subsection \<open>The session cookie between requests\<close>

text \<open>
  Flask keeps the session in a signed cookie. When a handler has written
  the session (\<open>session.modified\<close>: an assignment \<open>session[...] = ...\<close> or
  \<open>session.clear()\<close>), Flask serializes it to JSON after the handler
  returns and sends it in a \<open>Set-Cookie\<close> header; otherwise it sends no
  header and the browser keeps the cookie it had. The serializer writes
  every JSON object with \<open>sort_keys=True\<close>, and the next request decodes
  that JSON. So each record of \<open>df_data\<close> (a dictionary from the column
  names to the cells, line 45, \<open>convertir a JSON\<close>) comes back with its
  keys in sorted order, by code point; the lists \<open>df_columns\<close> and
  \<open>scanned_items\<close> and the file name come back as they were, and so do
  the cells (strings, ints, integral floats, booleans, and NaN, which the
  serializer writes as \<open>NaN\<close>).
\<close>

text \<open>
  A record after the round trip. Its keys are the column names of one
  dictionary, so no key occurs twice and the order is determined.
\<close>

definition json_record :: "record_row \<Rightarrow> record_row" where
  "json_record r = sort_key fst r"

definition json_session :: "cookie_session \<Rightarrow> cookie_session" where
  "json_session s = s\<lparr>df_data := map_option (map json_record) (df_data s)\<rparr>"

text \<open>
  Which handlers write the session: \<open>upload_file\<close> writes the four keys
  on success (lines 45--48), \<open>search_barcode\<close> writes \<open>scanned_items\<close> only
  when the code was found (line 100), \<open>reset_session\<close> clears the session
  (line 172); the error paths, a code not found, \<open>/stats\<close> and
  \<open>/export\<close> write nothing. (Every error of \<open>upload_file\<close> that
  \<open>cookie_upload\<close> models is raised before line 45; an \<open>os.remove\<close> that
  fails after line 48 leaves the session written, which \<open>Loader_Apps\<close>
  models with the upload folder.)
\<close>

fun sets_cookie :: "event \<Rightarrow> error + response \<Rightarrow> bool" where
  "sets_cookie (EUpload ff parsed) x = (case x of Inr _ \<Rightarrow> True | Inl _ \<Rightarrow> False)"
| "sets_cookie (ESearch b) x = (case x of Inr (RSearch (Found m n t)) \<Rightarrow> True | _ \<Rightarrow> False)"
| "sets_cookie EStats x = False"
| "sets_cookie EExport x = False"
| "sets_cookie EReset x = True"

text \<open>
  The application: the route a request reaches, then what Flask does
  after the handler returns; and a sequence of requests, each one seeing
  the cookie the previous one left.
\<close>

fun cookie_handle :: "(string \<Rightarrow> string) \<Rightarrow> event \<Rightarrow> cookie_session \<Rightarrow> (error + response) \<times> cookie_session" where
  "cookie_handle secure (EUpload ff parsed) s = cookie_upload secure ff parsed s"
| "cookie_handle secure (ESearch b) s = cookie_search b s"
| "cookie_handle secure EStats s = (cookie_stats s, s)"
| "cookie_handle secure EExport s = (cookie_export s, s)"
| "cookie_handle secure EReset s = cookie_reset s"

definition cookie_step :: "(string \<Rightarrow> string) \<Rightarrow> event \<Rightarrow> cookie_session \<Rightarrow> (error + response) \<times> cookie_session" where
  "cookie_step secure e s =
     (case cookie_handle secure e s of
        (x, s') \<Rightarrow> (x, if sets_cookie e x then json_session s' else s))"

fun cookie_run :: "(string \<Rightarrow> string) \<Rightarrow> event list \<Rightarrow> cookie_session \<Rightarrow> (error + response) list \<times> cookie_session" where
  "cookie_run secure [] s = ([], s)"
| "cookie_run secure (e # es) s =
     (case cookie_step secure e s of
        (r, s') \<Rightarrow> (case cookie_run secure es s' of (rs, s'') \<Rightarrow> (r # rs, s'')))"

subsection \<open>The abstraction\<close>

text \<open>
  The application implements the session specification of \<open>Session\<close> up
  to what the round trip changes. Its records come back with sorted keys,
  so \<open>pd.DataFrame(session['df_data'])\<close> has its columns in sorted order
  and \<open>search_barcode\<close> visits them in that order: \<open>matched_indices\<close>,
  \<open>new_scanned\<close> and the order of \<open>scanned_items\<close> can differ from the
  specification's, which visits the sheet's columns in the sheet's order;
  their elements and counts do not. The records of an export have their
  keys in another order; \<open>jsonify\<close> writes them sorted, so that response
  is the same on the wire. The views below forget exactly these orders,
  and \<open>cookie_rel\<close> relates an abstract session to the cookies that hold it.
\<close>

fun outcome_view :: "search_outcome \<Rightarrow> search_outcome" where
  "outcome_view (Found m n t) = Found (sort m) (sort n) t"
| "outcome_view (NotFound c) = NotFound c"

fun response_view :: "response \<Rightarrow> response" where
  "response_view (RSearch out) = RSearch (outcome_view out)"
| "response_view (RExport r) = RExport (r\<lparr>exp_data := map json_record (exp_data r)\<rparr>)"
| "response_view (RUpload u) = RUpload u"
| "response_view (RStats t) = RStats t"
| "response_view RReset = RReset"

fun cookie_rel :: "inventory \<Rightarrow> cookie_session \<Rightarrow> bool" where
  "cookie_rel NoData s = (s = empty_cookie)"
| "cookie_rel (Loaded f sc fn) s =
     (df_data s = Some (map json_record (to_records f)) \<and> df_columns s = Some (columns f) \<and>
      scanned_items s \<noteq> None \<and> mset (get_scanned s) = mset sc \<and> filename s = Some fn)"

subsection \<open>Lemmas\<close>

lemma record_get_json_record [simp]: "record_get (json_record r) c = record_get r c"
  by (simp add: record_get_def json_record_def map_of_sort_key)

lemma keys_json_record: "set (map fst (json_record r)) = set (map fst r)"
  by (metis json_record_def map_fst_sort_key set_sort)

lemma json_record_idem [simp]: "json_record (json_record r) = json_record r"
  by (simp add: json_record_def map_fst_sort_key sort_key_id_if_sorted)

lemma json_record_eq:
  assumes "distinct (map fst r1)" and "distinct (map fst r2)"
    and "set (map fst r1) = set (map fst r2)" and "\<forall>c. record_get r1 c = record_get r2 c"
  shows "json_record r1 = json_record r2"
proof -
  have "map_of r1 c = map_of r2 c" for c
  proof (cases "c \<in> set (map fst r1)")
    case True
    then obtain v1 v2 where "map_of r1 c = Some v1" "map_of r2 c = Some v2"
      using assms(3) by (metis map_of_eq_None_iff not_None_eq set_map)
    then show ?thesis using assms(4) by (metis option.simps(5) record_get_def)
  next
    case False
    then show ?thesis using assms(3) by (metis map_of_eq_None_iff set_map)
  qed
  then show ?thesis unfolding json_record_def using assms(1,2) by (intro sort_key_fst_eq) auto
qed

lemma keys_to_records:
  "wf_frame f \<Longrightarrow> r \<in> set (to_records f) \<Longrightarrow> map fst r = columns f"
  by (auto simp: wf_frame_def to_records_def)

lemma keys_json_to_records:
  "wf_frame f \<Longrightarrow> r \<in> set (to_records f) \<Longrightarrow> map fst (json_record r) = sort (columns f)"
  by (simp add: json_record_def map_fst_sort_key keys_to_records)

lemma columns_json_frame:
  assumes "wf_frame f" and "rows f \<noteq> []"
  shows "columns (frame_of_records (map json_record (to_records f))) = sort (columns f)"
proof -
  have "distinct (sort (columns f))" using assms(1) by (simp add: wf_frame_def)
  moreover have "map (map fst) (map json_record (to_records f)) \<noteq> []"
    using assms(2) by (simp add: to_records_def)
  moreover have "\<forall>ks \<in> set (map (map fst) (map json_record (to_records f))). ks = sort (columns f)"
    using assms(1) keys_json_to_records by auto
  ultimately show ?thesis by (simp add: frame_of_records_def Let_def remdups_concat_same)
qed

lemma record_get_json_frame:
  "i < nrows f \<Longrightarrow> record_get (to_records (frame_of_records (map json_record (to_records f))) ! i) c =
     record_get (to_records f ! i) c"
  by (simp add: record_get_frame_of_records)

lemma series_frame_of_records:
  "series (frame_of_records rs) c = map (\<lambda>r. record_get r c) rs"
proof (rule nth_equalityI)
  fix i assume "i < length (series (frame_of_records rs) c)"
  then have i: "i < length rs" by simp
  then have "series (frame_of_records rs) c ! i = record_get (to_records (frame_of_records rs) ! i) c"
    by (simp add: nth_series nth_to_records)
  with i show "series (frame_of_records rs) c ! i = map (\<lambda>r. record_get r c) rs ! i"
    by (simp add: record_get_frame_of_records)
qed simp

lemma mset_columns_json_records:
  "mset (columns (frame_of_records (map json_record rs))) = mset (columns (frame_of_records rs))"
proof -
  have "set (concat (map (map fst) (map json_record rs))) = set (concat (map (map fst) rs))"
    using keys_json_record by auto
  then show ?thesis by (simp add: frame_of_records_def Let_def set_eq_iff_mset_eq_distinct [symmetric])
qed

text \<open>
  The search on the records after the round trip finds the rows the search
  on the records before it finds, each as often, in another order.
\<close>

lemma mset_found_json_records:
  "mset (found_indices (frame_of_records (map json_record rs)) code) = mset (found_indices (frame_of_records rs) code)"
proof -
  have "mset (concat (map (\<lambda>c. matches_of code (map (\<lambda>r. record_get r c) rs)) (columns (frame_of_records (map json_record rs))))) =
        mset (concat (map (\<lambda>c. matches_of code (map (\<lambda>r. record_get r c) rs)) (columns (frame_of_records rs))))"
    by (rule mset_concat_map_perm) (rule mset_columns_json_records)
  then show ?thesis by (simp add: found_indices_eq_spec found_spec_def series_frame_of_records o_def)
qed

lemma found_indices_records:
  assumes "wf_frame f"
  shows "found_indices (frame_of_records (to_records f)) code = found_indices f code"
proof (cases "rows f = []")
  case True
  then show ?thesis by (simp add: found_indices_no_rows to_records_def frame_of_records_def Let_def)
qed (simp add: assms frame_of_records_to_records)

lemma mset_found_json_frame:
  "wf_frame f \<Longrightarrow> mset (found_indices (frame_of_records (map json_record (to_records f))) code) = mset (found_indices f code)"
  by (simp add: mset_found_json_records found_indices_records)

lemma json_records_eq:
  assumes "wf_frame f1" and "wf_frame f2" and "nrows f1 = nrows f2"
    and "set (columns f1) = set (columns f2)"
    and "\<forall>i < nrows f1. \<forall>c. record_get (to_records f1 ! i) c = record_get (to_records f2 ! i) c"
  shows "map json_record (to_records f1) = map json_record (to_records f2)"
proof (rule nth_equalityI)
  show "length (map json_record (to_records f1)) = length (map json_record (to_records f2))"
    using assms(3) by simp
next
  fix i assume "i < length (map json_record (to_records f1))"
  then have i: "i < nrows f1" by simp
  have k1: "map fst (to_records f1 ! i) = columns f1"
    using keys_to_records [OF assms(1)] i by simp
  have k2: "map fst (to_records f2 ! i) = columns f2"
    using keys_to_records [OF assms(2)] i assms(3) by simp
  have "json_record (to_records f1 ! i) = json_record (to_records f2 ! i)"
    using assms(1,2,4,5) i k1 k2 by (intro json_record_eq) (simp_all add: wf_frame_def)
  then show "map json_record (to_records f1) ! i = map json_record (to_records f2) ! i"
    using i assms(3) by simp
qed

lemma export_json_frame:
  assumes "wf_frame f" and "set sc' = set sc" and "length sc' = length sc"
  shows "response_view (RExport (export_of fn (frame_of_records (map json_record (to_records f))) sc')) =
         response_view (RExport (export_of fn f sc))"
proof (cases "rows f = []")
  case True
  then show ?thesis using assms(3)
    by (simp add: export_of_def set_column_def to_records_def nrows_def frame_of_records_def Let_def)
next
  case False
  let ?g = "frame_of_records (map json_record (to_records f))"
  let ?v = "\<lambda>sc. map (\<lambda>i. CStr (status_label sc i)) [0..<nrows f]"
  have wg: "wf_frame ?g" by (rule wf_frame_of_records)
  have n: "nrows ?g = nrows f" by simp
  have sl: "status_label sc' = status_label sc" using assms(2) by (simp add: status_label_def fun_eq_iff)
  have "map json_record (to_records (set_column STATUS_COLUMN (?v sc) ?g)) =
        map json_record (to_records (set_column STATUS_COLUMN (?v sc) f))"
  proof (rule json_records_eq)
    show "wf_frame (set_column STATUS_COLUMN (?v sc) ?g)" using wg n by (intro wf_set_column) simp_all
    show "wf_frame (set_column STATUS_COLUMN (?v sc) f)" using assms(1) by (intro wf_set_column) simp_all
    show "nrows (set_column STATUS_COLUMN (?v sc) ?g) = nrows (set_column STATUS_COLUMN (?v sc) f)"
      using n by simp
    show "set (columns (set_column STATUS_COLUMN (?v sc) ?g)) = set (columns (set_column STATUS_COLUMN (?v sc) f))"
      using assms(1) False by (simp add: columns_set_column columns_json_frame)
    show "\<forall>i < nrows (set_column STATUS_COLUMN (?v sc) ?g). \<forall>c.
            record_get (to_records (set_column STATUS_COLUMN (?v sc) ?g) ! i) c =
            record_get (to_records (set_column STATUS_COLUMN (?v sc) f) ! i) c"
    proof (intro allI impI)
      fix i c assume "i < nrows (set_column STATUS_COLUMN (?v sc) ?g)"
      then have i: "i < nrows f" using n by simp
      show "record_get (to_records (set_column STATUS_COLUMN (?v sc) ?g) ! i) c =
            record_get (to_records (set_column STATUS_COLUMN (?v sc) f) ! i) c"
      proof (cases "c = STATUS_COLUMN")
        case True
        then show ?thesis using wg assms(1) n i by (simp add: record_get_set_column_same)
      next
        case False
        then show ?thesis using wg assms(1) n i
          by (simp add: record_get_set_column_other record_get_json_frame)
      qed
    qed
  qed
  then show ?thesis using n sl assms(3) by (simp add: export_of_def Let_def)
qed

lemma search_core_view:
  assumes "mset (found_indices g code) = mset (found_indices f code)" and "mset sc' = mset sc"
  shows "outcome_view (fst (search_core g code sc')) = outcome_view (fst (search_core f code sc)) \<and>
         mset (snd (search_core g code sc')) = mset (snd (search_core f code sc))"
proof (cases "found_indices f code = []")
  case True
  then have "found_indices g code = []" using assms(1) by simp
  with True show ?thesis using assms(2) by (simp add: search_core_not_found)
next
  case False
  then have g: "found_indices g code \<noteq> []" using assms(1) by (metis mset_zero_iff)
  have sets: "set (found_indices g code) = set (found_indices f code)" "set sc' = set sc"
    using assms by (metis set_mset_mset)+
  have "mset (new_spec (found_indices g code) sc') = mset (new_spec (found_indices f code) sc)"
    using sets by (simp add: set_eq_iff_mset_eq_distinct [symmetric] distinct_new_spec)
  moreover have "sort (found_indices g code) = sort (found_indices f code)"
    using assms(1) by (rule sort_mset_eq)
  moreover have "length sc' = length sc" using assms(2) by (metis size_mset)
  moreover have "length (new_spec (found_indices g code) sc') = length (new_spec (found_indices f code) sc)"
    using calculation(1) by (metis size_mset)
  moreover have "sort (new_spec (found_indices g code) sc') = sort (new_spec (found_indices f code) sc)"
    using calculation(1) by (rule sort_mset_eq)
  ultimately show ?thesis using False g assms(2) by (simp add: search_core_found)
qed

subsection \<open>Refinement\<close>

lemma get_scanned_json_session [simp]: "get_scanned (json_session s) = get_scanned s"
  by (simp add: get_scanned_def json_session_def)

lemma cookie_rel_json:
  "cookie_rel st s \<Longrightarrow> json_session s = s"
  by (cases st) (simp_all add: json_session_def empty_cookie_def)

lemma cookie_rel_mset:
  assumes "cookie_rel (Loaded f sc fn) s"
  shows "length (get_scanned s) = length sc" and "set (get_scanned s) = set sc"
    and "distinct (get_scanned s) = distinct sc"
  using assms by (simp_all, metis size_mset, metis set_mset_mset, metis mset_eq_imp_distinct_iff)

lemma cookie_search_sim:
  assumes "inv_ok st" and "cookie_rel st s"
  shows "map_sum id response_view (fst (cookie_step secure (ESearch b) s)) =
           map_sum id response_view (fst (inv_search b st)) \<and>
         cookie_rel (snd (inv_search b st)) (snd (cookie_step secure (ESearch b) s))"
proof (cases st)
  case NoData
  with assms(2) show ?thesis
    by (simp add: cookie_step_def cookie_search_def inv_search_def empty_cookie_def split: sum.split)
next
  case (Loaded f sc fn)
  let ?g = "frame_of_records (map json_record (to_records f))"
  have wf: "wf_frame f" using assms(1) Loaded by (simp add: inv_ok_def)
  have d: "df_data s = Some (map json_record (to_records f))" and m: "mset (get_scanned s) = mset sc"
    using assms(2) Loaded by simp_all
  show ?thesis
  proof (cases "read_barcode b")
    case (Inl e)
    with Loaded assms(2) show ?thesis by (simp add: cookie_step_def cookie_search_def inv_search_def)
  next
    case (Inr code)
    show ?thesis
    proof (cases "code = []")
      case True
      with Inr Loaded assms(2) show ?thesis by (simp add: cookie_step_def cookie_search_def inv_search_def)
    next
      case False
      obtain o1 sc1 where c1: "search_core ?g code (get_scanned s) = (o1, sc1)" by fastforce
      obtain o2 sc2 where c2: "search_core f code sc = (o2, sc2)" by fastforce
      have v: "outcome_view o1 = outcome_view o2" and m1: "mset sc1 = mset sc2"
        using search_core_view [OF mset_found_json_frame [OF wf] m, of code] c1 c2 by simp_all
      show ?thesis
      proof (cases o1)
        case (Found m1 n1 t1)
        then obtain m2 n2 t2 where o2: "o2 = Found m2 n2 t2" using v by (cases o2) simp_all
        show ?thesis
          using Loaded Inr False d c1 c2 Found o2 v m1 assms(2)
          by (simp add: cookie_step_def cookie_search_def inv_search_def json_session_def get_scanned_def)
      next
        case (NotFound c1)
        then have o2: "o2 = NotFound c1" using v by (cases o2) simp_all
        have "sc1 = get_scanned s" using c1 NotFound by (cases rule: search_core_cases [of ?g code "get_scanned s"]) simp_all
        then show ?thesis
          using Loaded Inr False d c1 c2 NotFound o2 m1 assms(2)
          by (simp add: cookie_step_def cookie_search_def inv_search_def)
      qed
    qed
  qed
qed

lemma cookie_step_sim:
  assumes "inv_ok st" and "wf_event e" and "cookie_rel st s"
  shows "map_sum id response_view (fst (cookie_step secure e s)) =
           map_sum id response_view (fst (inv_step secure e st)) \<and>
         cookie_rel (snd (inv_step secure e st)) (snd (cookie_step secure e s))"
proof (cases e)
  case (EUpload ff parsed)
  with assms(3) show ?thesis
    by (cases "upload_check ff"; cases parsed)
       (simp_all add: cookie_step_def cookie_upload_def inv_upload_def json_session_def get_scanned_def)
next
  case (ESearch b)
  with assms show ?thesis by (simp add: cookie_search_sim)
next
  case EStats
  with assms show ?thesis
    by (cases st) (simp_all add: cookie_step_def cookie_stats_def inv_stats_def cookie_rel_mset empty_cookie_def)
next
  case EExport
  show ?thesis
  proof (cases st)
    case NoData
    with EExport assms(3) show ?thesis by (simp add: cookie_step_def cookie_export_def inv_export_def empty_cookie_def)
  next
    case (Loaded f sc fn)
    then have wf: "wf_frame f" using assms(1) by (simp add: inv_ok_def)
    have "response_view (RExport (export_of fn (frame_of_records (map json_record (to_records f))) (get_scanned s))) =
          response_view (RExport (export_of fn f sc))"
      using cookie_rel_mset [of f sc fn s] assms(3) Loaded by (intro export_json_frame [OF wf]) simp_all
    with EExport Loaded assms(3) show ?thesis
      by (simp add: cookie_step_def cookie_export_def inv_export_def del: response_view.simps)
  qed
next
  case EReset
  then show ?thesis by (simp add: cookie_step_def cookie_reset_def json_session_def empty_cookie_def)
qed

theorem cookie_run_sim:
  assumes "inv_ok st" and "cookie_rel st s" and "\<forall>e \<in> set es. wf_event e"
  shows "map (map_sum id response_view) (fst (cookie_run secure es s)) =
           map (map_sum id response_view) (fst (inv_run secure es st)) \<and>
         cookie_rel (snd (inv_run secure es st)) (snd (cookie_run secure es s))"
  using assms
proof (induction es arbitrary: st s)
  case Nil
  then show ?case by simp
next
  case (Cons e es)
  obtain r st' where step: "inv_step secure e st = (r, st')" by (cases "inv_step secure e st")
  obtain x s' where cstep: "cookie_step secure e s = (x, s')" by (cases "cookie_step secure e s")
  have ok': "inv_ok st'" using inv_ok_step[of st e secure] Cons.prems step by simp
  have one: "map_sum id response_view x = map_sum id response_view r" "cookie_rel st' s'"
    using cookie_step_sim [of st e s secure] Cons.prems step cstep by simp_all
  obtain rs st'' where run: "inv_run secure es st' = (rs, st'')" by fastforce
  obtain xs s'' where crun: "cookie_run secure es s' = (xs, s'')" by fastforce
  have "map (map_sum id response_view) xs = map (map_sum id response_view) rs \<and> cookie_rel st'' s''"
    using Cons.IH [of st' s'] ok' one(2) Cons.prems(3) run crun by (simp add: id_def)
  then show ?case using step cstep run crun one(1) by (simp add: id_def)
qed

subsection \<open>Inversion of the search handler\<close>

lemma cookie_search_FoundE:
  assumes "cookie_search b s = (Inr (RSearch (Found F N t)), s')"
  obtains code recs where "read_barcode b = Inr code" "code \<noteq> []" "df_data s = Some recs"
    "F = found_indices (frame_of_records recs) code" "F \<noteq> []"
    "N = new_spec F (get_scanned s)" "t = length (get_scanned s) + length N"
    "s' = s\<lparr>scanned_items := Some (get_scanned s @ N)\<rparr>"
proof -
  obtain code where code: "read_barcode b = Inr code"
    using assms by (cases "read_barcode b") (simp_all add: cookie_search_def)
  have ne: "code \<noteq> []" using assms code by (auto simp: cookie_search_def)
  obtain recs where recs: "df_data s = Some recs"
    using assms code ne by (cases "df_data s") (simp_all add: cookie_search_def)
  let ?f = "frame_of_records recs"
  show ?thesis
  proof (cases rule: search_core_cases [of ?f code "get_scanned s"])
    case found
    with assms code ne recs show ?thesis by (intro that) (auto simp: cookie_search_def)
  next
    case not_found
    with assms code ne recs show ?thesis by (simp add: cookie_search_def)
  qed
qed

lemma cookie_search_NotFoundE:
  assumes "cookie_search b s = (Inr (RSearch (NotFound c)), s')"
  obtains recs where "read_barcode b = Inr c" "c \<noteq> []" "df_data s = Some recs"
    "found_indices (frame_of_records recs) c = []" "s' = s"
proof -
  obtain code where code: "read_barcode b = Inr code"
    using assms by (cases "read_barcode b") (simp_all add: cookie_search_def)
  have ne: "code \<noteq> []" using assms code by (auto simp: cookie_search_def)
  obtain recs where recs: "df_data s = Some recs"
    using assms code ne by (cases "df_data s") (simp_all add: cookie_search_def)
  let ?f = "frame_of_records recs"
  show ?thesis
  proof (cases rule: search_core_cases [of ?f code "get_scanned s"])
    case found
    with assms code ne recs show ?thesis by (simp add: cookie_search_def)
  next
    case not_found
    with assms code ne recs show ?thesis by (intro that) (auto simp: cookie_search_def)
  qed
qed

lemma cookie_run_reachable:
  assumes "\<forall>e \<in> set es. wf_event e"
  shows "\<exists>st. inv_ok st \<and> cookie_rel st (snd (cookie_run secure es empty_cookie))"
proof -
  have "cookie_rel (snd (inv_run secure es NoData)) (snd (cookie_run secure es empty_cookie))"
    using cookie_run_sim [of NoData empty_cookie es secure] assms by (simp add: inv_ok_def)
  moreover have "inv_ok (snd (inv_run secure es NoData))"
    using assms by (intro inv_run_ok) (simp_all add: inv_ok_def)
  ultimately show ?thesis by blast
qed

lemma cookie_handle_unchanged:
  "\<not> sets_cookie e (fst (cookie_handle secure e s)) \<Longrightarrow> snd (cookie_handle secure e s) = s"
proof (cases e)
  case (EUpload ff parsed)
  then show "\<not> sets_cookie e (fst (cookie_handle secure e s)) \<Longrightarrow> snd (cookie_handle secure e s) = s"
    by (auto simp: cookie_upload_def split: sum.splits)
next
  case (ESearch b)
  then show "\<not> sets_cookie e (fst (cookie_handle secure e s)) \<Longrightarrow> snd (cookie_handle secure e s) = s"
    by (auto simp: cookie_search_def split: sum.splits option.splits prod.splits search_outcome.splits if_splits)
qed simp_all

lemma cookie_step_search_json:
  assumes "df_data s = Some recs" and "map json_record recs = recs"
  shows "snd (cookie_step secure (ESearch b) s) = snd (cookie_search b s)"
proof -
  have "df_data (snd (cookie_search b s)) = df_data s"
    by (auto simp: cookie_search_def split: sum.split option.split prod.split search_outcome.split)
  then have j: "json_session (snd (cookie_search b s)) = snd (cookie_search b s)"
    using assms by (simp add: json_session_def)
  have "\<not> sets_cookie (ESearch b) (fst (cookie_search b s)) \<Longrightarrow> snd (cookie_search b s) = s"
    using cookie_handle_unchanged [of "ESearch b" secure s] by simp
  with j show ?thesis by (auto simp: cookie_step_def split: prod.split)
qed

lemma cookie_run_loaded:
  assumes "\<forall>e \<in> set es. wf_event e" and "snd (cookie_run secure es empty_cookie) = s"
    and "df_data s = Some recs"
  obtains f sc fn where "wf_frame f" "valid_scanned (nrows f) sc" "cookie_rel (Loaded f sc fn) s"
    "recs = map json_record (to_records f)"
proof -
  obtain st where "inv_ok st" "cookie_rel st s"
    using cookie_run_reachable [OF assms(1), of secure] assms(2) by blast
  then show ?thesis using assms(3) that by (cases st) (auto simp: inv_ok_def empty_cookie_def)
qed

lemma snd_cookie_run_Cons:
  "snd (cookie_run secure (e # es) s) = snd (cookie_run secure es (snd (cookie_step secure e s)))"
  by (simp split: prod.split)

lemma cookie_search_loaded:
  assumes "df_data s = Some recs" and "valid_scanned (length recs) (get_scanned s)"
  shows "df_data (snd (cookie_search (BarcodeStr bc) s)) = Some recs \<and>
         valid_scanned (length recs) (get_scanned (snd (cookie_search (BarcodeStr bc) s))) \<and>
         set (get_scanned s) \<subseteq> set (get_scanned (snd (cookie_search (BarcodeStr bc) s))) \<and>
         (py_strip bc \<noteq> [] \<longrightarrow>
            set (found_indices (frame_of_records recs) (py_strip bc)) \<subseteq> set (get_scanned (snd (cookie_search (BarcodeStr bc) s))))"
proof (cases "py_strip bc = []")
  case True
  with assms show ?thesis by (simp add: cookie_search_def read_barcode_def)
next
  case False
  let ?f = "frame_of_records recs" and ?code = "py_strip bc" and ?sc = "get_scanned s"
  have v: "valid_scanned (nrows ?f) ?sc" using assms(2) by simp
  show ?thesis
  proof (cases rule: search_core_cases [of ?f ?code ?sc])
    case found
    have s': "snd (cookie_search (BarcodeStr bc) s) = s\<lparr>scanned_items := Some (snd (search_core ?f ?code ?sc))\<rparr>"
      using found(2) False assms(1) by (simp add: cookie_search_def read_barcode_def)
    have "valid_scanned (nrows ?f) (snd (search_core ?f ?code ?sc))"
      by (rule valid_scanned_search_core [OF v])
    with s' found(2) assms(1) show ?thesis by (auto simp: get_scanned_def)
  next
    case not_found
    with False assms show ?thesis by (simp add: cookie_search_def read_barcode_def)
  qed
qed

lemma cookie_run_searches:
  assumes "df_data s = Some recs" and "valid_scanned (length recs) (get_scanned s)"
    and "map json_record recs = recs"
  shows "df_data (snd (cookie_run secure (map (ESearch \<circ> BarcodeStr) cs) s)) = Some recs \<and>
         valid_scanned (length recs) (get_scanned (snd (cookie_run secure (map (ESearch \<circ> BarcodeStr) cs) s))) \<and>
         set (get_scanned s) \<union> (\<Union>c \<in> {c \<in> set cs. py_strip c \<noteq> []}. set (found_indices (frame_of_records recs) (py_strip c)))
           \<subseteq> set (get_scanned (snd (cookie_run secure (map (ESearch \<circ> BarcodeStr) cs) s)))"
  using assms
proof (induction cs arbitrary: s)
  case Nil
  then show ?case by simp
next
  case (Cons c cs)
  let ?s1 = "snd (cookie_search (BarcodeStr c) s)"
  have one: "df_data ?s1 = Some recs \<and> valid_scanned (length recs) (get_scanned ?s1) \<and>
      set (get_scanned s) \<subseteq> set (get_scanned ?s1) \<and>
      (py_strip c \<noteq> [] \<longrightarrow> set (found_indices (frame_of_records recs) (py_strip c)) \<subseteq> set (get_scanned ?s1))"
    using cookie_search_loaded [OF Cons.prems(1,2)] .
  let ?s2 = "snd (cookie_run secure (map (ESearch \<circ> BarcodeStr) cs) ?s1)"
  have ih: "df_data ?s2 = Some recs \<and> valid_scanned (length recs) (get_scanned ?s2) \<and>
         set (get_scanned ?s1) \<union> (\<Union>c \<in> {c \<in> set cs. py_strip c \<noteq> []}. set (found_indices (frame_of_records recs) (py_strip c)))
           \<subseteq> set (get_scanned ?s2)"
    using Cons.IH one Cons.prems(3) by blast
  have "snd (cookie_step secure (ESearch (BarcodeStr c)) s) = ?s1"
    using Cons.prems(1,3) by (rule cookie_step_search_json)
  then have eq: "snd (cookie_run secure (map (ESearch \<circ> BarcodeStr) (c # cs)) s) = ?s2"
    by (simp add: snd_cookie_run_Cons del: cookie_run.simps)
  have "set (get_scanned s) \<subseteq> set (get_scanned ?s2)" using one ih by blast
  moreover have "py_strip c \<noteq> [] \<Longrightarrow> set (found_indices (frame_of_records recs) (py_strip c)) \<subseteq> set (get_scanned ?s2)"
    using one ih by blast
  moreover have "(\<Union>c \<in> {c \<in> set cs. py_strip c \<noteq> []}. set (found_indices (frame_of_records recs) (py_strip c)))
      \<subseteq> set (get_scanned ?s2)" using ih by blast
  ultimately have u: "set (get_scanned s) \<union>
      (\<Union>c \<in> {c' \<in> set (c # cs). py_strip c' \<noteq> []}. set (found_indices (frame_of_records recs) (py_strip c)))
      \<subseteq> set (get_scanned ?s2)" by auto
  show ?case unfolding eq using ih u by blast
qed

subsection \<open>Properties of the in-session application\<close>

text \<open>
  C1: Scanning a code that some cell of the loaded sheet holds: \<open>search_barcode\<close> answers \<open>found\<close> with every matching row (column by column) and the list of newly scanned rows, which has no duplicate and is exactly the matching rows not scanned before; the session's scanned list grows by exactly these rows, appended at the end, and \<open>total_scanned\<close> is its new length.
\<close>

theorem cookie_search_found:
  assumes "df_data s = Some recs" and "py_strip bc \<noteq> []"
    and "found_indices (frame_of_records recs) (py_strip bc) \<noteq> []"
  shows "\<exists>N. cookie_search (BarcodeStr bc) s =
             (Inr (RSearch (Found (found_indices (frame_of_records recs) (py_strip bc)) N
                               (length (get_scanned s) + length N))),
              s\<lparr>scanned_items := Some (get_scanned s @ N)\<rparr>)
           \<and> distinct N
           \<and> set N = set (found_indices (frame_of_records recs) (py_strip bc)) - set (get_scanned s)"
proof -
  let ?F = "found_indices (frame_of_records recs) (py_strip bc)"
  let ?N = "new_spec ?F (get_scanned s)"
  have "cookie_search (BarcodeStr bc) s =
          (Inr (RSearch (Found ?F ?N (length (get_scanned s) + length ?N))),
           s\<lparr>scanned_items := Some (get_scanned s @ ?N)\<rparr>)"
    using assms by (simp add: cookie_search_def read_barcode_def search_core_found)
  then show ?thesis using distinct_new_spec by auto
qed

text \<open>
  C2: Invariant of the data model: in every session reached from a fresh one by any sequence of requests (uploads of well-formed sheets), the scanned list has no duplicate and every index in it is a row of the loaded sheet.
\<close>

theorem cookie_run_scanned_valid:
  assumes "\<forall>e \<in> set es. wf_event e" and "snd (cookie_run secure es empty_cookie) = s"
    and "df_data s = Some recs"
  shows "distinct (get_scanned s) \<and> (\<forall>i \<in> set (get_scanned s). i < length recs)"
proof -
  obtain f sc fn where "valid_scanned (nrows f) sc" "cookie_rel (Loaded f sc fn) s"
    "recs = map json_record (to_records f)"
    using assms by (rule cookie_run_loaded)
  then show ?thesis by (simp add: cookie_rel_mset valid_scanned_def)
qed

text \<open>
  C3: Scanning is idempotent: repeating a successful scan reports the same matches, no new row and the same total, and leaves the session as the first scan left it.
\<close>

theorem cookie_search_idempotent:
  assumes "cookie_search b s = (Inr (RSearch (Found F N t)), s')"
  shows "cookie_search b s' = (Inr (RSearch (Found F [] t)), s')"
proof -
  from assms obtain code recs where code: "read_barcode b = Inr code" "code \<noteq> []"
    and recs: "df_data s = Some recs" and F: "F = found_indices (frame_of_records recs) code" "F \<noteq> []"
    and N: "N = new_spec F (get_scanned s)" and t: "t = length (get_scanned s) + length N"
    and s': "s' = s\<lparr>scanned_items := Some (get_scanned s @ N)\<rparr>"
    by (rule cookie_search_FoundE)
  have sc': "get_scanned s' = get_scanned s @ N" using s' by (simp add: get_scanned_def)
  have "new_spec F (get_scanned s') = []" using N sc' by (simp add: new_spec_found_again)
  then show ?thesis
    using code recs F t s' sc' by (simp add: cookie_search_def search_core_found)
qed

text \<open>
  C4: A scan that reports \<open>found: false\<close> leaves the session unchanged; it happens exactly when data is loaded and no cell of it prints as the stripped code.
\<close>

theorem cookie_search_not_found:
  assumes "cookie_search b s = (Inr (RSearch (NotFound c)), s')"
  shows "s' = s \<and> read_barcode b = Inr c \<and>
         (\<exists>recs. df_data s = Some recs \<and> found_indices (frame_of_records recs) c = [])"
  using assms by (rule cookie_search_NotFoundE) blast

text \<open>
  C5: An empty or whitespace-only code, or a request without a \<open>barcode\<close> key, is rejected with \<open>EmptyBarcode\<close> (status 400) before the session is looked at, and the session is unchanged.
\<close>

theorem cookie_search_blank:
  assumes "\<forall>ch \<in> set bc. py_isspace ch"
  shows "cookie_search (BarcodeStr bc) s = (Inl EmptyBarcode, s) \<and>
         cookie_search NoBarcodeKey s = (Inl EmptyBarcode, s)"
  using assms by (simp add: cookie_search_def read_barcode_def py_strip_Nil_iff)

text \<open>
  C6: In every reachable session the statistics are in range: the scanned count is at most the number of records, the pending count is not negative, and the progress percentage is between 0 and 100.
\<close>

theorem cookie_run_stats_bounds:
  assumes "\<forall>e \<in> set es. wf_event e" and "snd (cookie_run secure es empty_cookie) = s"
    and "cookie_stats s = Inr (RStats r)"
  shows "scanned_count r \<le> total_items r \<and> 0 \<le> pending_items r \<and> 0 \<le> progress r \<and> progress r \<le> 100"
proof -
  obtain recs where d: "df_data s = Some recs" using assms(3) by (cases "df_data s") (simp_all add: cookie_stats_def)
  obtain f sc fn where "valid_scanned (nrows f) sc" "cookie_rel (Loaded f sc fn) s"
    "recs = map json_record (to_records f)"
    using assms(1,2) d by (rule cookie_run_loaded)
  then have le: "length (get_scanned s) \<le> length recs" by (simp add: cookie_rel_mset valid_scanned_length)
  have "r = stats_of (length recs) (length (get_scanned s))"
    using d assms(3) by (simp add: cookie_stats_def)
  with stats_of_bounds [OF le] le show ?thesis by (simp add: stats_of_def)
qed

text \<open>
  C7: Uploading an allowed file that parses as a sheet of N rows answers with a record count of N and a preview of the first min(100, N) records, stores the records and the secured file name, and starts with an empty scanned list.
\<close>

theorem cookie_upload_ok:
  assumes "allowed_file fn = Inr True"
  shows "\<exists>s'. cookie_upload secure (FilePart fn) (Inr f) s = (Inr (RUpload (upload_summary f)), s') \<and>
           df_data s' = Some (to_records f) \<and> get_scanned s' = [] \<and> filename s' = Some (secure fn) \<and>
           records_count (upload_summary f) = nrows f \<and>
           length (preview (upload_summary f)) = min 100 (nrows f)"
  using assms allowed_file_nonempty [OF assms]
  by (simp add: cookie_upload_def upload_check_def upload_summary_def head_records_def get_scanned_def)

text \<open>
  C8: The export of a loaded session has one record per row; each carries the status column, \<open>Escaneado\<close> exactly for the scanned rows and \<open>Pendiente\<close> for the others, every other column as uploaded, and the summary counts total and pending rows.
\<close>

theorem cookie_export_status:
  assumes "df_data s = Some recs" and "i < length recs"
  shows "\<exists>r. cookie_export s = Inr (RExport r) \<and> length (exp_data r) = length recs \<and>
           record_get (exp_data r ! i) STATUS_COLUMN =
             CStr (if i \<in> set (get_scanned s) then ''Escaneado'' else ''Pendiente'') \<and>
           (\<forall>c. c \<noteq> STATUS_COLUMN \<longrightarrow> record_get (exp_data r ! i) c = record_get (recs ! i) c) \<and>
           exp_total r = length recs \<and> exp_pending r = int (length recs) - int (length (get_scanned s))"
proof -
  let ?f = "frame_of_records recs"
  let ?vals = "map (\<lambda>i. CStr (status_label (get_scanned s) i)) [0..<nrows ?f]"
  let ?g = "set_column STATUS_COLUMN ?vals ?f"
  have wf: "wf_frame ?f" by (rule wf_frame_of_records)
  have len: "length ?vals = nrows ?f" by simp
  have i: "i < nrows ?f" using assms(2) by simp
  have st: "record_get (to_records ?g ! i) STATUS_COLUMN = ?vals ! i"
    using wf len i by (rule record_get_set_column_same)
  have other: "record_get (to_records ?g ! i) c = record_get (recs ! i) c" if "c \<noteq> STATUS_COLUMN" for c
  proof -
    have "record_get (to_records ?g ! i) c = record_get (to_records ?f ! i) c"
      using wf len i that by (rule record_get_set_column_other)
    also have "\<dots> = record_get (recs ! i) c"
      using assms(2) by (rule record_get_frame_of_records)
    finally show ?thesis .
  qed
  show ?thesis
    using assms st other len
    by (simp add: cookie_export_def export_of_def Let_def status_label_def)
qed

text \<open>
  C9: Refinement: for every sequence of requests from a fresh session, the in-session application gives the responses of the abstract session specification, up to the order of \<open>matched_indices\<close> and \<open>new_scanned\<close> in a search and the order of the keys of the exported records (which \<open>jsonify\<close> sorts); and the cookie it ends with holds the specification's session: the records with sorted keys, the sheet's column list, the file name and the scanned rows in some order.
\<close>

theorem cookie_responses_match_spec:
  assumes "\<forall>e \<in> set es. wf_event e"
  shows "map (map_sum id response_view) (fst (cookie_run secure es empty_cookie)) =
           map (map_sum id response_view) (fst (inv_run secure es NoData)) \<and>
         cookie_rel (snd (inv_run secure es NoData)) (snd (cookie_run secure es empty_cookie))"
  using assms by (intro cookie_run_sim) (simp_all add: inv_ok_def)

text \<open>
  C31: Scanning completes: from any session reached by requests, once a sheet is loaded, scanning a list of codes that between them match every row marks every row as reviewed: the statistics then report as many scanned items as records, nothing pending and progress 100.
\<close>

theorem cookie_scan_completes:
  assumes "\<forall>e \<in> set es. wf_event e" and "snd (cookie_run secure es empty_cookie) = s"
    and "df_data s = Some recs" and "0 < length recs"
    and "\<forall>i < length recs. \<exists>c \<in> set cs. py_strip c \<noteq> [] \<and> i \<in> set (found_indices (frame_of_records recs) (py_strip c))"
  shows "cookie_stats (snd (cookie_run secure (map (ESearch \<circ> BarcodeStr) cs) s)) =
           Inr (RStats (stats_of (length recs) (length recs))) \<and>
         pending_items (stats_of (length recs) (length recs)) = 0 \<and>
         progress (stats_of (length recs) (length recs)) = 100"
proof -
  obtain f sc fn where v0: "valid_scanned (nrows f) sc" and r: "cookie_rel (Loaded f sc fn) s"
    and recs: "recs = map json_record (to_records f)"
    using assms(1-3) by (rule cookie_run_loaded)
  have "valid_scanned (length recs) (get_scanned s)"
    using v0 r recs by (simp add: cookie_rel_mset valid_scanned_def)
  moreover have "map json_record recs = recs" using recs by simp
  ultimately have all: "df_data (snd (cookie_run secure (map (ESearch \<circ> BarcodeStr) cs) s)) = Some recs \<and>
         valid_scanned (length recs) (get_scanned (snd (cookie_run secure (map (ESearch \<circ> BarcodeStr) cs) s))) \<and>
         set (get_scanned s) \<union> (\<Union>c \<in> {c \<in> set cs. py_strip c \<noteq> []}. set (found_indices (frame_of_records recs) (py_strip c)))
           \<subseteq> set (get_scanned (snd (cookie_run secure (map (ESearch \<circ> BarcodeStr) cs) s)))"
    using assms(3) by (intro cookie_run_searches) simp_all
  from all
  have d: "df_data (snd (cookie_run secure (map (ESearch \<circ> BarcodeStr) cs) s)) = Some recs"
    and v: "valid_scanned (length recs) (get_scanned (snd (cookie_run secure (map (ESearch \<circ> BarcodeStr) cs) s)))"
    and sub: "(\<Union>c \<in> {c \<in> set cs. py_strip c \<noteq> []}. set (found_indices (frame_of_records recs) (py_strip c)))
           \<subseteq> set (get_scanned (snd (cookie_run secure (map (ESearch \<circ> BarcodeStr) cs) s)))"
    by blast+
  have "{..<length recs} \<subseteq> set (get_scanned (snd (cookie_run secure (map (ESearch \<circ> BarcodeStr) cs) s)))"
    using assms(5) sub by blast
  with v have "length (get_scanned (snd (cookie_run secure (map (ESearch \<circ> BarcodeStr) cs) s))) = length recs"
    by (rule valid_scanned_complete)
  with d stats_of_complete [OF assms(4)] show ?thesis by (simp add: cookie_stats_def)
qed

text \<open>
  C32: Type of the stored sheet: in every session reached by requests, the cookie's \<open>df_columns\<close> is a list of distinct column names, every record in \<open>df_data\<close> has exactly these keys, in sorted order (the serializer sorts them), and a non-empty \<open>df_data\<close> rebuilds (\<open>pd.DataFrame(session['df_data'])\<close>) into a frame whose columns are these names sorted, not in the sheet's order that \<open>df_columns\<close> keeps.
\<close>

theorem cookie_run_records_typed:
  assumes "\<forall>e \<in> set es. wf_event e" and "snd (cookie_run secure es empty_cookie) = s"
    and "df_data s = Some recs"
  shows "\<exists>cols. df_columns s = Some cols \<and> distinct cols \<and> (\<forall>r \<in> set recs. map fst r = sort cols) \<and>
           (recs \<noteq> [] \<longrightarrow> columns (frame_of_records recs) = sort cols)"
proof -
  obtain f sc fn where wf: "wf_frame f" and r: "cookie_rel (Loaded f sc fn) s"
    and recs: "recs = map json_record (to_records f)"
    using assms by (rule cookie_run_loaded)
  have "\<forall>r \<in> set recs. map fst r = sort (columns f)"
    using wf recs keys_json_to_records by auto
  moreover have "recs \<noteq> [] \<longrightarrow> columns (frame_of_records recs) = sort (columns f)"
    using wf recs columns_json_frame by (auto simp: to_records_def)
  ultimately show ?thesis using r wf by (auto simp: wf_frame_def)
qed

end
