(* ===== verification/Cookie_Conc.thy ===== *)
theory Cookie_Conc
  imports Cookie_App
begin

section \<open>Concurrent requests of the in-session application\<close>

text \<open>
  In \<open>src/inventory_flask_app.py\<close> the whole session lives in the browser's
  cookie. A request carries the cookie the browser holds when it sends it;
  the handler computes on that copy; Flask adds a \<open>Set-Cookie\<close> header to
  the response only when the handler wrote the session (an assignment
  \<open>session[...] = ...\<close> or \<open>session.clear()\<close>), and the browser replaces its
  cookie by that header when the response arrives. Two requests in flight
  at once (a hand scanner, two tabs) therefore each start from the same
  cookie, and the one whose response arrives last decides what the browser
  keeps. A request is two atomic phases under \<open>Prelude.sched\<close>: sending and
  serving it, then delivering its response; the shared state is the
  browser's cookie. Which handlers write the session is
  \<open>Cookie_App.sets_cookie\<close>; the cookie a response carries is the JSON
  round trip \<open>Cookie_App.cookie_step\<close> computes.
\<close>

subsection \<open>A request in flight\<close>

datatype cookie_phase = CReady | CServed "error + response" bool cookie_session | CDelivered "error + response"

record cookie_req =
  cq_event :: event
  cq_phase :: cookie_phase

definition cq_step :: "(string \<Rightarrow> string) \<Rightarrow> cookie_req \<Rightarrow> cookie_session \<Rightarrow> cookie_req \<times> cookie_session" where
  "cq_step secure r jar =
     (case cq_phase r of
        CReady \<Rightarrow>
          (case cookie_step secure (cq_event r) jar of
             (x, s') \<Rightarrow> (r\<lparr>cq_phase := CServed x (sets_cookie (cq_event r) x) s'\<rparr>, jar))
      | CServed x w s' \<Rightarrow> (r\<lparr>cq_phase := CDelivered x\<rparr>, if w then s' else jar)
      | CDelivered _ \<Rightarrow> (r, jar))"

abbreviation cq_sched :: "(string \<Rightarrow> string) \<Rightarrow> nat list \<Rightarrow> cookie_req list \<Rightarrow> cookie_session \<Rightarrow> cookie_req list \<times> cookie_session" where
  "cq_sched secure \<equiv> sched (cq_step secure)"

definition cq_request :: "event \<Rightarrow> cookie_req" where
  "cq_request e = \<lparr>cq_event = e, cq_phase = CReady\<rparr>"

definition cq_answer :: "cookie_phase \<Rightarrow> error + response" where
  "cq_answer p = (case p of CDelivered x \<Rightarrow> x | _ \<Rightarrow> Inl Exception)"

subsection \<open>Lemmas\<close>

text \<open>
  One request at a time, the browser holds what \<open>cookie_step\<close> returns.
\<close>

lemma cq_alone:
  "(case cq_sched secure [0, 0] [cq_request e] s of (rs, jar) \<Rightarrow> (cq_answer (cq_phase (rs ! 0)), jar)) =
   cookie_step secure e s"
  by (simp add: cq_step_def cq_request_def cq_answer_def cookie_step_def split: prod.split)

lemma cookie_search_found_eq:
  assumes "df_data s = Some recs" and "py_strip bc \<noteq> []"
    and "found_indices (frame_of_records recs) (py_strip bc) \<noteq> []"
  shows "cookie_search (BarcodeStr bc) s =
     (Inr (RSearch (Found (found_indices (frame_of_records recs) (py_strip bc))
                          (new_spec (found_indices (frame_of_records recs) (py_strip bc)) (get_scanned s))
                          (length (get_scanned s) + length (new_spec (found_indices (frame_of_records recs) (py_strip bc)) (get_scanned s))))),
      s\<lparr>scanned_items := Some (get_scanned s @ new_spec (found_indices (frame_of_records recs) (py_strip bc)) (get_scanned s))\<rparr>)"
  using assms by (simp add: cookie_search_def read_barcode_def search_core_found)

subsection \<open>Properties of concurrent requests\<close>

text \<open>
  C20: A lost scan in the in-session application: two scans sent from the same cookie before either answer arrives, both finding rows, are both answered \<open>found\<close>, the first with its new rows; but the browser ends with the second response's cookie, which holds only the second scan's rows, so the first scan's rows are not marked as reviewed. Sent one after the other, the cookie keeps the rows of both.
\<close>

theorem cookie_lost_update:
  assumes "df_data s = Some recs"
    and "py_strip a \<noteq> []" and "found_indices (frame_of_records recs) (py_strip a) \<noteq> []"
    and "py_strip b \<noteq> []" and "found_indices (frame_of_records recs) (py_strip b) \<noteq> []"
  shows "(case cq_sched secure [0, 1, 0, 1] [cq_request (ESearch (BarcodeStr a)), cq_request (ESearch (BarcodeStr b))] s of
            (rs, jar) \<Rightarrow>
              cq_answer (cq_phase (rs ! 0)) =
                Inr (RSearch (Found (found_indices (frame_of_records recs) (py_strip a))
                   (new_spec (found_indices (frame_of_records recs) (py_strip a)) (get_scanned s))
                   (length (get_scanned s) + length (new_spec (found_indices (frame_of_records recs) (py_strip a)) (get_scanned s)))))
            \<and> jar = json_session (s\<lparr>scanned_items := Some (get_scanned s @
                        new_spec (found_indices (frame_of_records recs) (py_strip b)) (get_scanned s))\<rparr>))
       \<and> (case cq_sched secure [0, 0, 1, 1] [cq_request (ESearch (BarcodeStr a)), cq_request (ESearch (BarcodeStr b))] s of
            (rs, jar) \<Rightarrow>
              set (new_spec (found_indices (frame_of_records recs) (py_strip a)) (get_scanned s)) \<union>
              set (new_spec (found_indices (frame_of_records recs) (py_strip b)) (get_scanned s))
                \<subseteq> set (get_scanned jar))"
proof -
  let ?f = "frame_of_records recs"
  let ?sA = "json_session (snd (cookie_search (BarcodeStr a) s))"
  let ?g = "frame_of_records (map json_record recs)"
  note eA = cookie_search_found_eq [OF assms(1-3)]
  note eB = cookie_search_found_eq [OF assms(1,4,5)]
  have dA: "df_data ?sA = Some (map json_record recs)" using eA assms(1) by (simp add: json_session_def)
  have mB: "mset (found_indices ?g (py_strip b)) = mset (found_indices ?f (py_strip b))"
    by (rule mset_found_json_records)
  then have sB: "set (found_indices ?g (py_strip b)) = set (found_indices ?f (py_strip b))"
    by (metis set_mset_mset)
  have neB: "found_indices ?g (py_strip b) \<noteq> []" using mB assms(5) by (metis mset_zero_iff)
  note eB' = cookie_search_found_eq [OF dA assms(4) neB]
  have inter: "(case cq_sched secure [0, 1, 0, 1] [cq_request (ESearch (BarcodeStr a)), cq_request (ESearch (BarcodeStr b))] s of
            (rs, jar) \<Rightarrow>
              cq_answer (cq_phase (rs ! 0)) =
                Inr (RSearch (Found (found_indices ?f (py_strip a)) (new_spec (found_indices ?f (py_strip a)) (get_scanned s))
                   (length (get_scanned s) + length (new_spec (found_indices ?f (py_strip a)) (get_scanned s)))))
            \<and> jar = json_session (s\<lparr>scanned_items := Some (get_scanned s @ new_spec (found_indices ?f (py_strip b)) (get_scanned s))\<rparr>))"
    using eA eB by (simp add: cq_step_def cq_request_def cq_answer_def cookie_step_def)
  have sn: "snd (cq_sched secure [0, 0, 1, 1] [cq_request (ESearch (BarcodeStr a)), cq_request (ESearch (BarcodeStr b))] s) =
      json_session (snd (cookie_search (BarcodeStr b) ?sA))"
    using eA eB' by (simp add: cq_step_def cq_request_def cookie_step_def)
  have "set (new_spec (found_indices ?f (py_strip a)) (get_scanned s)) \<union>
        set (new_spec (found_indices ?f (py_strip b)) (get_scanned s)) \<subseteq> set (get_scanned (json_session (snd (cookie_search (BarcodeStr b) ?sA))))"
    using eA eB' sB by (auto simp: get_scanned_def json_session_def)
  then have serial: "(case cq_sched secure [0, 0, 1, 1] [cq_request (ESearch (BarcodeStr a)), cq_request (ESearch (BarcodeStr b))] s of
            (rs, jar) \<Rightarrow> set (new_spec (found_indices ?f (py_strip a)) (get_scanned s)) \<union>
              set (new_spec (found_indices ?f (py_strip b)) (get_scanned s)) \<subseteq> set (get_scanned jar))"
    unfolding case_prod_beta sn .
  from inter serial show ?thesis by simp
qed

end
