(* ===== verification/Disk_App.thy ===== *)
theory Disk_App
  imports Session
begin

section \<open>The disk-backed application: \<open>src/App.py\<close>\<close>

text \<open>
  This variant keeps a session id, a \<open>has_data\<close> flag, the record count and
  the file name in the cookie, and the frame, the scanned indices and the
  file name in a pickle file per session id. The state is the cookie of one
  client and the whole store of session files (a map from session ids). A
  file can be missing, hold a pickled session, or be corrupt (a failed
  write truncated it, so \<open>pickle.load\<close> raises). The environment decides
  the outcome of each file operation: a save succeeds, fails before the
  file is opened, or fails while writing; a removal succeeds or fails.
\<close>

subsection \<open>State\<close>

record app_cookie =
  session_id :: "session_id option"
  has_data :: bool
  records_count_c :: "nat option"
  filename_c :: "string option"

text \<open>The dictionary pickled by \<open>save_session_data\<close> (lines 92--96).\<close>

record blob =
  blob_df :: frame
  blob_scanned :: "row_index list"
  blob_filename :: string

datatype stored = Stored blob | Corrupt

type_synonym store = "session_id \<Rightarrow> stored option"

record app_state =
  cookie :: app_cookie
  disk :: store

definition empty_app_cookie :: app_cookie where
  "empty_app_cookie = \<lparr>session_id = None, has_data = False, records_count_c = None, filename_c = None\<rparr>"

subsection \<open>The session files\<close>

datatype save_outcome = SaveOk | FailOpen | FailWrite

text \<open>\<open>save_session_data\<close>, lines 30--39: \<open>True\<close> and the new store.\<close>

definition save_session_data :: "save_outcome \<Rightarrow> session_id \<Rightarrow> blob \<Rightarrow> store \<Rightarrow> bool \<times> store" where
  "save_session_data io sid b st =
     (case io of
        SaveOk \<Rightarrow> (True, st(sid \<mapsto> Stored b))
      | FailOpen \<Rightarrow> (False, st)
      | FailWrite \<Rightarrow> (False, st(sid \<mapsto> Corrupt)))"

text \<open>\<open>load_session_data\<close>, lines 41--51: a missing or unreadable file is \<open>None\<close>.\<close>

definition load_session_data :: "store \<Rightarrow> session_id \<Rightarrow> blob option" where
  "load_session_data st sid =
     (case st sid of
        Some (Stored b) \<Rightarrow> Some b
      | _ \<Rightarrow> None)"

text \<open>\<open>cleanup_session_data\<close>, lines 53--62.\<close>

definition cleanup_session_data :: "bool \<Rightarrow> session_id \<Rightarrow> store \<Rightarrow> bool \<times> store" where
  "cleanup_session_data ok sid st = (if ok then (True, st(sid := None)) else (False, st))"

text \<open>
  The guard of \<open>/search\<close>, \<open>/stats\<close> and \<open>/export\<close>:
  \<open>if not session.get('has_data') or 'session_id' not in session\<close>, then
  \<open>load_session_data\<close>; the error, or the session id and the loaded data.
\<close>

definition load_current :: "app_state \<Rightarrow> error + session_id \<times> blob" where
  "load_current s =
     (if \<not> has_data (cookie s) then Inl NoDataLoaded
      else (case session_id (cookie s) of
              None \<Rightarrow> Inl NoDataLoaded
            | Some sid \<Rightarrow>
                (case load_session_data (disk s) sid of
                   None \<Rightarrow> Inl LoadFailed
                 | Some b \<Rightarrow> Inr (sid, b))))"

subsection \<open>Handlers\<close>

text \<open>
  \<open>upload_file\<close>, lines 68--120. \<open>fresh\<close> is the \<open>uuid4\<close> drawn when the
  cookie has no session id yet.
\<close>

definition app_upload ::
  "(string \<Rightarrow> string) \<Rightarrow> session_id \<Rightarrow> save_outcome \<Rightarrow> file_field \<Rightarrow> unit + frame \<Rightarrow> app_state
   \<Rightarrow> (error + response) \<times> app_state" where
  "app_upload secure fresh io ff parsed s =
     (case upload_check ff of
        Inl e \<Rightarrow> (Inl e, s)
      | Inr fn \<Rightarrow>
          (case parsed of
             Inl _ \<Rightarrow> (Inl Exception, s)
           | Inr f \<Rightarrow>
               (let sid = (case session_id (cookie s) of None \<Rightarrow> fresh | Some x \<Rightarrow> x);
                    c1 = (cookie s)\<lparr>session_id := Some sid\<rparr>;
                    b = \<lparr>blob_df = f, blob_scanned = [], blob_filename = secure fn\<rparr>
                in (case save_session_data io sid b (disk s) of
                      (True, st') \<Rightarrow>
                        (Inr (RUpload (app_upload_info f)),
                         \<lparr>cookie = c1\<lparr>has_data := True, records_count_c := Some (nrows f),
                                       filename_c := Some (secure fn)\<rparr>,
                          disk = st'\<rparr>)
                    | (False, st') \<Rightarrow> (Inl SaveFailed, \<lparr>cookie = c1, disk = st'\<rparr>)))))"

text \<open>
  \<open>search_barcode\<close>, lines 122--180. The result of the second
  \<open>save_session_data\<close> (line 162) is not looked at.
\<close>

definition app_search :: "save_outcome \<Rightarrow> barcode_field \<Rightarrow> app_state \<Rightarrow> (error + response) \<times> app_state" where
  "app_search io b s =
     (case read_barcode b of
        Inl e \<Rightarrow> (Inl e, s)
      | Inr code \<Rightarrow>
          if code = [] then (Inl EmptyBarcode, s)
          else (case load_current s of
                  Inl e \<Rightarrow> (Inl e, s)
                | Inr (sid, d) \<Rightarrow>
                    (case search_core (blob_df d) code (blob_scanned d) of
                       (Found m n t, sc') \<Rightarrow>
                         (Inr (RSearch (Found m n t)),
                          s\<lparr>disk := snd (save_session_data io sid (d\<lparr>blob_scanned := sc'\<rparr>) (disk s))\<rparr>)
                     | (NotFound c, sc') \<Rightarrow> (Inr (RSearch (NotFound c)), s))))"

text \<open>\<open>get_stats\<close>, lines 182--206.\<close>

definition app_stats :: "app_state \<Rightarrow> error + response" where
  "app_stats s =
     (case load_current s of
        Inl e \<Rightarrow> Inl e
      | Inr (sid, d) \<Rightarrow> Inr (RStats (stats_of (nrows (blob_df d)) (length (blob_scanned d)))))"

text \<open>\<open>export_results\<close>, lines 208--239.\<close>

definition app_export :: "app_state \<Rightarrow> error + response" where
  "app_export s =
     (case load_current s of
        Inl e \<Rightarrow> Inl e
      | Inr (sid, d) \<Rightarrow> Inr (RExport (export_of (blob_filename d) (blob_df d) (blob_scanned d))))"

text \<open>\<open>reset_session\<close>, lines 241--252: the result of the clean-up is not looked at.\<close>

definition app_reset :: "bool \<Rightarrow> app_state \<Rightarrow> (error + response) \<times> app_state" where
  "app_reset ok s =
     (Inr RReset,
      \<lparr>cookie = empty_app_cookie,
       disk = (case session_id (cookie s) of
                 None \<Rightarrow> disk s
               | Some sid \<Rightarrow> snd (cleanup_session_data ok sid (disk s)))\<rparr>)"

subsection \<open>The application\<close>

text \<open>What the environment decides for one request.\<close>

record app_env =
  env_fresh :: session_id
  env_save :: save_outcome
  env_remove_ok :: bool

fun app_step ::
  "(string \<Rightarrow> string) \<Rightarrow> app_env \<Rightarrow> event \<Rightarrow> app_state \<Rightarrow> (error + response) \<times> app_state" where
  "app_step secure env (EUpload ff parsed) s = app_upload secure (env_fresh env) (env_save env) ff parsed s"
| "app_step secure env (ESearch b) s = app_search (env_save env) b s"
| "app_step secure env EStats s = (app_stats s, s)"
| "app_step secure env EExport s = (app_export s, s)"
| "app_step secure env EReset s = app_reset (env_remove_ok env) s"

fun app_run ::
  "(string \<Rightarrow> string) \<Rightarrow> (app_env \<times> event) list \<Rightarrow> app_state \<Rightarrow> (error + response) list \<times> app_state" where
  "app_run secure [] s = ([], s)"
| "app_run secure ((env, e) # es) s =
     (case app_step secure env e s of
        (r, s') \<Rightarrow> (case app_run secure es s' of (rs, s'') \<Rightarrow> (r # rs, s'')))"

text \<open>An environment in which every file operation succeeds.\<close>

definition reliable :: "app_env \<Rightarrow> bool" where
  "reliable env \<longleftrightarrow> env_save env = SaveOk \<and> env_remove_ok env"

subsection \<open>The abstraction\<close>

text \<open>
  The coupling of an abstract session with a state of the application: no
  data is a cookie without \<open>has_data\<close> or without a session id; a loaded
  session is a cookie with both whose file holds the abstract data.
\<close>

fun app_holds :: "inventory \<Rightarrow> app_state \<Rightarrow> bool" where
  "app_holds NoData s \<longleftrightarrow> \<not> has_data (cookie s) \<or> session_id (cookie s) = None"
| "app_holds (Loaded f sc fn) s \<longleftrightarrow>
     has_data (cookie s) \<and>
     (\<exists>sid. session_id (cookie s) = Some sid \<and>
            disk s sid = Some (Stored \<lparr>blob_df = f, blob_scanned = sc, blob_filename = fn\<rparr>))"

subsection \<open>The store invariant\<close>

text \<open>
  Every session file that holds a pickled session holds a well-formed frame
  and a valid scanned list, whatever the outcome of the file operations.
\<close>

definition store_ok :: "store \<Rightarrow> bool" where
  "store_ok st \<longleftrightarrow>
     (\<forall>sid b. st sid = Some (Stored b) \<longrightarrow>
        wf_frame (blob_df b) \<and> valid_scanned (nrows (blob_df b)) (blob_scanned b))"

subsection \<open>Lemmas: the handlers against the abstraction\<close>

lemma app_upload_info_eq: "app_upload_info f = upload_summary f"
  by (simp add: app_upload_info_def upload_summary_def frame_head_def to_records_def
      head_records_def take_map)

lemma load_current_holds_NoData: "app_holds NoData s \<Longrightarrow> load_current s = Inl NoDataLoaded"
  by (auto simp: load_current_def)

lemma load_current_holds_Loaded:
  "app_holds (Loaded f sc fn) s \<Longrightarrow>
   \<exists>sid. session_id (cookie s) = Some sid \<and>
     load_current s = Inr (sid, \<lparr>blob_df = f, blob_scanned = sc, blob_filename = fn\<rparr>)"
  by (auto simp: load_current_def load_session_data_def)

lemma app_search_refines:
  assumes "app_holds st s" and "app_search SaveOk b s = (r, s')" and "inv_search b st = (r', st')"
  shows "r = r' \<and> app_holds st' s'"
proof (cases "read_barcode b")
  case (Inl e)
  with assms show ?thesis by (auto simp: app_search_def inv_search_def)
next
  case (Inr code)
  show ?thesis
  proof (cases "code = []")
    case True
    with Inr assms show ?thesis by (auto simp: app_search_def inv_search_def)
  next
    case False
    show ?thesis
    proof (cases st)
      case NoData
      have lc: "load_current s = Inl NoDataLoaded"
        using assms(1) NoData by (simp add: load_current_holds_NoData)
      have a: "app_search SaveOk b s = (Inl NoDataLoaded, s)"
        using Inr False lc by (simp add: app_search_def)
      have i: "inv_search b st = (Inl NoDataLoaded, st)"
        using Inr False NoData by (simp add: inv_search_def)
      from a assms(2) have "r = Inl NoDataLoaded" and "s' = s" by simp_all
      moreover from i assms(3) have "r' = Inl NoDataLoaded" and "st' = st" by simp_all
      ultimately show ?thesis using assms(1) by simp
    next
      case (Loaded f sc fn)
      then obtain sid where sid: "session_id (cookie s) = Some sid"
        and lc: "load_current s = Inr (sid, \<lparr>blob_df = f, blob_scanned = sc, blob_filename = fn\<rparr>)"
        using assms(1) load_current_holds_Loaded by blast
      have hd: "has_data (cookie s)" using assms(1) Loaded by simp
      let ?F = "found_indices f code"
      let ?N = "new_spec ?F sc"
      let ?d = "\<lparr>blob_df = f, blob_scanned = sc, blob_filename = fn\<rparr>"
      show ?thesis
      proof (cases rule: search_core_cases [of f code sc])
        case found
        have a: "app_search SaveOk b s =
            (Inr (RSearch (Found ?F ?N (length sc + length ?N))),
             s\<lparr>disk := (disk s)(sid \<mapsto> Stored (?d\<lparr>blob_scanned := sc @ ?N\<rparr>))\<rparr>)"
          using Inr False lc found(2) by (simp add: app_search_def save_session_data_def)
        have i: "inv_search b st = (Inr (RSearch (Found ?F ?N (length sc + length ?N))), Loaded f (sc @ ?N) fn)"
          using Inr False Loaded found(2) by (simp add: inv_search_def)
        show ?thesis using a i assms(2,3) sid hd by auto
      next
        case not_found
        have a: "app_search SaveOk b s = (Inr (RSearch (NotFound code)), s)"
          using Inr False lc not_found(2) by (simp add: app_search_def)
        have i: "inv_search b st = (Inr (RSearch (NotFound code)), st)"
          using Inr False Loaded not_found(2) by (simp add: inv_search_def)
        from a assms(2) have "r = Inr (RSearch (NotFound code))" and "s' = s" by simp_all
        moreover from i assms(3) have "r' = Inr (RSearch (NotFound code))" and "st' = st" by simp_all
        ultimately show ?thesis using assms(1) by simp
      qed
    qed
  qed
qed

lemma app_upload_refines:
  assumes "app_holds st s" and "app_upload secure fresh SaveOk ff parsed s = (r, s')"
    and "inv_upload secure ff parsed st = (r', st')"
  shows "r = r' \<and> app_holds st' s'"
proof (cases "upload_check ff")
  case (Inl e)
  with assms show ?thesis by (auto simp: app_upload_def inv_upload_def)
next
  case (Inr fn)
  show ?thesis
  proof (cases parsed)
    case (Inl u)
    with Inr assms show ?thesis by (auto simp: app_upload_def inv_upload_def)
  next
    case (Inr f)
    with \<open>upload_check ff = Inr fn\<close> assms show ?thesis
      by (auto simp: app_upload_def inv_upload_def save_session_data_def app_upload_info_eq Let_def)
  qed
qed

lemma app_stats_refines: "app_holds st s \<Longrightarrow> app_stats s = inv_stats st"
proof (cases st)
  case NoData
  then show "app_holds st s \<Longrightarrow> app_stats s = inv_stats st"
    by (simp add: app_stats_def inv_stats_def load_current_holds_NoData)
next
  case (Loaded f sc fn)
  assume "app_holds st s"
  with Loaded obtain sid where
    "load_current s = Inr (sid, \<lparr>blob_df = f, blob_scanned = sc, blob_filename = fn\<rparr>)"
    using load_current_holds_Loaded by blast
  with Loaded show ?thesis by (simp add: app_stats_def inv_stats_def)
qed

lemma app_export_refines: "app_holds st s \<Longrightarrow> app_export s = inv_export st"
proof (cases st)
  case NoData
  then show "app_holds st s \<Longrightarrow> app_export s = inv_export st"
    by (simp add: app_export_def inv_export_def load_current_holds_NoData)
next
  case (Loaded f sc fn)
  assume "app_holds st s"
  with Loaded obtain sid where
    "load_current s = Inr (sid, \<lparr>blob_df = f, blob_scanned = sc, blob_filename = fn\<rparr>)"
    using load_current_holds_Loaded by blast
  with Loaded show ?thesis by (simp add: app_export_def inv_export_def)
qed

lemma app_step_refines:
  assumes "app_holds st s" and "reliable env"
    and "app_step secure env e s = (r, s')" and "inv_step secure e st = (r', st')"
  shows "r = r' \<and> app_holds st' s'"
proof (cases e)
  case (EUpload ff parsed)
  have a: "app_upload secure (env_fresh env) SaveOk ff parsed s = (r, s')"
    using assms(2,3) EUpload by (simp add: reliable_def)
  have i: "inv_upload secure ff parsed st = (r', st')" using assms(4) EUpload by simp
  show ?thesis using assms(1) a i by (rule app_upload_refines)
next
  case (ESearch b)
  have a: "app_search SaveOk b s = (r, s')"
    using assms(2,3) ESearch by (simp add: reliable_def)
  have i: "inv_search b st = (r', st')" using assms(4) ESearch by simp
  show ?thesis using assms(1) a i by (rule app_search_refines)
next
  case EStats
  then have "r = app_stats s" "s' = s" "r' = inv_stats st" "st' = st" using assms(3,4) by auto
  with assms(1) show ?thesis by (simp add: app_stats_refines)
next
  case EExport
  then have "r = app_export s" "s' = s" "r' = inv_export st" "st' = st" using assms(3,4) by auto
  with assms(1) show ?thesis by (simp add: app_export_refines)
next
  case EReset
  then have "r = Inr RReset" "cookie s' = empty_app_cookie" "r' = Inr RReset" "st' = NoData"
    using assms(3,4) by (auto simp: app_reset_def)
  then show ?thesis by (simp add: empty_app_cookie_def)
qed

lemma app_run_refines:
  assumes "app_holds st s" and "\<forall>x \<in> set es. reliable (fst x)"
  shows "fst (app_run secure es s) = fst (inv_run secure (map snd es) st) \<and>
         app_holds (snd (inv_run secure (map snd es) st)) (snd (app_run secure es s))"
  using assms
proof (induction es arbitrary: st s)
  case Nil
  then show ?case by simp
next
  case (Cons x es)
  obtain env e where x: "x = (env, e)" by (cases x)
  obtain r s' where a: "app_step secure env e s = (r, s')" by (cases "app_step secure env e s")
  obtain r' st' where i: "inv_step secure e st = (r', st')" by (cases "inv_step secure e st")
  have rel: "reliable env" using Cons.prems(2) x by simp
  have step: "r = r' \<and> app_holds st' s'"
    using Cons.prems(1) rel a i by (rule app_step_refines)
  have "fst (app_run secure es s') = fst (inv_run secure (map snd es) st') \<and>
      app_holds (snd (inv_run secure (map snd es) st')) (snd (app_run secure es s'))"
    using Cons.IH step Cons.prems(2) by simp
  with step show ?case using x a i
    by (cases "inv_run secure (map snd es) st'", cases "app_run secure es s'") auto
qed

lemma snd_app_run_Cons:
  "snd (app_run secure ((env, e) # es) s) = snd (app_run secure es (snd (app_step secure env e s)))"
  by (simp split: prod.split)

subsection \<open>Lemmas: the store invariant\<close>

lemma store_ok_save:
  "store_ok st \<Longrightarrow> wf_frame (blob_df b) \<Longrightarrow> valid_scanned (nrows (blob_df b)) (blob_scanned b) \<Longrightarrow>
   store_ok (snd (save_session_data io sid b st))"
  by (cases io) (auto simp: store_ok_def save_session_data_def)

lemma load_current_Inr:
  "load_current s = Inr (sid, d) \<Longrightarrow> has_data (cookie s) \<and> session_id (cookie s) = Some sid \<and> disk s sid = Some (Stored d)"
  by (auto simp: load_current_def load_session_data_def split: if_splits option.splits stored.splits)

lemma store_ok_search:
  assumes "store_ok (disk s)"
  shows "store_ok (disk (snd (app_search io b s)))"
proof (cases "\<exists>code sid d. read_barcode b = Inr code \<and> code \<noteq> [] \<and> load_current s = Inr (sid, d)")
  case True
  then obtain code sid d where c: "read_barcode b = Inr code" "code \<noteq> []" and lc: "load_current s = Inr (sid, d)"
    by blast
  have d: "wf_frame (blob_df d) \<and> valid_scanned (nrows (blob_df d)) (blob_scanned d)"
    using assms load_current_Inr [OF lc] by (auto simp: store_ok_def)
  show ?thesis
  proof (cases rule: search_core_cases [of "blob_df d" code "blob_scanned d"])
    case found
    have "valid_scanned (nrows (blob_df d)) (snd (search_core (blob_df d) code (blob_scanned d)))"
      using d by (simp add: valid_scanned_search_core)
    with found d have "store_ok (snd (save_session_data io sid
        (d\<lparr>blob_scanned := blob_scanned d @ new_spec (found_indices (blob_df d) code) (blob_scanned d)\<rparr>) (disk s)))"
      using assms by (intro store_ok_save) simp_all
    with c lc found(2) show ?thesis by (simp add: app_search_def)
  next
    case not_found
    with c lc assms show ?thesis by (simp add: app_search_def)
  qed
next
  case False
  then have "snd (app_search io b s) = s"
    by (auto simp: app_search_def split: sum.split prod.split search_outcome.split)
  with assms show ?thesis by simp
qed

lemma store_ok_upload:
  assumes "store_ok (disk s)" and "wf_event (EUpload ff parsed)"
  shows "store_ok (disk (snd (app_upload secure fresh io ff parsed s)))"
proof (cases "\<exists>fn f. upload_check ff = Inr fn \<and> parsed = Inr f")
  case True
  then obtain fn f where u: "upload_check ff = Inr fn" and p: "parsed = Inr f" by blast
  have wf: "wf_frame f" using assms(2) p by simp
  let ?sid = "case session_id (cookie s) of None \<Rightarrow> fresh | Some x \<Rightarrow> x"
  let ?b = "\<lparr>blob_df = f, blob_scanned = [], blob_filename = secure fn\<rparr>"
  have "store_ok (snd (save_session_data io ?sid ?b (disk s)))"
    using assms(1) wf by (intro store_ok_save) (simp_all add: valid_scanned_def)
  then show ?thesis using u p
    by (auto simp: app_upload_def Let_def split: prod.split bool.split)
next
  case False
  then have "snd (app_upload secure fresh io ff parsed s) = s"
    by (auto simp: app_upload_def split: sum.split)
  with assms show ?thesis by simp
qed

lemma store_ok_reset: "store_ok (disk s) \<Longrightarrow> store_ok (disk (snd (app_reset ok s)))"
  by (auto simp: app_reset_def cleanup_session_data_def store_ok_def split: option.split)

lemma store_ok_step:
  "store_ok (disk s) \<Longrightarrow> wf_event e \<Longrightarrow> store_ok (disk (snd (app_step secure env e s)))"
  by (cases e) (simp_all add: store_ok_search store_ok_upload store_ok_reset)

lemma app_search_Found:
  assumes "load_current s = Inr (sid, d)" and "py_strip bc \<noteq> []"
    and "found_indices (blob_df d) (py_strip bc) \<noteq> []"
  shows "app_search io (BarcodeStr bc) s =
     (Inr (RSearch (Found (found_indices (blob_df d) (py_strip bc))
                          (new_spec (found_indices (blob_df d) (py_strip bc)) (blob_scanned d))
                          (length (blob_scanned d) + length (new_spec (found_indices (blob_df d) (py_strip bc)) (blob_scanned d))))),
      s\<lparr>disk := snd (save_session_data io sid
                 (d\<lparr>blob_scanned := blob_scanned d @ new_spec (found_indices (blob_df d) (py_strip bc)) (blob_scanned d)\<rparr>)
                 (disk s))\<rparr>)"
  using assms by (simp add: app_search_def read_barcode_def search_core_found)


subsection \<open>Properties of the disk-backed application\<close>

text \<open>
  C11: Refinement: when every file operation succeeds, the disk-backed application answers every sequence of requests from a fresh cookie exactly as the abstract session specification does, whatever files other sessions left on disk.
\<close>

theorem app_responses_match_spec:
  assumes "\<forall>x \<in> set es. reliable (fst x)"
  shows "fst (app_run secure es \<lparr>cookie = empty_app_cookie, disk = st\<rparr>) = fst (inv_run secure (map snd es) NoData)"
proof -
  have "app_holds NoData \<lparr>cookie = empty_app_cookie, disk = st\<rparr>" by (simp add: empty_app_cookie_def)
  with assms show ?thesis using app_run_refines by blast
qed

text \<open>
  C12: Scanning a code present in the loaded sheet of \<open>App.py\<close>: the response is \<open>found\<close> with all matching rows and the duplicate-free list of the matching rows not scanned before, and the session file is rewritten with the scanned list extended by exactly these rows.
\<close>

theorem app_search_found:
  assumes "load_current s = Inr (sid, d)" and "py_strip bc \<noteq> []"
    and "found_indices (blob_df d) (py_strip bc) \<noteq> []"
  shows "\<exists>N. app_search SaveOk (BarcodeStr bc) s =
             (Inr (RSearch (Found (found_indices (blob_df d) (py_strip bc)) N (length (blob_scanned d) + length N))),
              s\<lparr>disk := (disk s)(sid \<mapsto> Stored (d\<lparr>blob_scanned := blob_scanned d @ N\<rparr>))\<rparr>)
           \<and> distinct N \<and> set N = set (found_indices (blob_df d) (py_strip bc)) - set (blob_scanned d)"
  using app_search_Found [OF assms, of SaveOk] distinct_new_spec
  by (auto simp: save_session_data_def)

text \<open>
  C13: Invariant of the session store: after any sequence of requests, with any outcome of the file operations, every session file that holds data holds a well-formed frame and a scanned list without duplicates whose indices are rows of that frame.
\<close>

theorem app_run_store_ok:
  assumes "store_ok (disk s)" and "\<forall>x \<in> set es. wf_event (snd x)"
  shows "store_ok (disk (snd (app_run secure es s)))"
  using assms
proof (induction es arbitrary: s)
  case Nil
  then show ?case by simp
next
  case (Cons x es)
  obtain env e where x: "x = (env, e)" by (cases x)
  have "store_ok (disk (snd (app_step secure env e s)))"
    using Cons.prems x by (simp add: store_ok_step)
  with Cons.IH Cons.prems(2) x have "store_ok (disk (snd (app_run secure es (snd (app_step secure env e s)))))"
    by simp
  with x show ?case by (simp only: snd_app_run_Cons)
qed

text \<open>
  C14: Isolation of sessions: a request changes at most the session file of its own session id (the one in its cookie, or the fresh one it draws); every other session file is left as it was.
\<close>

theorem app_step_isolation:
  "disk (snd (app_step secure env e s)) =
     (disk s)((case session_id (cookie s) of None \<Rightarrow> env_fresh env | Some x \<Rightarrow> x) :=
                disk (snd (app_step secure env e s)) (case session_id (cookie s) of None \<Rightarrow> env_fresh env | Some x \<Rightarrow> x))"
proof (cases e)
  case (EUpload ff parsed)
  then show ?thesis
    by (auto simp: app_upload_def save_session_data_def Let_def fun_eq_iff
        split: sum.split option.split save_outcome.split)
next
  case (ESearch b)
  then show ?thesis
    by (auto simp: app_search_def save_session_data_def load_current_def fun_eq_iff
        split: sum.split option.split save_outcome.split prod.split search_outcome.split if_splits)
next
  case EStats
  then show ?thesis by simp
next
  case EExport
  then show ?thesis by simp
next
  case EReset
  then show ?thesis
    by (auto simp: app_reset_def cleanup_session_data_def fun_eq_iff split: option.split)
qed

text \<open>
  C15: A lost update: when rewriting the session file fails while writing, \<open>/search\<close> still answers \<open>found\<close> with the new rows, and the next \<open>/stats\<close> of the session fails with \<open>LoadFailed\<close> (status 500): the result of \<open>save_session_data\<close> at line 162 is ignored.
\<close>

theorem app_search_write_failure:
  assumes "load_current s = Inr (sid, d)" and "py_strip bc \<noteq> []"
    and "found_indices (blob_df d) (py_strip bc) \<noteq> []"
  shows "(\<exists>F N t. fst (app_search FailWrite (BarcodeStr bc) s) = Inr (RSearch (Found F N t))) \<and>
         app_stats (snd (app_search FailWrite (BarcodeStr bc) s)) = Inl LoadFailed"
proof -
  have c: "has_data (cookie s) \<and> session_id (cookie s) = Some sid"
    using load_current_Inr [OF assms(1)] by simp
  show ?thesis
    using app_search_Found [OF assms, of FailWrite] c
    by (simp add: save_session_data_def app_stats_def load_current_def load_session_data_def)
qed

text \<open>
  C16: \<open>/reset\<close> clears the cookie, so the next \<open>/stats\<close> reports no data, and removes the session file; when the removal fails, the file of the old session id stays on disk, unreachable, because the result of \<open>cleanup_session_data\<close> is ignored.
\<close>

theorem app_reset_remove_failure:
  assumes "session_id (cookie s) = Some sid"
  shows "disk (snd (app_reset False s)) sid = disk s sid \<and> disk (snd (app_reset True s)) sid = None \<and>
         app_stats (snd (app_reset ok s)) = Inl NoDataLoaded"
  using assms
  by (simp add: app_reset_def cleanup_session_data_def app_stats_def load_current_def empty_app_cookie_def)

end
