(* ===== verification/Loader.thy ===== *)
theory Loader
  imports Session
begin

section \<open>The dataset loader: the upload folder and the phases of an upload\<close>

text \<open>
  Both versions of \<open>upload_file\<close> load the sheet the same way (\<open>App.py\<close>
  lines 80--85 and 103, \<open>inventory_flask_app.py\<close> lines 36--41 and 50):
  \<^verbatim>\<open>
  filepath = os.path.join(app.config['UPLOAD_FOLDER'], filename)
  file.save(filepath)
  df = pd.read_excel(filepath)
  ... store df in the session ...
  os.remove(filepath)
  \<close>
  The folder \<open>uploads/\<close> is shared by all sessions and the path depends only
  on the secured file name. This theory models the folder as a map from
  file names to file contents and an upload request, once its guards have
  passed, as three atomic phases: save the file, read it and commit the
  sheet to the session, remove the file. What "commit" does is the one
  thing the two applications do differently; it is a parameter here (the
  request's own state \<open>'l\<close> and the state shared by all sessions \<open>'g\<close>),
  and \<open>Loader_Apps\<close> instantiates it. \<open>pd.read_excel\<close> is the parameter
  \<open>rd\<close>: the frame a file's content parses to, or \<open>Inl\<close> when it raises.

  Concurrent requests (the Flask development server and every production
  server run requests in threads) are a list of requests and a schedule:
  the list of the indices of the requests whose next phase runs, in order.
  This is the indexed interleaving of a family of components: a phase of
  request \<open>i\<close> changes request \<open>i\<close> and the shared state, and no other request.
\<close>

subsection \<open>State\<close>

type_synonym folder = "string \<Rightarrow> string option"

text \<open>
  Where a request is: before \<open>file.save\<close>, after it, after the commit (the
  response it will give once the file is removed), or answered.
\<close>

datatype phase = Ready | FileSaved | Committed response | Finished "error + response"

record 'l request =
  rq_local :: 'l
  rq_name :: string
  rq_content :: string
  rq_phase :: phase

record 'g server =
  srv_shared :: 'g
  srv_uploads :: folder

subsection \<open>One phase of one request\<close>

text \<open>
  \<open>file.save\<close> writes the content under the name (replacing any file of
  that name); \<open>pd.read_excel\<close> of a missing file raises, and so does
  \<open>os.remove\<close>; both land in the handler's \<open>except\<close> (status 500). A failed
  commit answers its error and leaves the file in the folder: the code
  removes it only after a successful commit.
\<close>

fun ld_step ::
  "(string \<Rightarrow> unit + frame) \<Rightarrow> (string \<Rightarrow> 'l \<Rightarrow> frame \<Rightarrow> 'g \<Rightarrow> (error + response) \<times> 'l \<times> 'g)
   \<Rightarrow> 'l request \<Rightarrow> 'g server \<Rightarrow> 'l request \<times> 'g server" where
  "ld_step rd cm r g =
     (case rq_phase r of
        Ready \<Rightarrow>
          (r\<lparr>rq_phase := FileSaved\<rparr>, g\<lparr>srv_uploads := (srv_uploads g)(rq_name r \<mapsto> rq_content r)\<rparr>)
      | FileSaved \<Rightarrow>
          (case srv_uploads g (rq_name r) of
             None \<Rightarrow> (r\<lparr>rq_phase := Finished (Inl Exception)\<rparr>, g)
           | Some c \<Rightarrow>
               (case rd c of
                  Inl _ \<Rightarrow> (r\<lparr>rq_phase := Finished (Inl Exception)\<rparr>, g)
                | Inr f \<Rightarrow>
                    (case cm (rq_name r) (rq_local r) f (srv_shared g) of
                       (Inl e, l', sh') \<Rightarrow> (r\<lparr>rq_local := l', rq_phase := Finished (Inl e)\<rparr>, g\<lparr>srv_shared := sh'\<rparr>)
                     | (Inr resp, l', sh') \<Rightarrow> (r\<lparr>rq_local := l', rq_phase := Committed resp\<rparr>, g\<lparr>srv_shared := sh'\<rparr>))))
      | Committed resp \<Rightarrow>
          (case srv_uploads g (rq_name r) of
             None \<Rightarrow> (r\<lparr>rq_phase := Finished (Inl Exception)\<rparr>, g)
           | Some _ \<Rightarrow> (r\<lparr>rq_phase := Finished (Inr resp)\<rparr>, g\<lparr>srv_uploads := (srv_uploads g)(rq_name r := None)\<rparr>))
      | Finished _ \<Rightarrow> (r, g))"

text \<open>A schedule of upload requests (\<open>Prelude.sched\<close>).\<close>

abbreviation ld_sched ::
  "(string \<Rightarrow> unit + frame) \<Rightarrow> (string \<Rightarrow> 'l \<Rightarrow> frame \<Rightarrow> 'g \<Rightarrow> (error + response) \<times> 'l \<times> 'g)
   \<Rightarrow> nat list \<Rightarrow> 'l request list \<Rightarrow> 'g server \<Rightarrow> 'l request list \<times> 'g server" where
  "ld_sched rd cm \<equiv> sched (ld_step rd cm)"

text \<open>A request that runs alone: its three phases one after the other.\<close>

definition ld_alone ::
  "(string \<Rightarrow> unit + frame) \<Rightarrow> (string \<Rightarrow> 'l \<Rightarrow> frame \<Rightarrow> 'g \<Rightarrow> (error + response) \<times> 'l \<times> 'g)
   \<Rightarrow> 'l request \<Rightarrow> 'g server \<Rightarrow> 'l request \<times> 'g server" where
  "ld_alone rd cm r g =
     (case ld_step rd cm r g of (r1, g1) \<Rightarrow>
        (case ld_step rd cm r1 g1 of (r2, g2) \<Rightarrow> ld_step rd cm r2 g2))"

definition finished :: "phase \<Rightarrow> bool" where
  "finished p = (case p of Finished _ \<Rightarrow> True | _ \<Rightarrow> False)"

text \<open>How far a request has got: the number of its phases that have run.\<close>

fun phase_rank :: "phase \<Rightarrow> nat" where
  "phase_rank Ready = 0"
| "phase_rank FileSaved = 1"
| "phase_rank (Committed _) = 2"
| "phase_rank (Finished _) = 3"

subsection \<open>The reference: a private file per request\<close>

text \<open>
  What the handlers mean to do: every request reads back the file it
  saved. Here the saved content travels with the request and no folder is
  shared; a removal cannot fail.
\<close>

fun pv_step ::
  "(string \<Rightarrow> unit + frame) \<Rightarrow> (string \<Rightarrow> 'l \<Rightarrow> frame \<Rightarrow> 'g \<Rightarrow> (error + response) \<times> 'l \<times> 'g)
   \<Rightarrow> 'l request \<Rightarrow> 'g \<Rightarrow> 'l request \<times> 'g" where
  "pv_step rd cm r sh =
     (case rq_phase r of
        Ready \<Rightarrow> (r\<lparr>rq_phase := FileSaved\<rparr>, sh)
      | FileSaved \<Rightarrow>
          (case rd (rq_content r) of
             Inl _ \<Rightarrow> (r\<lparr>rq_phase := Finished (Inl Exception)\<rparr>, sh)
           | Inr f \<Rightarrow>
               (case cm (rq_name r) (rq_local r) f sh of
                  (Inl e, l', sh') \<Rightarrow> (r\<lparr>rq_local := l', rq_phase := Finished (Inl e)\<rparr>, sh')
                | (Inr resp, l', sh') \<Rightarrow> (r\<lparr>rq_local := l', rq_phase := Committed resp\<rparr>, sh')))
      | Committed resp \<Rightarrow> (r\<lparr>rq_phase := Finished (Inr resp)\<rparr>, sh)
      | Finished _ \<Rightarrow> (r, sh))"

abbreviation pv_sched ::
  "(string \<Rightarrow> unit + frame) \<Rightarrow> (string \<Rightarrow> 'l \<Rightarrow> frame \<Rightarrow> 'g \<Rightarrow> (error + response) \<times> 'l \<times> 'g)
   \<Rightarrow> nat list \<Rightarrow> 'l request list \<Rightarrow> 'g \<Rightarrow> 'l request list \<times> 'g" where
  "pv_sched rd cm \<equiv> sched (pv_step rd cm)"

text \<open>
  The coupling: a request between \<open>file.save\<close> and \<open>os.remove\<close> finds its
  own content under its name.
\<close>

fun in_flight :: "phase \<Rightarrow> bool" where
  "in_flight FileSaved = True"
| "in_flight (Committed _) = True"
| "in_flight _ = False"

definition own_files :: "'l request list \<Rightarrow> folder \<Rightarrow> bool" where
  "own_files rs up = list_all (\<lambda>r. in_flight (rq_phase r) \<longrightarrow> up (rq_name r) = Some (rq_content r)) rs"

subsection \<open>Lemmas\<close>

lemma ld_step_keeps:
  "rq_name (fst (ld_step rd cm r g)) = rq_name r \<and> rq_content (fst (ld_step rd cm r g)) = rq_content r"
  by (simp split: phase.split option.split sum.split prod.split)

lemma ld_step_rank: "min 3 (Suc (phase_rank (rq_phase r))) \<le> phase_rank (rq_phase (fst (ld_step rd cm r g)))"
  by (cases "rq_phase r") (simp_all split: option.split sum.split prod.split)

lemma ld_alone_finished:
  assumes "rq_phase r = Ready"
  shows "finished (rq_phase (fst (ld_alone rd cm r g)))"
proof -
  obtain r1 g1 where s1: "ld_step rd cm r g = (r1, g1)" by fastforce
  obtain r2 g2 where s2: "ld_step rd cm r1 g1 = (r2, g2)" by fastforce
  have "1 \<le> phase_rank (rq_phase r1)"
    using ld_step_rank [of r rd cm g] s1 by (simp del: ld_step.simps)
  then have "2 \<le> phase_rank (rq_phase r2)"
    using ld_step_rank [of r1 rd cm g1] s2 by (simp del: ld_step.simps)
  then have "3 \<le> phase_rank (rq_phase (fst (ld_step rd cm r2 g2)))"
    using ld_step_rank [of r2 rd cm g2] by (simp del: ld_step.simps)
  then have "finished (rq_phase (fst (ld_step rd cm r2 g2)))"
    by (cases "rq_phase (fst (ld_step rd cm r2 g2))") (simp_all add: finished_def del: ld_step.simps)
  with s1 s2 show ?thesis by (simp add: ld_alone_def del: ld_step.simps)
qed

text \<open>The coupling with the private-file reference is kept by every phase.\<close>

lemma own_files_step:
  assumes "distinct (map rq_name rs)" and "own_files rs (srv_uploads g)" and "i < length rs"
    and "ld_step rd cm (rs ! i) g = (r', g')"
  shows "distinct (map rq_name (rs[i := r'])) \<and> own_files (rs[i := r']) (srv_uploads g')"
proof -
  have k: "rq_name r' = rq_name (rs ! i)" "rq_content r' = rq_content (rs ! i)"
    using ld_step_keeps [of rd cm "rs ! i" g] assms(4) by simp_all
  have names: "map rq_name (rs[i := r']) = map rq_name rs"
    using k assms(3) by (metis list_update_id map_update)
  have other: "rq_name (rs ! j) \<noteq> rq_name (rs ! i)" if "j < length rs" "j \<noteq> i" for j
    using assms(1,3) that by (simp add: nth_eq_iff_index_eq distinct_conv_nth)
  have up: "srv_uploads g' n = srv_uploads g n" if "n \<noteq> rq_name (rs ! i)" for n
    using assms(4) that by (auto split: phase.splits option.splits sum.splits prod.splits)
  have own_i: "in_flight (rq_phase r') \<longrightarrow> srv_uploads g' (rq_name r') = Some (rq_content r')"
    using assms(2,3,4) k
    by (cases "rq_phase (rs ! i)")
       (auto simp: own_files_def list_all_length split: option.splits sum.splits prod.splits)
  have "own_files (rs[i := r']) (srv_uploads g')"
    unfolding own_files_def list_all_length
  proof (intro allI impI)
    fix j assume j: "j < length (rs[i := r'])" and fl: "in_flight (rq_phase (rs[i := r'] ! j))"
    show "srv_uploads g' (rq_name (rs[i := r'] ! j)) = Some (rq_content (rs[i := r'] ! j))"
    proof (cases "j = i")
      case True
      then show ?thesis using own_i fl assms(3) by simp
    next
      case False
      then show ?thesis using assms(2) j fl other [of j] up [of "rq_name (rs ! j)"]
        by (simp add: own_files_def list_all_length)
    qed
  qed
  with names assms(1) show ?thesis by simp
qed

lemma ld_step_pv_step:
  assumes "in_flight (rq_phase r) \<longrightarrow> srv_uploads g (rq_name r) = Some (rq_content r)"
  shows "map_prod id srv_shared (ld_step rd cm r g) = pv_step rd cm r (srv_shared g)"
  using assms
  by (cases "rq_phase r") (simp_all split: option.split sum.split prod.split)

subsection \<open>Properties of concurrent uploads\<close>

text \<open>
  C26: When the requests running together upload files of pairwise different names, the shared folder is invisible: under every schedule each request reads back the file it saved, no removal fails, and the requests and the session state end exactly as with a private file per request.
\<close>

theorem ld_sched_private:
  fixes rs :: "'l request list" and g :: "'g server"
  assumes "distinct (map rq_name rs)" and "own_files rs (srv_uploads g)"
  shows "map_prod id srv_shared (ld_sched rd cm js rs g) = pv_sched rd cm js rs (srv_shared g)"
proof (rule sched_sim [where R = "\<lambda>rs g. distinct (map rq_name rs) \<and> own_files rs (srv_uploads g)"])
  show "distinct (map rq_name rs) \<and> own_files rs (srv_uploads g)" using assms ..
next
  fix rs :: "'l request list" and g :: "'g server" and i
  assume R: "distinct (map rq_name rs) \<and> own_files rs (srv_uploads g)" and i: "i < length rs"
  obtain r' g' where st: "ld_step rd cm (rs ! i) g = (r', g')" by fastforce
  with own_files_step [of rs g i rd cm r' g'] R i
  show "distinct (map rq_name (rs[i := fst (ld_step rd cm (rs ! i) g)])) \<and>
        own_files (rs[i := fst (ld_step rd cm (rs ! i) g)]) (srv_uploads (snd (ld_step rd cm (rs ! i) g)))"
    by (simp del: ld_step.simps)
next
  fix rs :: "'l request list" and g :: "'g server" and i
  assume R: "distinct (map rq_name rs) \<and> own_files rs (srv_uploads g)" and i: "i < length rs"
  then have "in_flight (rq_phase (rs ! i)) \<longrightarrow> srv_uploads g (rq_name (rs ! i)) = Some (rq_content (rs ! i))"
    by (simp add: own_files_def list_all_length)
  then show "map_prod id srv_shared (ld_step rd cm (rs ! i) g) = pv_step rd cm (rs ! i) (srv_shared g)"
    by (rule ld_step_pv_step)
qed

end
