(* ===== verification/Loader_Apps.thy ===== *)
theory Loader_Apps
  imports Loader Cookie_App Disk_App
begin

section \<open>The loader in the two applications\<close>

text \<open>
  The commit phase of each \<open>upload_file\<close>, plugged into the loader of
  \<open>Loader\<close>: the request-level upload handlers with the upload folder, the
  proof that, run alone, they are the handlers \<open>cookie_upload\<close> and
  \<open>app_upload\<close> with the parsed sheet being \<open>pd.read_excel\<close> of the file's
  content, what they leave in the folder, and what two concurrent uploads
  of files with the same name do.
\<close>

subsection \<open>Commit phases\<close>

text \<open>
  \<open>inventory_flask_app.py\<close> lines 43--47: the records, the columns, an
  empty scanned list and the file name go into the cookie; the response is
  built (lines 52--58) once the file is removed.
\<close>

definition cookie_commit ::
  "string \<Rightarrow> cookie_session \<Rightarrow> frame \<Rightarrow> unit \<Rightarrow> (error + response) \<times> cookie_session \<times> unit" where
  "cookie_commit name s f u =
     (Inr (RUpload (upload_summary f)),
      s\<lparr>df_data := Some (to_records f), df_columns := Some (columns f),
        scanned_items := Some [], filename := Some name\<rparr>, u)"

text \<open>
  \<open>App.py\<close> lines 87--112. The request's own state is the client's cookie
  with what the environment gives this request: the \<open>uuid4\<close> it would draw
  and the outcome of \<open>save_session_data\<close>.
\<close>

record disk_client =
  dc_cookie :: app_cookie
  dc_fresh :: session_id
  dc_io :: save_outcome

definition app_commit ::
  "string \<Rightarrow> disk_client \<Rightarrow> frame \<Rightarrow> store \<Rightarrow> (error + response) \<times> disk_client \<times> store" where
  "app_commit name l f st =
     (let sid = (case session_id (dc_cookie l) of None \<Rightarrow> dc_fresh l | Some x \<Rightarrow> x);
          c1 = (dc_cookie l)\<lparr>session_id := Some sid\<rparr>;
          b = \<lparr>blob_df = f, blob_scanned = [], blob_filename = name\<rparr>
      in (case save_session_data (dc_io l) sid b st of
            (True, st') \<Rightarrow>
              (Inr (RUpload (app_upload_info f)),
               l\<lparr>dc_cookie := c1\<lparr>has_data := True, records_count_c := Some (nrows f),
                                  filename_c := Some name\<rparr>\<rparr>, st')
          | (False, st') \<Rightarrow> (Inl SaveFailed, l\<lparr>dc_cookie := c1\<rparr>, st')))"

subsection \<open>The upload handlers with the upload folder\<close>

text \<open>
  The answer of a request: what it finished with. A request that runs alone
  has always finished (\<open>ld_alone_finished\<close>), so the default is never used.
\<close>

definition answer :: "phase \<Rightarrow> error + response" where
  "answer p = (case p of Finished x \<Rightarrow> x | _ \<Rightarrow> Inl Exception)"

definition new_request :: "'l \<Rightarrow> string \<Rightarrow> string \<Rightarrow> 'l request" where
  "new_request l name content = \<lparr>rq_local = l, rq_name = name, rq_content = content, rq_phase = Ready\<rparr>"

text \<open>\<open>upload_file\<close> of \<open>inventory_flask_app.py\<close>, lines 25--65, on the cookie and the folder.\<close>

definition cookie_upload_fs ::
  "(string \<Rightarrow> unit + frame) \<Rightarrow> (string \<Rightarrow> string) \<Rightarrow> file_field \<Rightarrow> string \<Rightarrow> cookie_session \<times> folder
   \<Rightarrow> (error + response) \<times> cookie_session \<times> folder" where
  "cookie_upload_fs rd secure ff content sf =
     (case upload_check ff of
        Inl e \<Rightarrow> (Inl e, sf)
      | Inr fn \<Rightarrow>
          (case ld_alone rd cookie_commit (new_request (fst sf) (secure fn) content)
                  \<lparr>srv_shared = (), srv_uploads = snd sf\<rparr> of
             (r, g) \<Rightarrow> (answer (rq_phase r), rq_local r, srv_uploads g)))"

text \<open>\<open>upload_file\<close> of \<open>App.py\<close>, lines 68--120, on the cookie, the session files and the folder.\<close>

definition app_upload_fs ::
  "(string \<Rightarrow> unit + frame) \<Rightarrow> (string \<Rightarrow> string) \<Rightarrow> session_id \<Rightarrow> save_outcome \<Rightarrow> file_field \<Rightarrow> string
   \<Rightarrow> app_state \<times> folder \<Rightarrow> (error + response) \<times> app_state \<times> folder" where
  "app_upload_fs rd secure fresh io ff content sf =
     (case upload_check ff of
        Inl e \<Rightarrow> (Inl e, sf)
      | Inr fn \<Rightarrow>
          (case ld_alone rd app_commit
                  (new_request \<lparr>dc_cookie = cookie (fst sf), dc_fresh = fresh, dc_io = io\<rparr> (secure fn) content)
                  \<lparr>srv_shared = disk (fst sf), srv_uploads = snd sf\<rparr> of
             (r, g) \<Rightarrow> (answer (rq_phase r), \<lparr>cookie = dc_cookie (rq_local r), disk = srv_shared g\<rparr>, srv_uploads g)))"

subsection \<open>Lemmas\<close>

lemma app_upload_split:
  "app_upload secure fresh io ff parsed s =
     (case upload_check ff of
        Inl e \<Rightarrow> (Inl e, s)
      | Inr fn \<Rightarrow>
          (case parsed of
             Inl _ \<Rightarrow> (Inl Exception, s)
           | Inr f \<Rightarrow>
               (case app_commit (secure fn) \<lparr>dc_cookie = cookie s, dc_fresh = fresh, dc_io = io\<rparr> f (disk s) of
                  (x, l', st') \<Rightarrow> (x, \<lparr>cookie = dc_cookie l', disk = st'\<rparr>))))"
  by (cases "upload_check ff"; cases parsed; cases "session_id (cookie s)")
     (simp_all add: app_upload_def app_commit_def save_session_data_def split: save_outcome.split)

subsection \<open>Properties\<close>

text \<open>
  C27: Refinement of the loader: run alone, \<open>upload_file\<close> of \<open>App.py\<close> with the upload folder (save, \<open>read_excel\<close>, commit, remove) answers and changes the cookie and the session files exactly as the handler \<open>app_upload\<close> given the sheet that \<open>read_excel\<close> makes of the uploaded content.
\<close>

theorem app_upload_fs_refines:
  "map_prod id fst (app_upload_fs rd secure fresh io ff c (s, up)) = app_upload secure fresh io ff (rd c) s"
proof (cases "upload_check ff")
  case (Inl e)
  then show ?thesis by (simp add: app_upload_fs_def app_upload_split)
next
  case (Inr fn)
  show ?thesis
  proof (cases "rd c")
    case (Inl u)
    with Inr show ?thesis
      by (simp add: app_upload_fs_def app_upload_split ld_alone_def new_request_def answer_def)
  next
    case (Inr f)
    obtain x l' st' where cm: "app_commit (secure fn) \<lparr>dc_cookie = cookie s, dc_fresh = fresh, dc_io = io\<rparr> f (disk s) = (x, l', st')"
      by (cases "app_commit (secure fn) \<lparr>dc_cookie = cookie s, dc_fresh = fresh, dc_io = io\<rparr> f (disk s)") auto
    with Inr \<open>upload_check ff = Inr fn\<close> show ?thesis
      by (cases x) (simp_all add: app_upload_fs_def app_upload_split ld_alone_def new_request_def answer_def)
  qed
qed

text \<open>
  C28: The same for \<open>inventory_flask_app.py\<close>: run alone, its upload with the folder is \<open>cookie_upload\<close> given the sheet parsed from the uploaded content.
\<close>

theorem cookie_upload_fs_refines:
  "map_prod id fst (cookie_upload_fs rd secure ff c (s, up)) = cookie_upload secure ff (rd c) s"
  by (cases "upload_check ff"; cases "rd c")
     (simp_all add: cookie_upload_fs_def cookie_upload_def ld_alone_def new_request_def answer_def cookie_commit_def)

text \<open>
  C29: What an upload that got past the guards leaves in \<open>uploads/\<close>: after a successful upload no file of that name is left (a file of that name that was there before is gone too); after a failed one (\<open>read_excel\<close> raised or \<open>save_session_data\<close> failed) the uploaded file stays, because \<open>os.remove\<close> is only reached on success.
\<close>

theorem app_upload_fs_folder:
  assumes "upload_check ff = Inr fn"
  shows "snd (snd (app_upload_fs rd secure fresh io ff c (s, up))) =
           (case fst (app_upload_fs rd secure fresh io ff c (s, up)) of
              Inr _ \<Rightarrow> up(secure fn := None)
            | Inl _ \<Rightarrow> up(secure fn \<mapsto> c))"
proof (cases "rd c")
  case (Inl u)
  with assms show ?thesis
    by (simp add: app_upload_fs_def ld_alone_def new_request_def answer_def)
next
  case (Inr f)
  obtain x l' st' where cm: "app_commit (secure fn) \<lparr>dc_cookie = cookie s, dc_fresh = fresh, dc_io = io\<rparr> f (disk s) = (x, l', st')"
    by (cases "app_commit (secure fn) \<lparr>dc_cookie = cookie s, dc_fresh = fresh, dc_io = io\<rparr> f (disk s)") auto
  with Inr assms show ?thesis
    by (cases x) (simp_all add: app_upload_fs_def ld_alone_def new_request_def answer_def)
qed

text \<open>
  C30: Two clients with different sessions upload files of the same name concurrently; in the schedule save A, save B, commit A, commit B, remove A, remove B, client A's session file holds B's sheet and A is told its upload succeeded with B's record count, whatever A uploaded; B's data is saved and its cookie says so, yet B gets an error, because its \<open>os.remove\<close> finds the file gone.
\<close>

theorem upload_same_name_race:
  assumes "rd cB = Inr fB"
    and "session_id (dc_cookie lA) = Some sA" and "session_id (dc_cookie lB) = Some sB" and "sA \<noteq> sB"
    and "dc_io lA = SaveOk" and "dc_io lB = SaveOk"
  shows "(case ld_sched rd app_commit [0, 1, 0, 1, 0, 1] [new_request lA n cA, new_request lB n cB] g of
            (rs', g') \<Rightarrow>
              srv_shared g' sA = Some (Stored \<lparr>blob_df = fB, blob_scanned = [], blob_filename = n\<rparr>)
            \<and> answer (rq_phase (rs' ! 0)) = Inr (RUpload (app_upload_info fB))
            \<and> srv_shared g' sB = Some (Stored \<lparr>blob_df = fB, blob_scanned = [], blob_filename = n\<rparr>)
            \<and> has_data (dc_cookie (rq_local (rs' ! 1)))
            \<and> answer (rq_phase (rs' ! 1)) = Inl Exception
            \<and> srv_uploads g' n = None)"
  using assms
  by (simp add: new_request_def app_commit_def save_session_data_def answer_def)

end
