(* ===== verification/Search_Conc.thy ===== *)
theory Search_Conc
  imports Disk_App
begin

section \<open>Concurrent scans of one session in \<open>App.py\<close>\<close>

text \<open>
  \<open>search_barcode\<close> (\<open>App.py\<close> lines 122--180) reads the session file,
  computes the new scanned list in memory, and writes the whole file back:
  \<^verbatim>\<open>
  session_data = load_session_data(session['session_id'])   # read
  ... scanned_items.append(idx) ...                          # compute
  save_session_data(session['session_id'], session_data)     # write
  \<close>
  Nothing serialises two requests of the same session: a hand scanner or
  two browser tabs send scans while the previous one is still running,
  and the server runs them in threads. This theory splits the handler into
  its two atomic phases on the store of session files, the read (with the
  guards and the search, which touch nothing shared) and the write, and
  runs lists of such requests under the schedules of \<open>Prelude.sched\<close>.
\<close>

subsection \<open>A search request and its phases\<close>

text \<open>
  Before the read; after it, with the session id, the dictionary as it
  will be written and the answer; answered.
\<close>

datatype search_phase = SReady | SLoaded session_id blob search_outcome | SDone "error + response"

record search_req =
  sq_cookie :: app_cookie
  sq_barcode :: barcode_field
  sq_io :: save_outcome
  sq_phase :: search_phase

definition sq_step :: "search_req \<Rightarrow> store \<Rightarrow> search_req \<times> store" where
  "sq_step r st =
     (case sq_phase r of
        SReady \<Rightarrow>
          (case read_barcode (sq_barcode r) of
             Inl e \<Rightarrow> (r\<lparr>sq_phase := SDone (Inl e)\<rparr>, st)
           | Inr code \<Rightarrow>
               if code = [] then (r\<lparr>sq_phase := SDone (Inl EmptyBarcode)\<rparr>, st)
               else (case load_current \<lparr>cookie = sq_cookie r, disk = st\<rparr> of
                       Inl e \<Rightarrow> (r\<lparr>sq_phase := SDone (Inl e)\<rparr>, st)
                     | Inr (sid, d) \<Rightarrow>
                         (case search_core (blob_df d) code (blob_scanned d) of
                            (Found m n t, sc') \<Rightarrow>
                              (r\<lparr>sq_phase := SLoaded sid (d\<lparr>blob_scanned := sc'\<rparr>) (Found m n t)\<rparr>, st)
                          | (NotFound c, sc') \<Rightarrow> (r\<lparr>sq_phase := SDone (Inr (RSearch (NotFound c)))\<rparr>, st))))
      | SLoaded sid d res \<Rightarrow>
          (r\<lparr>sq_phase := SDone (Inr (RSearch res))\<rparr>, snd (save_session_data (sq_io r) sid d st))
      | SDone _ \<Rightarrow> (r, st))"

abbreviation sq_sched :: "nat list \<Rightarrow> search_req list \<Rightarrow> store \<Rightarrow> search_req list \<times> store" where
  "sq_sched \<equiv> sched sq_step"

definition sq_request :: "app_cookie \<Rightarrow> barcode_field \<Rightarrow> save_outcome \<Rightarrow> search_req" where
  "sq_request c b io = \<lparr>sq_cookie = c, sq_barcode = b, sq_io = io, sq_phase = SReady\<rparr>"

definition sq_answer :: "search_phase \<Rightarrow> error + response" where
  "sq_answer p = (case p of SDone x \<Rightarrow> x | _ \<Rightarrow> Inl Exception)"

text \<open>A dictionary about to be written is well formed.\<close>

definition loaded_ok :: "search_req \<Rightarrow> bool" where
  "loaded_ok r =
     (case sq_phase r of
        SLoaded sid d res \<Rightarrow> wf_frame (blob_df d) \<and> valid_scanned (nrows (blob_df d)) (blob_scanned d)
      | _ \<Rightarrow> True)"

subsection \<open>Lemmas\<close>

lemma app_state_rebuild [simp]: "\<lparr>cookie = cookie s, disk = disk s\<rparr> = s"
  by simp

lemma sq_request_sel [simp]:
  "sq_cookie (sq_request c b io) = c" "sq_barcode (sq_request c b io) = b"
  "sq_io (sq_request c b io) = io" "sq_phase (sq_request c b io) = SReady"
  by (simp_all add: sq_request_def)

lemma sq_step_save:
  "sq_phase r = SLoaded sid d res \<Longrightarrow>
   sq_step r st = (r\<lparr>sq_phase := SDone (Inr (RSearch res))\<rparr>, snd (save_session_data (sq_io r) sid d st))"
  by (simp add: sq_step_def)

lemma sq_step_load_found:
  assumes "load_current \<lparr>cookie = c, disk = st\<rparr> = Inr (sid, d)" and "py_strip bc \<noteq> []"
    and "found_indices (blob_df d) (py_strip bc) \<noteq> []"
  shows "sq_step (sq_request c (BarcodeStr bc) io) st =
     (sq_request c (BarcodeStr bc) io\<lparr>sq_phase := SLoaded sid
        (d\<lparr>blob_scanned := blob_scanned d @ new_spec (found_indices (blob_df d) (py_strip bc)) (blob_scanned d)\<rparr>)
        (Found (found_indices (blob_df d) (py_strip bc)) (new_spec (found_indices (blob_df d) (py_strip bc)) (blob_scanned d))
               (length (blob_scanned d) + length (new_spec (found_indices (blob_df d) (py_strip bc)) (blob_scanned d))))\<rparr>, st)"
  using assms by (simp add: sq_step_def sq_request_def read_barcode_def search_core_found)

lemma sq_step_loaded_ok:
  assumes "store_ok st" and "loaded_ok r"
  shows "store_ok (snd (sq_step r st)) \<and> loaded_ok (fst (sq_step r st))"
proof (cases "sq_phase r")
  case SReady
  show ?thesis
  proof (cases "\<exists>code sid d. read_barcode (sq_barcode r) = Inr code \<and> code \<noteq> [] \<and>
                  load_current \<lparr>cookie = sq_cookie r, disk = st\<rparr> = Inr (sid, d)")
    case True
    then obtain code sid d where c: "read_barcode (sq_barcode r) = Inr code" "code \<noteq> []"
      and lc: "load_current \<lparr>cookie = sq_cookie r, disk = st\<rparr> = Inr (sid, d)" by blast
    have d: "wf_frame (blob_df d) \<and> valid_scanned (nrows (blob_df d)) (blob_scanned d)"
      using assms(1) load_current_Inr [OF lc] by (auto simp: store_ok_def)
    then have v: "valid_scanned (nrows (blob_df d)) (snd (search_core (blob_df d) code (blob_scanned d)))"
      by (simp add: valid_scanned_search_core)
    show ?thesis
    proof (cases rule: search_core_cases [of "blob_df d" code "blob_scanned d"])
      case found
      with SReady c lc d v assms(1) show ?thesis by (simp add: sq_step_def loaded_ok_def)
    next
      case not_found
      with SReady c lc assms(1) show ?thesis by (simp add: sq_step_def loaded_ok_def)
    qed
  next
    case False
    with SReady assms(1) show ?thesis
      by (auto simp: sq_step_def loaded_ok_def split: sum.split prod.split search_outcome.split)
  qed
next
  case (SLoaded sid d res)
  with assms show ?thesis by (simp add: sq_step_def loaded_ok_def store_ok_save)
next
  case (SDone x)
  with assms show ?thesis by (simp add: sq_step_def)
qed

subsection \<open>Properties of concurrent scans\<close>

text \<open>
  Run alone, a search request's read and then its write answer and change the session files as the handler \<open>app_search\<close> does.
\<close>

theorem sq_sched_alone:
  "(case sq_sched [0, 0] [sq_request (cookie s) b io] (disk s) of
      (rs, st') \<Rightarrow> (sq_answer (sq_phase (rs ! 0)), s\<lparr>disk := st'\<rparr>)) = app_search io b s"
proof (cases "\<exists>code sid d. read_barcode b = Inr code \<and> code \<noteq> [] \<and> load_current s = Inr (sid, d)")
  case True
  then obtain code sid d where c: "read_barcode b = Inr code" "code \<noteq> []"
    and lc: "load_current s = Inr (sid, d)" by blast
  show ?thesis
  proof (cases rule: search_core_cases [of "blob_df d" code "blob_scanned d"])
    case found
    with c lc show ?thesis by (simp add: sq_step_def sq_request_def sq_answer_def app_search_def)
  next
    case not_found
    with c lc show ?thesis by (simp add: sq_step_def sq_request_def sq_answer_def app_search_def)
  qed
next
  case False
  then show ?thesis
    by (auto simp: sq_step_def sq_request_def sq_answer_def app_search_def
        split: sum.split prod.split search_outcome.split)
qed

text \<open>
  C33: A lost update: two scans of the same session that both find rows, run as read A, read B, write A, write B, are both answered \<open>found\<close>, A with its new rows; but the session file ends with only B's new rows added, so A's rows are not marked as reviewed although A reported them. Run one after the other (read A, write A, read B, write B), the file keeps the new rows of both.
\<close>

theorem search_lost_update:
  assumes "load_current \<lparr>cookie = c, disk = st\<rparr> = Inr (sid, d)"
    and "py_strip a \<noteq> []" and "found_indices (blob_df d) (py_strip a) \<noteq> []"
    and "py_strip b \<noteq> []" and "found_indices (blob_df d) (py_strip b) \<noteq> []"
  shows "(case sq_sched [0, 1, 0, 1] [sq_request c (BarcodeStr a) SaveOk, sq_request c (BarcodeStr b) SaveOk] st of
            (rs, st') \<Rightarrow>
              sq_answer (sq_phase (rs ! 0)) =
                Inr (RSearch (Found (found_indices (blob_df d) (py_strip a))
                                    (new_spec (found_indices (blob_df d) (py_strip a)) (blob_scanned d))
                                    (length (blob_scanned d) + length (new_spec (found_indices (blob_df d) (py_strip a)) (blob_scanned d)))))
            \<and> st' sid = Some (Stored (d\<lparr>blob_scanned :=
                  blob_scanned d @ new_spec (found_indices (blob_df d) (py_strip b)) (blob_scanned d)\<rparr>)))
       \<and> (case sq_sched [0, 0, 1, 1] [sq_request c (BarcodeStr a) SaveOk, sq_request c (BarcodeStr b) SaveOk] st of
            (rs, st') \<Rightarrow>
              set (new_spec (found_indices (blob_df d) (py_strip a)) (blob_scanned d)) \<union>
              set (new_spec (found_indices (blob_df d) (py_strip b)) (blob_scanned d))
                \<subseteq> (case st' sid of Some (Stored d') \<Rightarrow> set (blob_scanned d') | _ \<Rightarrow> {}))"
proof -
  let ?FA = "found_indices (blob_df d) (py_strip a)" and ?FB = "found_indices (blob_df d) (py_strip b)"
  let ?sc = "blob_scanned d"
  let ?dA = "d\<lparr>blob_scanned := ?sc @ new_spec ?FA ?sc\<rparr>" and ?dB = "d\<lparr>blob_scanned := ?sc @ new_spec ?FB ?sc\<rparr>"
  let ?A = "sq_request c (BarcodeStr a) SaveOk" and ?B = "sq_request c (BarcodeStr b) SaveOk"
  let ?resA = "Found ?FA (new_spec ?FA ?sc) (length ?sc + length (new_spec ?FA ?sc))"
  let ?resB = "Found ?FB (new_spec ?FB ?sc) (length ?sc + length (new_spec ?FB ?sc))"
  have lA: "sq_step ?A st = (?A\<lparr>sq_phase := SLoaded sid ?dA ?resA\<rparr>, st)"
    by (rule sq_step_load_found [OF assms(1-3)])
  have lB: "sq_step ?B st = (?B\<lparr>sq_phase := SLoaded sid ?dB ?resB\<rparr>, st)"
    by (rule sq_step_load_found [OF assms(1,4,5)])
  have "sq_sched [0, 1, 0, 1] [?A, ?B] st =
      ([?A\<lparr>sq_phase := SDone (Inr (RSearch ?resA))\<rparr>, ?B\<lparr>sq_phase := SDone (Inr (RSearch ?resB))\<rparr>],
       st(sid \<mapsto> Stored ?dB))"
    using lA lB by (simp add: sq_step_save save_session_data_def del: sq_step_def)
  then have inter: "(case sq_sched [0, 1, 0, 1] [?A, ?B] st of
            (rs, st') \<Rightarrow> sq_answer (sq_phase (rs ! 0)) = Inr (RSearch ?resA) \<and> st' sid = Some (Stored ?dB))"
    by (simp add: sq_answer_def)
  have cA: "has_data c \<and> session_id c = Some sid" using load_current_Inr [OF assms(1)] by simp
  have lcA: "load_current \<lparr>cookie = c, disk = st(sid \<mapsto> Stored ?dA)\<rparr> = Inr (sid, ?dA)"
    using cA by (simp add: load_current_def load_session_data_def)
  let ?FB' = "found_indices (blob_df ?dA) (py_strip b)"
  let ?dAB = "?dA\<lparr>blob_scanned := blob_scanned ?dA @ new_spec ?FB' (blob_scanned ?dA)\<rparr>"
  have lB': "sq_step ?B (st(sid \<mapsto> Stored ?dA)) =
      (?B\<lparr>sq_phase := SLoaded sid ?dAB (Found ?FB' (new_spec ?FB' (blob_scanned ?dA))
          (length (blob_scanned ?dA) + length (new_spec ?FB' (blob_scanned ?dA))))\<rparr>, st(sid \<mapsto> Stored ?dA))"
    using assms(5) by (intro sq_step_load_found [OF lcA assms(4)]) simp
  have sn: "snd (sq_sched [0, 0, 1, 1] [?A, ?B] st) = st(sid \<mapsto> Stored ?dAB)"
    using lA lB' by (simp add: sq_step_save save_session_data_def del: sq_step_def)
  have sub: "set (new_spec ?FA ?sc) \<union> set (new_spec ?FB ?sc) \<subseteq> set (blob_scanned ?dAB)"
    by auto
  have serial: "(case sq_sched [0, 0, 1, 1] [?A, ?B] st of
            (rs, st') \<Rightarrow> set (new_spec ?FA ?sc) \<union> set (new_spec ?FB ?sc)
                \<subseteq> (case st' sid of Some (Stored d') \<Rightarrow> set (blob_scanned d') | _ \<Rightarrow> {}))"
    unfolding case_prod_beta sn using sub by simp
  from inter serial show ?thesis by simp
qed

text \<open>
  C34: Invariant under every interleaving: however concurrent scans of any sessions are interleaved and whatever the outcome of each write, every session file that holds data holds a well-formed sheet and a duplicate-free scanned list of its rows; a lost update loses rows but never corrupts the list.
\<close>

theorem sq_sched_store_ok:
  assumes "store_ok st" and "list_all loaded_ok rs"
  shows "store_ok (snd (sq_sched js rs st))"
proof -
  have "store_ok (snd (sq_sched js rs st)) \<and> list_all loaded_ok (fst (sq_sched js rs st))"
  proof (rule sched_inv [where P = "\<lambda>rs st. store_ok st \<and> list_all loaded_ok rs"])
    show "store_ok st \<and> list_all loaded_ok rs" using assms ..
  next
    fix rs :: "search_req list" and st :: store and i
    assume P: "store_ok st \<and> list_all loaded_ok rs" and i: "i < length rs"
    then have "store_ok (snd (sq_step (rs ! i) st)) \<and> loaded_ok (fst (sq_step (rs ! i) st))"
      by (intro sq_step_loaded_ok) (simp_all add: list_all_length)
    with P i show "store_ok (snd (sq_step (rs ! i) st)) \<and> list_all loaded_ok (rs[i := fst (sq_step (rs ! i) st)])"
      by (simp add: list_all_length nth_list_update)
  qed
  then show ?thesis ..
qed

end
