(* ===== verification/Examples.thy ===== *)
theory Examples
  imports Cookie_App Cookie_Conc Disk_App Loader_Apps Search_Conc
begin

section \<open>Concrete sessions and the witnesses of the claims\<close>

text \<open>
  A two-row sheet, the cookie session after uploading it, and one
  sequence of requests. Every claim with a hypothesis is applied here at
  these inputs, with the hypotheses discharged by evaluation.
\<close>

definition demo_frame :: frame where
  "demo_frame = \<lparr>columns = [''code'', ''qty''], rows = [[CStr ''A1'', CInt 3], [CStr ''B2'', CInt 4]]\<rparr>"

definition demo_cookie :: cookie_session where
  "demo_cookie = \<lparr>df_data = Some (to_records demo_frame), df_columns = Some [''code'', ''qty''],
                  scanned_items = Some [], filename = Some ''inv.xlsx''\<rparr>"

definition demo_events :: "event list" where
  "demo_events = [EUpload (FilePart ''inv.xlsx'') (Inr demo_frame), ESearch (BarcodeStr ''A1'')]"

definition demo_blob :: blob where
  "demo_blob = \<lparr>blob_df = demo_frame, blob_scanned = [], blob_filename = ''inv.xlsx''\<rparr>"

definition demo_app :: app_state where
  "demo_app =
     \<lparr>cookie = \<lparr>session_id = Some ''s1'', has_data = True, records_count_c = Some 2, filename_c = Some ''inv.xlsx''\<rparr>,
      disk = [''s1'' \<mapsto> Stored demo_blob]\<rparr>"

definition demo_env :: app_env where
  "demo_env = \<lparr>env_fresh = ''s1'', env_save = SaveOk, env_remove_ok = True\<rparr>"

definition demo_blank_frame :: frame where
  "demo_blank_frame = \<lparr>columns = [''code'', ''note''], rows = [[CStr ''A1'', CNaN], [CStr ''B2'', CStr ''ok'']]\<rparr>"

definition demo_reader :: "string \<Rightarrow> unit + frame" where
  "demo_reader c = (if c = ''sheet-A'' then Inr demo_blank_frame else if c = ''sheet-B'' then Inr demo_frame else Inl ())"

definition demo_requests :: "cookie_session request list" where
  "demo_requests = [new_request empty_cookie ''a.xlsx'' ''sheet-A'', new_request empty_cookie ''b.xlsx'' ''sheet-B'']"

definition demo_client :: "session_id \<Rightarrow> disk_client" where
  "demo_client sid = \<lparr>dc_cookie = empty_app_cookie\<lparr>session_id := Some sid\<rparr>, dc_fresh = sid, dc_io = SaveOk\<rparr>"

definition demo_dup_frame :: frame where
  "demo_dup_frame = \<lparr>columns = [''code'', ''alt''], rows = [[CStr ''A1'', CStr ''A1''], [CStr ''B2'', CStr ''C3'']]\<rparr>"

text \<open>
  A sheet whose columns are not in sorted order, with the code \<open>K7\<close> in
  the second column of row 0 and in the first column of row 1.
\<close>

definition demo_order_frame :: frame where
  "demo_order_frame = \<lparr>columns = [''serial'', ''code''], rows = [[CStr ''X9'', CStr ''K7''], [CStr ''K7'', CStr ''Y3'']]\<rparr>"

definition demo_order_events :: "event list" where
  "demo_order_events = [EUpload (FilePart ''inv.xlsx'') (Inr demo_order_frame), ESearch (BarcodeStr ''K7'')]"

lemmas demo_simps = demo_cookie_def demo_frame_def demo_events_def py_strip_def py_isspace_def
  to_records_def found_indices_def frame_of_records_def series_def matches_of_def record_get_def
  int_str_def allowed_file_def py_rsplit1_def py_index_def py_lower_def py_lower_char_def
  ALLOWED_EXTENSIONS_def upload_check_def read_barcode_def get_scanned_def empty_cookie_def
  search_core_def cookie_search_def cookie_upload_def upload_summary_def head_records_def
  nat_str.simps digit_char_def Let_def cookie_step_def json_session_def json_record_def

lemma demo_run:
  "snd (cookie_run id demo_events empty_cookie) = demo_cookie\<lparr>scanned_items := Some [0]\<rparr>"
  by (simp add: demo_simps)

lemma wf_demo_events: "\<forall>e \<in> set demo_events. wf_event e"
  by (simp add: demo_events_def demo_frame_def wf_frame_def)

lemma demo_search_A1:
  "cookie_search (BarcodeStr ''A1'') demo_cookie =
     (Inr (RSearch (Found [0] [0] 1)), demo_cookie\<lparr>scanned_items := Some [0]\<rparr>)"
  by (simp add: demo_simps)

theorem cookie_search_found_witness:
  "df_data demo_cookie = Some (to_records demo_frame) \<and> py_strip '' A1 '' \<noteq> [] \<and>
   found_indices (frame_of_records (to_records demo_frame)) (py_strip '' A1 '') \<noteq> [] \<and>
   (\<exists>N. cookie_search (BarcodeStr '' A1 '') demo_cookie =
          (Inr (RSearch (Found (found_indices (frame_of_records (to_records demo_frame)) (py_strip '' A1 '')) N
                            (length (get_scanned demo_cookie) + length N))),
           demo_cookie\<lparr>scanned_items := Some (get_scanned demo_cookie @ N)\<rparr>)
        \<and> distinct N
        \<and> set N = set (found_indices (frame_of_records (to_records demo_frame)) (py_strip '' A1 '')) - set (get_scanned demo_cookie))"
proof -
  have h: "df_data demo_cookie = Some (to_records demo_frame)" "py_strip '' A1 '' \<noteq> []"
    "found_indices (frame_of_records (to_records demo_frame)) (py_strip '' A1 '') \<noteq> []"
    by (simp_all add: demo_cookie_def demo_frame_def py_strip_def py_isspace_def to_records_def
        found_indices_def frame_of_records_def series_def matches_of_def record_get_def int_str_def)
  show ?thesis using h cookie_search_found [OF h] by blast
qed

theorem cookie_run_scanned_valid_witness:
  "list_all wf_event demo_events \<and>
   snd (cookie_run id demo_events empty_cookie) = demo_cookie\<lparr>scanned_items := Some [0]\<rparr> \<and>
   df_data (demo_cookie\<lparr>scanned_items := Some [0]\<rparr>) = Some (to_records demo_frame) \<and>
   distinct (get_scanned (demo_cookie\<lparr>scanned_items := Some [0]\<rparr>)) \<and>
   list_all (\<lambda>i. i < length (to_records demo_frame)) (get_scanned (demo_cookie\<lparr>scanned_items := Some [0]\<rparr>))"
proof -
  have h: "df_data (demo_cookie\<lparr>scanned_items := Some [0]\<rparr>) = Some (to_records demo_frame)"
    by (simp add: demo_cookie_def)
  show ?thesis
    using cookie_run_scanned_valid [OF wf_demo_events demo_run h] wf_demo_events demo_run h
    by (simp add: list_all_iff)
qed

theorem cookie_search_idempotent_witness:
  "cookie_search (BarcodeStr ''A1'') demo_cookie =
     (Inr (RSearch (Found [0] [0] 1)), demo_cookie\<lparr>scanned_items := Some [0]\<rparr>) \<and>
   cookie_search (BarcodeStr ''A1'') (demo_cookie\<lparr>scanned_items := Some [0]\<rparr>) =
     (Inr (RSearch (Found [0] [] 1)), demo_cookie\<lparr>scanned_items := Some [0]\<rparr>)"
  using demo_search_A1 cookie_search_idempotent [OF demo_search_A1] by blast

theorem cookie_search_not_found_witness:
  "cookie_search (BarcodeStr ''ZZ'') demo_cookie = (Inr (RSearch (NotFound ''ZZ'')), demo_cookie) \<and>
   demo_cookie = demo_cookie \<and> read_barcode (BarcodeStr ''ZZ'') = Inr ''ZZ'' \<and>
   (\<exists>recs. df_data demo_cookie = Some recs \<and> found_indices (frame_of_records recs) ''ZZ'' = [])"
proof -
  have h: "cookie_search (BarcodeStr ''ZZ'') demo_cookie = (Inr (RSearch (NotFound ''ZZ'')), demo_cookie)"
    by (simp add: demo_simps)
  show ?thesis using h cookie_search_not_found [OF h] by blast
qed

theorem cookie_search_blank_witness:
  "list_all py_isspace ''  '' \<and>
   cookie_search (BarcodeStr ''  '') demo_cookie = (Inl EmptyBarcode, demo_cookie) \<and>
   cookie_search NoBarcodeKey demo_cookie = (Inl EmptyBarcode, demo_cookie)"
proof -
  have h: "\<forall>ch \<in> set ''  ''. py_isspace ch" by (simp add: py_isspace_def)
  show ?thesis using h cookie_search_blank [OF h] by (simp add: list_all_iff)
qed

theorem cookie_run_stats_bounds_witness:
  "list_all wf_event demo_events \<and>
   snd (cookie_run id demo_events empty_cookie) = demo_cookie\<lparr>scanned_items := Some [0]\<rparr> \<and>
   cookie_stats (demo_cookie\<lparr>scanned_items := Some [0]\<rparr>) = Inr (RStats (stats_of 2 1)) \<and>
   scanned_count (stats_of 2 1) \<le> total_items (stats_of 2 1) \<and> 0 \<le> pending_items (stats_of 2 1) \<and>
   0 \<le> progress (stats_of 2 1) \<and> progress (stats_of 2 1) \<le> 100"
proof -
  have h: "cookie_stats (demo_cookie\<lparr>scanned_items := Some [0]\<rparr>) = Inr (RStats (stats_of 2 1))"
    by (simp add: cookie_stats_def demo_simps numeral_2_eq_2)
  show ?thesis
    using wf_demo_events demo_run h cookie_run_stats_bounds [OF wf_demo_events demo_run h]
    by (simp add: list_all_iff)
qed

theorem cookie_upload_ok_witness:
  "allowed_file ''inv.xlsx'' = Inr True \<and>
   (\<exists>s'. cookie_upload id (FilePart ''inv.xlsx'') (Inr demo_frame) empty_cookie =
           (Inr (RUpload (upload_summary demo_frame)), s') \<and>
         df_data s' = Some (to_records demo_frame) \<and> get_scanned s' = [] \<and> filename s' = Some (id ''inv.xlsx'') \<and>
         records_count (upload_summary demo_frame) = nrows demo_frame \<and>
         length (preview (upload_summary demo_frame)) = min 100 (nrows demo_frame))"
proof -
  have h: "allowed_file ''inv.xlsx'' = Inr True" by (simp add: demo_simps)
  show ?thesis using h cookie_upload_ok [OF h, of id demo_frame empty_cookie] by blast
qed

theorem cookie_export_status_witness:
  "df_data (demo_cookie\<lparr>scanned_items := Some [0]\<rparr>) = Some (to_records demo_frame) \<and>
   0 < length (to_records demo_frame) \<and>
   (\<exists>r. cookie_export (demo_cookie\<lparr>scanned_items := Some [0]\<rparr>) = Inr (RExport r) \<and>
        length (exp_data r) = length (to_records demo_frame) \<and>
        record_get (exp_data r ! 0) STATUS_COLUMN =
          CStr (if 0 \<in> set (get_scanned (demo_cookie\<lparr>scanned_items := Some [0]\<rparr>)) then ''Escaneado'' else ''Pendiente'') \<and>
        (\<forall>c. c \<noteq> STATUS_COLUMN \<longrightarrow> record_get (exp_data r ! 0) c = record_get (to_records demo_frame ! 0) c) \<and>
        exp_total r = length (to_records demo_frame) \<and>
        exp_pending r = int (length (to_records demo_frame)) - int (length (get_scanned (demo_cookie\<lparr>scanned_items := Some [0]\<rparr>))))"
proof -
  have h1: "df_data (demo_cookie\<lparr>scanned_items := Some [0]\<rparr>) = Some (to_records demo_frame)"
    by (simp add: demo_cookie_def)
  have h2: "0 < length (to_records demo_frame)" by (simp add: demo_simps)
  show ?thesis using h1 h2 cookie_export_status [OF h1 h2] by blast
qed

theorem cookie_responses_match_spec_witness:
  "list_all wf_event demo_events \<and>
   map (map_sum id response_view) (fst (cookie_run id demo_events empty_cookie)) =
     map (map_sum id response_view) (fst (inv_run id demo_events NoData)) \<and>
   cookie_rel (snd (inv_run id demo_events NoData)) (snd (cookie_run id demo_events empty_cookie))"
  using wf_demo_events cookie_responses_match_spec [OF wf_demo_events] by (simp add: list_all_iff)

lemma demo_app_load: "load_current demo_app = Inr (''s1'', demo_blob)"
  by (simp add: demo_app_def load_current_def load_session_data_def)

lemma demo_found: "py_strip ''A1'' \<noteq> [] \<and> found_indices (blob_df demo_blob) (py_strip ''A1'') \<noteq> []"
  by (simp add: demo_blob_def demo_simps)

theorem app_search_found_witness:
  "load_current demo_app = Inr (''s1'', demo_blob) \<and> py_strip ''A1'' \<noteq> [] \<and>
   found_indices (blob_df demo_blob) (py_strip ''A1'') \<noteq> [] \<and>
   (\<exists>N. app_search SaveOk (BarcodeStr ''A1'') demo_app =
         (Inr (RSearch (Found (found_indices (blob_df demo_blob) (py_strip ''A1'')) N (length (blob_scanned demo_blob) + length N))),
          demo_app\<lparr>disk := (disk demo_app)(''s1'' \<mapsto> Stored (demo_blob\<lparr>blob_scanned := blob_scanned demo_blob @ N\<rparr>))\<rparr>)
       \<and> distinct N \<and> set N = set (found_indices (blob_df demo_blob) (py_strip ''A1'')) - set (blob_scanned demo_blob))"
  using demo_app_load demo_found app_search_found [OF demo_app_load, of "''A1''"] by blast

theorem app_search_write_failure_witness:
  "load_current demo_app = Inr (''s1'', demo_blob) \<and> py_strip ''A1'' \<noteq> [] \<and>
   found_indices (blob_df demo_blob) (py_strip ''A1'') \<noteq> [] \<and>
   (\<exists>F N t. fst (app_search FailWrite (BarcodeStr ''A1'') demo_app) = Inr (RSearch (Found F N t))) \<and>
   app_stats (snd (app_search FailWrite (BarcodeStr ''A1'') demo_app)) = Inl LoadFailed"
  using demo_app_load demo_found app_search_write_failure [OF demo_app_load, of "''A1''"] by blast

theorem app_reset_remove_failure_witness:
  "session_id (cookie demo_app) = Some ''s1'' \<and>
   disk (snd (app_reset False demo_app)) ''s1'' = disk demo_app ''s1'' \<and>
   disk (snd (app_reset True demo_app)) ''s1'' = None \<and>
   app_stats (snd (app_reset False demo_app)) = Inl NoDataLoaded"
proof -
  have h: "session_id (cookie demo_app) = Some ''s1''" by (simp add: demo_app_def)
  show ?thesis using h app_reset_remove_failure [OF h, of False] by blast
qed

theorem app_responses_match_spec_witness:
  "list_all (\<lambda>x. reliable (fst x)) [(demo_env, e) . e \<leftarrow> demo_events] \<and>
   fst (app_run id [(demo_env, e) . e \<leftarrow> demo_events] \<lparr>cookie = empty_app_cookie, disk = Map.empty\<rparr>) =
   fst (inv_run id (map snd [(demo_env, e) . e \<leftarrow> demo_events]) NoData)"
proof -
  have h: "\<forall>x \<in> set [(demo_env, e) . e \<leftarrow> demo_events]. reliable (fst x)"
    by (simp add: demo_env_def reliable_def)
  show ?thesis using h app_responses_match_spec [OF h] by (simp add: list_all_iff)
qed

theorem app_run_store_ok_witness:
  "store_ok Map.empty \<and> list_all (\<lambda>x. wf_event (snd x)) [(demo_env, e) . e \<leftarrow> demo_events] \<and>
   store_ok (disk (snd (app_run id [(demo_env, e) . e \<leftarrow> demo_events] \<lparr>cookie = empty_app_cookie, disk = Map.empty\<rparr>)))"
proof -
  have h1: "store_ok (disk \<lparr>cookie = empty_app_cookie, disk = Map.empty\<rparr>)" by (simp add: store_ok_def)
  have h2: "\<forall>x \<in> set [(demo_env, e) . e \<leftarrow> demo_events]. wf_event (snd x)"
    using wf_demo_events by auto
  show ?thesis using h1 h2 app_run_store_ok [OF h1 h2] by (simp add: list_all_iff)
qed

theorem progress_endpoints_witness:
  "0 < (10::nat) \<and> progress (stats_of 10 0) = 0 \<and> progress (stats_of 10 10) = 100 \<and>
   pending_items (stats_of 10 0) = int 10 \<and> pending_items (stats_of 10 10) = 0 \<and>
   progress (stats_of 0 0) = 0"
  using progress_endpoints [of 10] by simp

theorem nan_code_matches_empty_cells_witness:
  "wf_frame demo_blank_frame \<and> 0 < nrows demo_blank_frame \<and> ''note'' \<in> set (columns demo_blank_frame) \<and>
   record_get (to_records demo_blank_frame ! 0) ''note'' = CNaN \<and>
   0 \<in> set (found_indices demo_blank_frame ''nan'')"
proof -
  have h1: "wf_frame demo_blank_frame" by (simp add: demo_blank_frame_def wf_frame_def)
  have h2: "0 < nrows demo_blank_frame" by (simp add: demo_blank_frame_def nrows_def)
  have h3: "''note'' \<in> set (columns demo_blank_frame)" by (simp add: demo_blank_frame_def)
  have h4: "record_get (to_records demo_blank_frame ! 0) ''note'' = CNaN"
    by (simp add: demo_blank_frame_def to_records_def record_get_def)
  show ?thesis using h1 h2 h3 h4 nan_code_matches_empty_cells [OF h1 h2 h3 h4] by blast
qed

theorem ld_sched_private_witness:
  "distinct (map rq_name demo_requests) \<and> own_files demo_requests Map.empty \<and>
   map_prod id srv_shared (ld_sched demo_reader cookie_commit [0, 1, 1, 0, 0, 1] demo_requests
       \<lparr>srv_shared = (), srv_uploads = Map.empty\<rparr>) =
   pv_sched demo_reader cookie_commit [0, 1, 1, 0, 0, 1] demo_requests ()"
proof -
  have h1: "distinct (map rq_name demo_requests)" by (simp add: demo_requests_def new_request_def)
  have h2: "own_files demo_requests (srv_uploads \<lparr>srv_shared = (), srv_uploads = Map.empty\<rparr>)"
    by (simp add: own_files_def demo_requests_def new_request_def)
  show ?thesis
    using h1 h2 ld_sched_private [OF h1 h2, where rd = demo_reader and cm = cookie_commit and js = "[0, 1, 1, 0, 0, 1]"] by simp
qed

theorem app_upload_fs_folder_witness:
  "upload_check (FilePart ''inv.xlsx'') = Inr ''inv.xlsx'' \<and>
   snd (snd (app_upload_fs demo_reader id ''s1'' FailWrite (FilePart ''inv.xlsx'') ''sheet-B''
                (\<lparr>cookie = empty_app_cookie, disk = Map.empty\<rparr>, Map.empty))) =
     (case fst (app_upload_fs demo_reader id ''s1'' FailWrite (FilePart ''inv.xlsx'') ''sheet-B''
                  (\<lparr>cookie = empty_app_cookie, disk = Map.empty\<rparr>, Map.empty)) of
        Inr _ \<Rightarrow> Map.empty(id ''inv.xlsx'' := None)
      | Inl _ \<Rightarrow> Map.empty(id ''inv.xlsx'' \<mapsto> ''sheet-B''))"
proof -
  have h: "upload_check (FilePart ''inv.xlsx'') = Inr ''inv.xlsx''" by (simp add: demo_simps)
  show ?thesis using h app_upload_fs_folder [OF h] by blast
qed

theorem upload_same_name_race_witness:
  "demo_reader ''sheet-B'' = Inr demo_frame \<and>
   session_id (dc_cookie (demo_client ''sa'')) = Some ''sa'' \<and>
   session_id (dc_cookie (demo_client ''sb'')) = Some ''sb'' \<and> ''sa'' \<noteq> ''sb'' \<and>
   dc_io (demo_client ''sa'') = SaveOk \<and> dc_io (demo_client ''sb'') = SaveOk \<and>
   (case ld_sched demo_reader app_commit [0, 1, 0, 1, 0, 1]
           [new_request (demo_client ''sa'') ''inv.xlsx'' ''sheet-A'',
            new_request (demo_client ''sb'') ''inv.xlsx'' ''sheet-B'']
           \<lparr>srv_shared = Map.empty, srv_uploads = Map.empty\<rparr> of
      (rs', g') \<Rightarrow>
        srv_shared g' ''sa'' = Some (Stored \<lparr>blob_df = demo_frame, blob_scanned = [], blob_filename = ''inv.xlsx''\<rparr>)
      \<and> answer (rq_phase (rs' ! 0)) = Inr (RUpload (app_upload_info demo_frame))
      \<and> srv_shared g' ''sb'' = Some (Stored \<lparr>blob_df = demo_frame, blob_scanned = [], blob_filename = ''inv.xlsx''\<rparr>)
      \<and> has_data (dc_cookie (rq_local (rs' ! 1)))
      \<and> answer (rq_phase (rs' ! 1)) = Inl Exception
      \<and> srv_uploads g' ''inv.xlsx'' = None)"
proof -
  have h1: "demo_reader ''sheet-B'' = Inr demo_frame" by (simp add: demo_reader_def)
  have h2: "session_id (dc_cookie (demo_client ''sa'')) = Some ''sa''" by (simp add: demo_client_def)
  have h3: "session_id (dc_cookie (demo_client ''sb'')) = Some ''sb''" by (simp add: demo_client_def)
  have h4: "''sa'' \<noteq> ''sb''" by simp
  have h5: "dc_io (demo_client ''sa'') = SaveOk" by (simp add: demo_client_def)
  have h6: "dc_io (demo_client ''sb'') = SaveOk" by (simp add: demo_client_def)
  show ?thesis
    using h1 h2 h3 h4 h5 h6
      upload_same_name_race [where rd = demo_reader and cB = "''sheet-B''" and n = "''inv.xlsx''"
        and cA = "''sheet-A''" and g = "\<lparr>srv_shared = Map.empty, srv_uploads = Map.empty\<rparr>",
        OF h1 h2 h3 h4 h5 h6]
    by blast
qed

theorem cookie_scan_completes_witness:
  "list_all wf_event demo_events \<and>
   snd (cookie_run id demo_events empty_cookie) = demo_cookie\<lparr>scanned_items := Some [0]\<rparr> \<and>
   df_data (demo_cookie\<lparr>scanned_items := Some [0]\<rparr>) = Some (to_records demo_frame) \<and>
   0 < length (to_records demo_frame) \<and>
   list_all (\<lambda>i. list_ex (\<lambda>c. py_strip c \<noteq> [] \<and> i \<in> set (found_indices (frame_of_records (to_records demo_frame)) (py_strip c)))
                 [''A1'', ''B2''])
     [0..<length (to_records demo_frame)] \<and>
   cookie_stats (snd (cookie_run id (map (ESearch \<circ> BarcodeStr) [''A1'', ''B2'']) (demo_cookie\<lparr>scanned_items := Some [0]\<rparr>))) =
     Inr (RStats (stats_of (length (to_records demo_frame)) (length (to_records demo_frame)))) \<and>
   progress (stats_of (length (to_records demo_frame)) (length (to_records demo_frame))) = 100"
proof -
  have d: "df_data (demo_cookie\<lparr>scanned_items := Some [0]\<rparr>) = Some (to_records demo_frame)"
    by (simp add: demo_cookie_def)
  have n: "0 < length (to_records demo_frame)" by (simp add: demo_simps)
  have c: "list_all (\<lambda>i. list_ex (\<lambda>c. py_strip c \<noteq> [] \<and> i \<in> set (found_indices (frame_of_records (to_records demo_frame)) (py_strip c)))
                 [''A1'', ''B2''])
     [0..<length (to_records demo_frame)]"
    by (simp add: demo_simps upt_rec)
  then have h: "\<forall>i < length (to_records demo_frame). \<exists>c \<in> set [''A1'', ''B2''].
      py_strip c \<noteq> [] \<and> i \<in> set (found_indices (frame_of_records (to_records demo_frame)) (py_strip c))"
    by (simp add: list_all_iff list_ex_iff)
  show ?thesis
    using wf_demo_events demo_run d n c cookie_scan_completes [OF wf_demo_events demo_run d n h]
    by (simp add: list_all_iff)
qed

theorem cookie_run_records_typed_witness:
  "list_all wf_event demo_events \<and>
   snd (cookie_run id demo_events empty_cookie) = demo_cookie\<lparr>scanned_items := Some [0]\<rparr> \<and>
   df_data (demo_cookie\<lparr>scanned_items := Some [0]\<rparr>) = Some (to_records demo_frame) \<and>
   (\<exists>cols. df_columns (demo_cookie\<lparr>scanned_items := Some [0]\<rparr>) = Some cols \<and> distinct cols \<and>
      list_all (\<lambda>r. map fst r = sort cols) (to_records demo_frame) \<and>
      (to_records demo_frame \<noteq> [] \<longrightarrow> columns (frame_of_records (to_records demo_frame)) = sort cols))"
proof -
  have d: "df_data (demo_cookie\<lparr>scanned_items := Some [0]\<rparr>) = Some (to_records demo_frame)"
    by (simp add: demo_cookie_def)
  show ?thesis
    using wf_demo_events demo_run d cookie_run_records_typed [OF wf_demo_events demo_run d]
    by (simp add: list_all_iff)
qed

theorem search_lost_update_witness:
  "load_current \<lparr>cookie = cookie demo_app, disk = disk demo_app\<rparr> = Inr (''s1'', demo_blob) \<and>
   py_strip ''A1'' \<noteq> [] \<and> found_indices (blob_df demo_blob) (py_strip ''A1'') \<noteq> [] \<and>
   py_strip ''B2'' \<noteq> [] \<and> found_indices (blob_df demo_blob) (py_strip ''B2'') \<noteq> [] \<and>
   (case sq_sched [0, 1, 0, 1] [sq_request (cookie demo_app) (BarcodeStr ''A1'') SaveOk,
                                sq_request (cookie demo_app) (BarcodeStr ''B2'') SaveOk] (disk demo_app) of
      (rs, st') \<Rightarrow>
        sq_answer (sq_phase (rs ! 0)) =
          Inr (RSearch (Found (found_indices (blob_df demo_blob) (py_strip ''A1''))
                              (new_spec (found_indices (blob_df demo_blob) (py_strip ''A1'')) (blob_scanned demo_blob))
                              (length (blob_scanned demo_blob) +
                               length (new_spec (found_indices (blob_df demo_blob) (py_strip ''A1'')) (blob_scanned demo_blob)))))
      \<and> st' ''s1'' = Some (Stored (demo_blob\<lparr>blob_scanned :=
            blob_scanned demo_blob @ new_spec (found_indices (blob_df demo_blob) (py_strip ''B2'')) (blob_scanned demo_blob)\<rparr>)))"
proof -
  have h1: "load_current \<lparr>cookie = cookie demo_app, disk = disk demo_app\<rparr> = Inr (''s1'', demo_blob)"
    using demo_app_load by simp
  have h2: "py_strip ''A1'' \<noteq> []" and h3: "found_indices (blob_df demo_blob) (py_strip ''A1'') \<noteq> []"
    using demo_found by simp_all
  have h4: "py_strip ''B2'' \<noteq> []" and h5: "found_indices (blob_df demo_blob) (py_strip ''B2'') \<noteq> []"
    by (simp_all add: demo_blob_def demo_simps)
  show ?thesis using h1 h2 h3 h4 h5 search_lost_update [OF h1 h2 h3 h4 h5] by simp
qed

theorem sq_sched_store_ok_witness:
  "store_ok (disk demo_app) \<and>
   list_all loaded_ok [sq_request (cookie demo_app) (BarcodeStr ''A1'') FailWrite,
                       sq_request (cookie demo_app) (BarcodeStr ''B2'') SaveOk] \<and>
   store_ok (snd (sq_sched [0, 1, 1, 0] [sq_request (cookie demo_app) (BarcodeStr ''A1'') FailWrite,
                                       sq_request (cookie demo_app) (BarcodeStr ''B2'') SaveOk] (disk demo_app)))"
proof -
  have h1: "store_ok (disk demo_app)"
    by (simp add: store_ok_def demo_app_def demo_blob_def demo_frame_def wf_frame_def valid_scanned_def)
  have h2: "list_all loaded_ok [sq_request (cookie demo_app) (BarcodeStr ''A1'') FailWrite,
                       sq_request (cookie demo_app) (BarcodeStr ''B2'') SaveOk]"
    by (simp add: loaded_ok_def)
  show ?thesis using h1 h2 sq_sched_store_ok [OF h1 h2] by blast
qed

theorem duplicate_matches_witness:
  "0 < nrows demo_dup_frame \<and>
   count_list (found_indices demo_dup_frame ''A1'') 0 =
     length (filter (\<lambda>c. cell_str (series demo_dup_frame c ! 0) = ''A1'') (columns demo_dup_frame)) \<and>
   count_list (found_indices demo_dup_frame ''A1'') 0 = 2"
proof -
  have h: "0 < nrows demo_dup_frame" by (simp add: demo_dup_frame_def nrows_def)
  have "length (filter (\<lambda>c. cell_str (series demo_dup_frame c ! 0) = ''A1'') (columns demo_dup_frame)) = 2"
    by (simp add: demo_dup_frame_def series_def record_get_def)
  then show ?thesis using h duplicate_matches [OF h, of "''A1''"] by simp
qed

theorem cookie_lost_update_witness:
  "df_data demo_cookie = Some (to_records demo_frame) \<and>
   py_strip ''A1'' \<noteq> [] \<and> found_indices (frame_of_records (to_records demo_frame)) (py_strip ''A1'') \<noteq> [] \<and>
   py_strip ''B2'' \<noteq> [] \<and> found_indices (frame_of_records (to_records demo_frame)) (py_strip ''B2'') \<noteq> [] \<and>
   (case cq_sched id [0, 1, 0, 1] [cq_request (ESearch (BarcodeStr ''A1'')), cq_request (ESearch (BarcodeStr ''B2''))] demo_cookie of
      (rs, jar) \<Rightarrow>
        cq_answer (cq_phase (rs ! 0)) =
          Inr (RSearch (Found (found_indices (frame_of_records (to_records demo_frame)) (py_strip ''A1''))
             (new_spec (found_indices (frame_of_records (to_records demo_frame)) (py_strip ''A1'')) (get_scanned demo_cookie))
             (length (get_scanned demo_cookie) +
              length (new_spec (found_indices (frame_of_records (to_records demo_frame)) (py_strip ''A1'')) (get_scanned demo_cookie)))))
      \<and> jar = json_session (demo_cookie\<lparr>scanned_items := Some (get_scanned demo_cookie @
                  new_spec (found_indices (frame_of_records (to_records demo_frame)) (py_strip ''B2'')) (get_scanned demo_cookie))\<rparr>))"
proof -
  have h1: "df_data demo_cookie = Some (to_records demo_frame)" by (simp add: demo_cookie_def)
  have h2: "py_strip ''A1'' \<noteq> []" and h3: "found_indices (frame_of_records (to_records demo_frame)) (py_strip ''A1'') \<noteq> []"
    and h4: "py_strip ''B2'' \<noteq> []" and h5: "found_indices (frame_of_records (to_records demo_frame)) (py_strip ''B2'') \<noteq> []"
    by (simp_all add: demo_simps)
  show ?thesis using h1 h2 h3 h4 h5 conjunct1 [OF cookie_lost_update [OF h1 h2 h3 h4 h5, of id]]
    by (intro conjI)
qed

end
