(* ===== verification/Spec2Isabelle.thy ===== *)
theory Spec2Isabelle
  imports Examples
begin

text \<open>
  \<^bold>\<open>A verification development of the inventory checker.\<close>

  \<^bold>\<open>The program.\<close> A Flask web application: the user uploads an Excel
  sheet of inventory records, scans or types bar codes, and every row that
  holds the code in some cell is marked as reviewed; the application
  reports progress and exports the sheet with a status column. The
  repository has two versions of the same application:
  \<^item> \<open>src/inventory_flask_app.py\<close> keeps the whole sheet, the scanned row
    indices and the file name in Flask's signed cookie session;
  \<^item> \<open>src/App.py\<close> keeps only a session id and a few flags in the cookie
    and pickles the sheet and the scanned indices to a file per session
    (\<open>data/session_<id>.pkl\<close>).
  Both have the same five endpoints (\<open>/upload\<close>, \<open>/search\<close>,
  \<open>/stats\<close>, \<open>/export\<close>, \<open>/reset\<close>) with the same guards, the same
  search loop, the same statistics and the same export.

  \<^bold>\<open>The theories.\<close>
  \<^item> \<open>Prelude\<close>: named collections, type names, list, association-list
    and multiset lemmas (a list sorted by key keeps the first entry of
    every key; permutations have the same multiset and the same sorted
    form), and the schedules of concurrent requests (\<open>sched\<close>: a list of
    requests, their shared state, and the indices of the requests whose
    next atomic phase runs) with two generic lemmas that carry every
    concurrency proof: an invariant kept by every phase holds after every
    schedule (\<open>sched_inv\<close>), and a coupling kept by every phase makes two
    systems run every schedule alike (\<open>sched_sim\<close>).
  \<^item> \<open>Py_Builtins\<close>: the Python builtins the handlers call, on Latin-1
    strings: \<open>str.strip\<close>, \<open>str.lower\<close>, \<open>str.rsplit(sep, 1)\<close>, list
    indexing, \<open>str()\<close> of an integer, \<open>round(x, 2)\<close>.
  \<^item> \<open>Frame\<close>: the pandas DataFrame of the sheet (cells, \<open>astype(str)\<close>,
    \<open>to_dict('records')\<close>, \<open>pd.DataFrame(records)\<close>, \<open>df[col]\<close>,
    \<open>df[name] = values\<close>).
  \<^item> \<open>Scan\<close>: the search loop over the columns and the loop that adds the
    found rows to the scanned list (both files, \<open>search_barcode\<close>); the
    scanned-set invariant.
  \<^item> \<open>Upload\<close>: \<open>allowed_file\<close>, the guards of \<open>upload_file\<close>, the
    upload summary; the error responses and their status codes.
  \<^item> \<open>Report\<close>: the computation of \<open>get_stats\<close> and \<open>export_results\<close>.
  \<^item> \<open>Session\<close>: the abstract specification: a session is nothing or one
    data set with its scanned list and file name; the five requests are a
    step function on it (\<open>inv_step\<close>); its invariant \<open>inv_ok\<close> is kept by
    every step.
  \<^item> \<open>Cookie_App\<close>: \<open>src/inventory_flask_app.py\<close>. The record
    \<open>cookie_session\<close> is Flask's session dictionary (\<open>df_data\<close>,
    \<open>df_columns\<close>, \<open>scanned_items\<close>, \<open>filename\<close>, each absent or
    present); \<open>cookie_upload\<close>, \<open>cookie_search\<close>, \<open>cookie_stats\<close>,
    \<open>cookie_export\<close>, \<open>cookie_reset\<close> are the five handlers, guards and
    early returns included, and \<open>cookie_handle\<close> dispatches a request to
    its handler. \<open>cookie_step\<close> adds what Flask does after the handler:
    when the handler wrote the session (\<open>sets_cookie\<close>) the session is
    serialized to JSON with sorted keys and the next request decodes it,
    so every stored record comes back with its keys sorted
    (\<open>json_record\<close>, \<open>json_session\<close>); otherwise the browser keeps its
    cookie. \<open>cookie_run\<close> threads the cookie through a sequence of
    requests. \<open>cookie_rel\<close> relates an abstract session to the cookies
    that hold it, \<open>response_view\<close> forgets the orders the sorted keys
    change.
  \<^item> \<open>Disk_App\<close>: \<open>src/App.py\<close>. The state \<open>app_state\<close> pairs the
    cookie (\<open>session_id\<close>, \<open>has_data\<close>, \<open>records_count\<close>,
    \<open>filename\<close>) with the directory \<open>data/\<close>, a map from session ids to
    a pickled dictionary (\<open>blob\<close>) or a corrupt file.
    \<open>save_session_data\<close>, \<open>load_session_data\<close>,
    \<open>cleanup_session_data\<close> are the three storage helpers; the outcome
    of each file operation (success, failure before the file is opened,
    failure while writing, failed \<open>os.remove\<close>) and the fresh
    \<open>uuid4\<close> are inputs (\<open>app_env\<close>), so every error path of the code is
    a branch of the model. \<open>app_upload\<close> \<dots> \<open>app_reset\<close> are the
    handlers, \<open>app_step\<close>/\<open>app_run\<close> the dispatch. Pickle keeps the
    DataFrame as it is, so no order changes here.
  \<^item> \<open>Loader\<close>: the upload folder \<open>uploads/\<close> shared by all sessions
    (a map from file names to contents) and an upload request after its
    guards as three atomic phases (\<open>ld_step\<close>): \<open>file.save\<close>,
    \<open>pd.read_excel\<close> of the saved file followed by the commit of the sheet
    to the session, \<open>os.remove\<close>. The commit is a parameter, so the
    theory serves both applications. Concurrent requests are a list of
    requests and a schedule of their indices (\<open>ld_sched\<close>); the
    reference \<open>pv_sched\<close> gives each request a private file.
  \<^item> \<open>Loader_Apps\<close>: the commits of the two \<open>upload_file\<close>s
    (\<open>cookie_commit\<close>, \<open>app_commit\<close>) and the request-level uploads with
    the folder (\<open>cookie_upload_fs\<close>, \<open>app_upload_fs\<close>).
  \<^item> \<open>Cookie_Conc\<close>: concurrent requests of \<open>inventory_flask_app.py\<close>:
    a request is sent with the cookie the browser holds, served by
    \<open>cookie_step\<close> on that copy, and its response replaces the browser's
    cookie only when the handler wrote the session (\<open>sets_cookie\<close>:
    a successful upload, a found scan, a reset); run alone this is
    \<open>cookie_step\<close> (\<open>cq_alone\<close>).
  \<^item> \<open>Search_Conc\<close>: \<open>search_barcode\<close> of \<open>App.py\<close> as its two atomic
    phases on the store of session files (\<open>sq_step\<close>): the read (guards,
    \<open>load_session_data\<close>, the search) and the write
    (\<open>save_session_data\<close>); run alone they are \<open>app_search\<close>
    (\<open>sq_sched_alone\<close>); concurrent scans of any sessions under any
    schedule.
  \<^item> \<open>Examples\<close>: small sheets, sessions run on them, two concurrent
    uploads, and the instances of the theorems with hypotheses at these
    inputs, all evaluated by the simplifier.

  \<^bold>\<open>What is shown.\<close>
  \<^item> Refinement: both applications implement the abstract specification
    \<open>Session.inv_step\<close>. The disk version does so exactly: a coupling
    relation \<open>app_holds\<close> is kept by every step when the file operations
    succeed (\<open>app_step_refines\<close>), whatever other sessions' files hold
    (C11). The cookie version does so up to order: \<open>cookie_rel\<close> is kept
    by every step and the responses agree under \<open>response_view\<close>
    (\<open>cookie_step_sim\<close>, \<open>cookie_run_sim\<close>, C9). The order does differ:
    the rebuilt frame has its columns sorted, so a code found in several
    columns is reported in another order (C10, a concrete run of both
    versions). Together the two versions give the same responses up to
    that order (C25). The loader run alone is exactly the upload handler
    of each version given \<open>read_excel\<close> of the uploaded content (C27,
    C28), which is what justifies taking the parsed sheet as an input of
    \<open>app_upload\<close> and \<open>cookie_upload\<close>.
  \<^item> The search: the answer and the new scanned list of a successful scan
    (C1, C12), idempotence (C3), the not-found and blank-code paths (C4,
    C5); the add loop equals its set-level specification (C17); the
    matcher's indices are exactly the rows with a matching cell (C18).
  \<^item> Invariants: in every session reached by requests the scanned list has
    no duplicate and names rows of the sheet (C2), the statistics are in
    range (C6); the disk store stays well formed under any outcome of the
    file operations (C13); a request touches only its own session file
    (C14); the stored records all have the cookie's columns as keys, in
    sorted order, and the rebuilt frame has those columns sorted (C32).
  \<^item> Interleaving and progress: when concurrent uploads have pairwise
    different file names, every schedule behaves as if each request had a
    private file (C26, an induction over the schedule keeping the
    invariant \<open>own_files\<close>); scanning codes that cover every row drives
    progress to 100 (C31); under every interleaving of concurrent scans
    the session files stay well formed (C34).
  \<^item> Upload and report: \<open>allowed_file\<close> (C19), the upload summary (C7),
    the export status column (C8), progress at the ends (C21).
  \<^item> Behaviour the specification does not foresee: a failed write during
    \<open>/search\<close> is answered as success and loses the update (C15); a failed
    removal on \<open>/reset\<close> leaves the session file behind (C16); a row
    is listed once per matching column, so the reported count counts cells
    (C22); the text \<open>nan\<close> matches empty cells (C23); no integer code
    matches a float cell, so a code column read as floats is never found
    (C24); a failed upload leaves its file in \<open>uploads/\<close> (C29);
    two sessions uploading files of the same name concurrently can end
    with one session holding the other's sheet and the other answered
    with an error although its data was saved (C30); two concurrent scans
    of one session can both be answered \<open>found\<close> while the file keeps only
    the second one's rows (C33, a lost update of the read-modify-write),
    and the same holds in the cookie version, where the browser keeps the
    cookie of the last answer (C20); the cookie version searches the
    columns in sorted order (C10, C32).

  \<^bold>\<open>Bounds and fuel.\<close> Every loop of the program runs over a finite list
  (columns, rows, found indices), so every definition is structurally
  recursive or a list combinator; no fuel or bound is needed and all
  definitions are total and executable. Schedules are finite lists. No
  claim is of the termination kind: the program has no loop whose
  termination needs an argument (every Python loop runs over a list the
  loop does not change), and in the model every function is accepted by
  structural recursion.

  \<^bold>\<open>Not modelled.\<close> The Excel parser \<open>pd.read_excel\<close> (a parameter: the
  frame a file content parses to, or \<open>Inl\<close> when it raises) and
  werkzeug's \<open>secure_filename\<close> (a parameter); pickle's byte encoding (a
  file holds the dictionary or is corrupt); \<open>file.save\<close> failing (a full
  disk); the index page, the HTML template and the Flask setup (no state);
  cells beyond text, integers, integral floats, booleans and \<open>NaN\<close>:
  non-integral floats and dates, whose \<open>astype(str)\<close> follows Python's
  shortest round-trip float printing and pandas' date formatting, and
  integral floats of \<open>10^16\<close> and more, which print in exponent form
  (so the Dataset component is partly modelled); progress is computed on
  exact rationals rounded half to even, not on binary floats; concurrent
  \<open>/reset\<close>, \<open>/stats\<close>, \<open>/export\<close> of \<open>App.py\<close> (they write at most the
  removal of their own file, C14); the browser's cookie size limit and
  the cookie signature; the serializer's tags for a dictionary of one key
  that is a tag name (a column named \<open> t\<close>, \<open> di\<close>, ...), and
  columns whose names are not strings (JSON turns them into strings).
\<close>

text \<open>
  C10: The two versions report the rows of a code found in several columns in different orders: on a sheet with the columns \<open>serial\<close>, \<open>code\<close> that holds \<open>K7\<close> under \<open>code\<close> in row 0 and under \<open>serial\<close> in row 1, \<open>src/App.py\<close> (like the specification) answers \<open>matched_indices\<close> = \<open>new_scanned\<close> = [1, 0], while \<open>src/inventory_flask_app.py\<close>, whose cookie returns the records with sorted keys so that the rebuilt frame has the columns \<open>code\<close>, \<open>serial\<close>, answers [0, 1].
\<close>

theorem search_order_differs:
  "fst (app_run id [(demo_env, e) . e \<leftarrow> demo_order_events] \<lparr>cookie = empty_app_cookie, disk = Map.empty\<rparr>) =
     [Inr (RUpload (app_upload_info demo_order_frame)), Inr (RSearch (Found [1, 0] [1, 0] 2))] \<and>
   fst (cookie_run id demo_order_events empty_cookie) =
     [Inr (RUpload (upload_summary demo_order_frame)), Inr (RSearch (Found [0, 1] [0, 1] 2))]"
proof
  show "fst (app_run id [(demo_env, e) . e \<leftarrow> demo_order_events] \<lparr>cookie = empty_app_cookie, disk = Map.empty\<rparr>) =
     [Inr (RUpload (app_upload_info demo_order_frame)), Inr (RSearch (Found [1, 0] [1, 0] 2))]"
    by (simp add: demo_simps demo_order_frame_def demo_order_events_def demo_env_def app_upload_def
        app_search_def save_session_data_def load_current_def load_session_data_def empty_app_cookie_def)
  show "fst (cookie_run id demo_order_events empty_cookie) =
     [Inr (RUpload (upload_summary demo_order_frame)), Inr (RSearch (Found [0, 1] [0, 1] 2))]"
    by (simp add: demo_simps demo_order_frame_def demo_order_events_def)
qed

text \<open>
  C25: The two versions of the application are interchangeable up to order: on every sequence of requests with well-formed sheets and successful file operations, \<open>src/App.py\<close> from a fresh cookie, whatever files other sessions left on disk, gives the responses \<open>src/inventory_flask_app.py\<close> gives from a fresh session, except for the order of \<open>matched_indices\<close> and \<open>new_scanned\<close> (the cookie version searches the columns in sorted order) and the order of the keys of exported records (which \<open>jsonify\<close> sorts in both).
\<close>

theorem apps_agree:
  assumes "\<forall>x \<in> set es. reliable (fst x)" and "\<forall>x \<in> set es. wf_event (snd x)"
  shows "map (map_sum id response_view) (fst (app_run secure es \<lparr>cookie = empty_app_cookie, disk = st\<rparr>)) =
         map (map_sum id response_view) (fst (cookie_run secure (map snd es) empty_cookie))"
proof -
  have "app_holds NoData \<lparr>cookie = empty_app_cookie, disk = st\<rparr>"
    by (simp add: empty_app_cookie_def)
  with assms(1) have a: "fst (app_run secure es \<lparr>cookie = empty_app_cookie, disk = st\<rparr>) =
      fst (inv_run secure (map snd es) NoData)"
    using app_run_refines by blast
  have "\<forall>e \<in> set (map snd es). wf_event e" using assms(2) by simp
  then have "map (map_sum id response_view) (fst (cookie_run secure (map snd es) empty_cookie)) =
      map (map_sum id response_view) (fst (inv_run secure (map snd es) NoData))"
    using cookie_run_sim [of NoData empty_cookie "map snd es" secure] by (simp add: inv_ok_def)
  with a show ?thesis by simp
qed

theorem apps_agree_witness:
  "list_all (\<lambda>x. reliable (fst x) \<and> wf_event (snd x)) [(demo_env, e) . e \<leftarrow> demo_events] \<and>
   map (map_sum id response_view) (fst (app_run id [(demo_env, e) . e \<leftarrow> demo_events] \<lparr>cookie = empty_app_cookie, disk = Map.empty\<rparr>)) =
   map (map_sum id response_view) (fst (cookie_run id demo_events empty_cookie))"
proof -
  have h1: "\<forall>x \<in> set [(demo_env, e) . e \<leftarrow> demo_events]. reliable (fst x)"
    by (simp add: demo_env_def reliable_def)
  have h2: "\<forall>x \<in> set [(demo_env, e) . e \<leftarrow> demo_events]. wf_event (snd x)"
    using wf_demo_events by simp
  show ?thesis using h1 h2 apps_agree [OF h1 h2] by (simp add: list_all_iff comp_def)
qed

end
